theory Spec2Isabelle
  imports
    Complex_Main
    "HOL-Library.Char_ord"
    "HOL-Library.List_Lexorder"
    "HOL-Library.Multiset"
begin

text \<open>
  A model of the hotel back end: an Express server over an in-memory SQLite database
  with a table of work submissions and a table of rooms. The repository holds three
  versions of the server. The one modelled in full is the server with room management
  (\<open>GET\<close> and \<open>POST /api/submissions\<close>; \<open>GET\<close>, \<open>POST\<close>, \<open>PUT\<close> and \<open>DELETE\<close> on
  \<open>/api/rooms\<close>); its submission handlers are those of the submissions-only server. Of
  the server with the detailed error reports, the handlers that answer differently are
  modelled beside them.

  The database, \<open>JSON.parse\<close> and \<open>JSON.stringify\<close> are not code of the repository; they
  are modelled from the SQL statements and table definitions of the source and from
  the JSON grammar, as far as the handlers use them. Resource limits of the JavaScript
  engine and of the database (memory, the depth of the call stack) are not modelled.
\<close>

section \<open>Text, JavaScript values and JSON\<close>

text \<open>
  Text is modelled as the byte string of its UTF-8 encoding (\<^typ>\<open>string\<close>), which is
  what SQLite stores in a TEXT column and compares bytewise under the default BINARY
  collation. A string that \<open>JSON.parse\<close> has built may hold an unpaired surrogate, which
  has no UTF-8 encoding; it is carried as the three bytes that the UTF-8 scheme gives
  its code point, so that different JavaScript strings stay different.

  A JavaScript number is a double. \<open>JNumber q\<close> is the finite double of value \<open>q\<close> (the two
  zeros are not told apart: both are falsy and both are written \<open>0\<close>), \<open>JInfinity True\<close>
  is \<open>Infinity\<close> and \<open>JInfinity False\<close> is \<open>-Infinity\<close>. \<open>NaN\<close> does not arise in the
  handlers. How a number is printed is not modelled.

  An object is the list of its properties in the order in which JavaScript enumerates
  them.
\<close>

type_synonym jsnum = rat

datatype json =
    JNull
  | JBool bool
  | JNumber jsnum
  | JInfinity bool
  | JString string
  | JArray "json list"
  | JObject "(string \<times> json) list"

datatype js_error = SyntaxError | TypeError

text \<open>A destructured request field: missing from the body, \<open>null\<close>, or a value.\<close>

datatype 'a field = Undefined | Null | Val 'a

subsection \<open>\<open>JSON.stringify\<close> on arrays of strings\<close>

text \<open>\<open>Array.prototype.join\<close>.\<close>

fun join :: "string \<Rightarrow> string list \<Rightarrow> string" where
  "join sep [] = []"
| "join sep [x] = x"
| "join sep (x # y # ys) = x @ sep @ join sep (y # ys)"

definition hex_digit :: "nat \<Rightarrow> char" where
  "hex_digit n = (if n < 10 then char_of (48 + n) else char_of (87 + n))"

text \<open>
  \<open>QuoteJSONString\<close> of ECMA-262: the quotation mark, the reverse solidus and the control
  characters below U+0020 are escaped, every other byte is copied. (Unpaired surrogates,
  which it also escapes, do not occur in the text of a request as it is modelled here.)
\<close>

definition quote_char :: "char \<Rightarrow> string" where
  "quote_char c =
    (if c = CHR 0x22 then [CHR 0x5C, CHR 0x22]
     else if c = CHR 0x5C then [CHR 0x5C, CHR 0x5C]
     else if c = CHR 0x08 then [CHR 0x5C, CHR ''b'']
     else if c = CHR 0x0C then [CHR 0x5C, CHR ''f'']
     else if c = CHR 0x0A then [CHR 0x5C, CHR ''n'']
     else if c = CHR 0x0D then [CHR 0x5C, CHR ''r'']
     else if c = CHR 0x09 then [CHR 0x5C, CHR ''t'']
     else if (of_char c :: nat) < 32 then
       [CHR 0x5C, CHR ''u'', CHR ''0'', CHR ''0'',
        hex_digit ((of_char c :: nat) div 16), hex_digit ((of_char c :: nat) mod 16)]
     else [c])"

definition QuoteJSONString :: "string \<Rightarrow> string" where
  "QuoteJSONString s = CHR 0x22 # concat (map quote_char s) @ [CHR 0x22]"

text \<open>\<open>JSON.stringify(xs)\<close> for an array \<open>xs\<close> of strings, without indentation.\<close>

definition stringify_strings :: "string list \<Rightarrow> string" where
  "stringify_strings xs = CHR ''['' # join '','' (map QuoteJSONString xs) @ '']''"

subsection \<open>\<open>JSON.parse\<close>\<close>

definition is_ws :: "char \<Rightarrow> bool" where
  "is_ws c \<longleftrightarrow> c = CHR 0x20 \<or> c = CHR 0x09 \<or> c = CHR 0x0A \<or> c = CHR 0x0D"

definition skip_ws :: "string \<Rightarrow> string" where
  "skip_ws cs = dropWhile is_ws cs"

definition is_digit :: "char \<Rightarrow> bool" where
  "is_digit c \<longleftrightarrow> 48 \<le> (of_char c :: nat) \<and> (of_char c :: nat) \<le> 57"

definition digit_val :: "char \<Rightarrow> int" where
  "digit_val c = of_char c - 48"

definition digits_val :: "string \<Rightarrow> int" where
  "digits_val ds = foldl (\<lambda>n c. 10 * n + digit_val c) 0 ds"

definition hex_val :: "char \<Rightarrow> nat option" where
  "hex_val c =
    (let k = (of_char c :: nat) in
     if 48 \<le> k \<and> k \<le> 57 then Some (k - 48)
     else if 97 \<le> k \<and> k \<le> 102 then Some (k - 87)
     else if 65 \<le> k \<and> k \<le> 70 then Some (k - 55)
     else None)"

text \<open>
  The characters of a string literal as the parser reads them: a byte of the text, or
  the 16-bit code unit named by a \<open>\u\<close> escape.
\<close>

datatype code_unit = Raw char | Esc nat

definition simple_escape :: "char \<Rightarrow> char option" where
  "simple_escape e =
    (if e = CHR 0x22 then Some (CHR 0x22)
     else if e = CHR 0x5C then Some (CHR 0x5C)
     else if e = CHR ''/'' then Some (CHR ''/'')
     else if e = CHR ''b'' then Some (CHR 0x08)
     else if e = CHR ''f'' then Some (CHR 0x0C)
     else if e = CHR ''n'' then Some (CHR 0x0A)
     else if e = CHR ''r'' then Some (CHR 0x0D)
     else if e = CHR ''t'' then Some (CHR 0x09)
     else None)"

text \<open>
  The body of a string literal, after its opening quotation mark, up to and including
  the closing one. \<open>None\<close> is a syntax error: an unterminated literal, a raw control
  character, or an escape that JSON does not have.
\<close>

fun parse_chars :: "string \<Rightarrow> (code_unit list \<times> string) option" where
  "parse_chars [] = None"
| "parse_chars (c # cs) =
    (if c = CHR 0x22 then Some ([], cs)
     else if c = CHR 0x5C then
       (case cs of
          [] \<Rightarrow> None
        | e # r \<Rightarrow>
            if e = CHR ''u'' then
              (case r of
                 a # b # c' # d # r' \<Rightarrow>
                   (case (hex_val a, hex_val b, hex_val c', hex_val d) of
                      (Some h3, Some h2, Some h1, Some h0) \<Rightarrow>
                        (case parse_chars r' of
                           None \<Rightarrow> None
                         | Some (us, rest) \<Rightarrow>
                             Some (Esc (4096 * h3 + 256 * h2 + 16 * h1 + h0) # us, rest))
                    | _ \<Rightarrow> None)
               | _ \<Rightarrow> None)
            else
              (case simple_escape e of
                 None \<Rightarrow> None
               | Some ch \<Rightarrow>
                   (case parse_chars r of
                      None \<Rightarrow> None
                    | Some (us, rest) \<Rightarrow> Some (Raw ch # us, rest))))
     else if (of_char c :: nat) < 32 then None
     else
       (case parse_chars cs of
          None \<Rightarrow> None
        | Some (us, rest) \<Rightarrow> Some (Raw c # us, rest)))"

text \<open>UTF-8 encoding of a code point.\<close>

definition utf8 :: "nat \<Rightarrow> string" where
  "utf8 n =
    (if n < 0x80 then [char_of n]
     else if n < 0x800 then [char_of (0xC0 + n div 64), char_of (0x80 + n mod 64)]
     else if n < 0x10000 then
       [char_of (0xE0 + n div 4096), char_of (0x80 + n div 64 mod 64), char_of (0x80 + n mod 64)]
     else
       [char_of (0xF0 + n div 262144), char_of (0x80 + n div 4096 mod 64),
        char_of (0x80 + n div 64 mod 64), char_of (0x80 + n mod 64)])"

definition is_high :: "nat \<Rightarrow> bool" where
  "is_high u \<longleftrightarrow> 0xD800 \<le> u \<and> u \<le> 0xDBFF"

definition is_low :: "nat \<Rightarrow> bool" where
  "is_low u \<longleftrightarrow> 0xDC00 \<le> u \<and> u \<le> 0xDFFF"

text \<open>
  The text a string literal denotes. Escaped code units are read as UTF-16: a high
  surrogate followed by a low one is one code point; an unpaired surrogate stays the
  code unit it is.
\<close>

fun utf8_of_units :: "code_unit list \<Rightarrow> string" where
  "utf8_of_units [] = []"
| "utf8_of_units (Raw c # us) = c # utf8_of_units us"
| "utf8_of_units (Esc h # Esc l # us) =
    (if is_high h \<and> is_low l then
       utf8 (0x10000 + (h - 0xD800) * 1024 + (l - 0xDC00)) @ utf8_of_units us
     else utf8 h @ utf8_of_units (Esc l # us))"
| "utf8_of_units (Esc h # us) = utf8 h @ utf8_of_units us"

text \<open>
  How the parser reads back a character that \<open>quote_char\<close> has written: the code unit of
  its \<open>\u\<close> escape when it was written as one, the character itself otherwise.
\<close>

definition unit_of_char :: "char \<Rightarrow> code_unit" where
  "unit_of_char c =
    (if (of_char c :: nat) < 32 \<and> c \<noteq> CHR 0x08 \<and> c \<noteq> CHR 0x0C \<and> c \<noteq> CHR 0x0A
        \<and> c \<noteq> CHR 0x0D \<and> c \<noteq> CHR 0x09
     then Esc (of_char c) else Raw c)"

text \<open>The optional fraction and exponent of a number.\<close>

definition parse_frac :: "string \<Rightarrow> (rat \<times> string) option" where
  "parse_frac cs =
    (case cs of
       [] \<Rightarrow> Some (0, [])
     | c # r \<Rightarrow>
         if c = CHR ''.'' then
           (let ds = takeWhile is_digit r in
            if ds = [] then None
            else Some (of_int (digits_val ds) / 10 ^ length ds, dropWhile is_digit r))
         else Some (0, cs))"

definition parse_sign :: "string \<Rightarrow> bool \<times> string" where
  "parse_sign cs =
    (case cs of
       [] \<Rightarrow> (False, [])
     | c # r \<Rightarrow>
         if c = CHR ''-'' then (True, r)
         else if c = CHR ''+'' then (False, r)
         else (False, cs))"

definition parse_exp :: "string \<Rightarrow> (int \<times> string) option" where
  "parse_exp cs =
    (case cs of
       [] \<Rightarrow> Some (0, [])
     | c # r \<Rightarrow>
         if c = CHR ''e'' \<or> c = CHR ''E'' then
           (let (neg, r1) = parse_sign r; ds = takeWhile is_digit r1 in
            if ds = [] then None
            else Some (if neg then - digits_val ds else digits_val ds,
                       dropWhile is_digit r1))
         else Some (0, cs))"

definition scale10 :: "rat \<Rightarrow> int \<Rightarrow> rat" where
  "scale10 q e = (if 0 \<le> e then q * 10 ^ nat e else q / 10 ^ nat (- e))"

text \<open>
  A number: an optional minus, an integer part without superfluous leading zero, an
  optional fraction and an optional exponent. The result is the exact value of the
  decimal; \<open>to_double\<close> below rounds it.
\<close>

definition parse_number :: "string \<Rightarrow> (jsnum \<times> string) option" where
  "parse_number cs =
    (let (neg, cs1) = (case cs of
                         [] \<Rightarrow> (False, [])
                       | c # r \<Rightarrow> if c = CHR ''-'' then (True, r) else (False, cs));
         ip = takeWhile is_digit cs1;
         cs2 = dropWhile is_digit cs1
     in if ip = [] \<or> (hd ip = CHR ''0'' \<and> tl ip \<noteq> []) then None
        else
          (case parse_frac cs2 of
             None \<Rightarrow> None
           | Some (fp, cs3) \<Rightarrow>
               (case parse_exp cs3 of
                  None \<Rightarrow> None
                | Some (e, cs4) \<Rightarrow>
                    Some (scale10 ((if neg then - 1 else 1) * (of_int (digits_val ip) + fp)) e,
                          cs4))))"

text \<open>
  The double nearest to a rational (round to nearest, ties to even), as \<open>JSON.parse\<close>
  reads a number. \<open>bit_length n\<close> is the number of binary digits of \<open>n\<close>, \<open>floor_log2 q\<close>
  the exponent \<open>e\<close> with \<open>2 ^ e \<le> q < 2 ^ (e + 1)\<close> for positive \<open>q\<close>. A double has 53
  significant bits down to the exponent \<open>-1022\<close> and is a multiple of \<open>2 ^ -1074\<close> below;
  a value that rounds to \<open>2 ^ 1024\<close> or beyond becomes an infinity.
\<close>

function bit_length :: "int \<Rightarrow> int" where
  "bit_length n = (if n \<le> 0 then 0 else 1 + bit_length (n div 2))"
  by pat_completeness auto

termination bit_length
  by (relation "measure nat") auto

declare bit_length.simps [simp del]

definition pow2 :: "int \<Rightarrow> rat" where
  "pow2 k = (if 0 \<le> k then 2 ^ nat k else 1 / 2 ^ nat (- k))"

definition floor_log2 :: "rat \<Rightarrow> int" where
  "floor_log2 q =
    (let d = bit_length (fst (quotient_of q)) - bit_length (snd (quotient_of q))
     in if pow2 d \<le> q then d else d - 1)"

definition round_half_even :: "rat \<Rightarrow> int" where
  "round_half_even m =
    (let f = \<lfloor>m\<rfloor>; r = m - of_int f in
     if r < 1 / 2 then f else if 1 / 2 < r then f + 1 else if even f then f else f + 1)"

definition to_double :: "rat \<Rightarrow> json" where
  "to_double q =
    (if q = 0 then JNumber 0
     else
       (let p = \<bar>q\<bar>;
            e = floor_log2 p;
            k = (if e < - 1022 then - 1074 else e - 52);
            v = of_int (round_half_even (p / pow2 k)) * pow2 k
        in if pow2 1024 \<le> v then JInfinity (0 < q)
           else JNumber (if q < 0 then - v else v)))"

text \<open>A member's name and the colon after it.\<close>

definition parse_key :: "string \<Rightarrow> (string \<times> string) option" where
  "parse_key cs =
    (case skip_ws cs of
       [] \<Rightarrow> None
     | q # r \<Rightarrow>
         if q \<noteq> CHR 0x22 then None
         else
           (case parse_chars r of
              None \<Rightarrow> None
            | Some (us, r1) \<Rightarrow>
                (case skip_ws r1 of
                   [] \<Rightarrow> None
                 | c # r2 \<Rightarrow> if c \<noteq> CHR '':'' then None else Some (utf8_of_units us, r2))))"

text \<open>
  A member in front of the members that follow it in the text. When the name occurs
  again further on, the later value is the one the object keeps.
\<close>

definition add_member :: "string \<Rightarrow> json \<Rightarrow> (string \<times> json) list \<Rightarrow> (string \<times> json) list" where
  "add_member k v kvs =
    (case map_of kvs k of
       None \<Rightarrow> (k, v) # kvs
     | Some v' \<Rightarrow> (k, v') # filter (\<lambda>kv. fst kv \<noteq> k) kvs)"

text \<open>
  The order in which JavaScript enumerates the properties of an object: the names that
  are array indices (the decimal numerals of the integers below \<open>2 ^ 32 - 1\<close>) in
  ascending order, then the other names in the order of their creation.
\<close>

definition is_array_index :: "string \<Rightarrow> bool" where
  "is_array_index k \<longleftrightarrow>
     k \<noteq> [] \<and> list_all is_digit k \<and> (hd k = CHR ''0'' \<longrightarrow> tl k = []) \<and> length k \<le> 10
     \<and> digits_val k < 4294967295"

definition own_properties :: "(string \<times> json) list \<Rightarrow> (string \<times> json) list" where
  "own_properties kvs =
    sort_key (\<lambda>kv. digits_val (fst kv)) (filter (\<lambda>kv. is_array_index (fst kv)) kvs)
    @ filter (\<lambda>kv. \<not> is_array_index (fst kv)) kvs"

text \<open>
  The recursive descent over values. The recursion is bounded by a fuel argument, each
  call using one unit; \<open>NoFuel\<close> is kept apart from \<open>Reject\<close> (a syntax error), and
  \<open>JSON_parse\<close> below supplies fuel that is shown never to run out.
\<close>

datatype 'a parsed = NoFuel | Reject | Accept 'a string

fun parse_value :: "nat \<Rightarrow> string \<Rightarrow> json parsed"
  and parse_elements :: "nat \<Rightarrow> string \<Rightarrow> json list parsed"
  and parse_members :: "nat \<Rightarrow> string \<Rightarrow> (string \<times> json) list parsed"
where
  "parse_value 0 cs = NoFuel"
| "parse_value (Suc n) cs =
    (case skip_ws cs of
       [] \<Rightarrow> Reject
     | c # r \<Rightarrow>
         if c = CHR ''['' then
           (case skip_ws r of
              [] \<Rightarrow> Reject
            | d # r' \<Rightarrow>
                if d = CHR '']'' then Accept (JArray []) r'
                else
                  (case parse_elements n (d # r') of
                     NoFuel \<Rightarrow> NoFuel
                   | Reject \<Rightarrow> Reject
                   | Accept vs rest \<Rightarrow> Accept (JArray vs) rest))
         else if c = CHR ''{'' then
           (case skip_ws r of
              [] \<Rightarrow> Reject
            | d # r' \<Rightarrow>
                if d = CHR ''}'' then Accept (JObject []) r'
                else
                  (case parse_members n (d # r') of
                     NoFuel \<Rightarrow> NoFuel
                   | Reject \<Rightarrow> Reject
                   | Accept kvs rest \<Rightarrow> Accept (JObject (own_properties kvs)) rest))
         else if c = CHR 0x22 then
           (case parse_chars r of
              None \<Rightarrow> Reject
            | Some (us, rest) \<Rightarrow> Accept (JString (utf8_of_units us)) rest)
         else if c = CHR ''-'' \<or> is_digit c then
           (case parse_number (c # r) of
              None \<Rightarrow> Reject
            | Some (q, rest) \<Rightarrow> Accept (to_double q) rest)
         else if take 4 (c # r) = ''true'' then Accept (JBool True) (drop 4 (c # r))
         else if take 5 (c # r) = ''false'' then Accept (JBool False) (drop 5 (c # r))
         else if take 4 (c # r) = ''null'' then Accept JNull (drop 4 (c # r))
         else Reject)"
| "parse_elements 0 cs = NoFuel"
| "parse_elements (Suc n) cs =
    (case parse_value n cs of
       NoFuel \<Rightarrow> NoFuel
     | Reject \<Rightarrow> Reject
     | Accept v r \<Rightarrow>
         (case skip_ws r of
            [] \<Rightarrow> Reject
          | c # r' \<Rightarrow>
              if c = CHR '']'' then Accept [v] r'
              else if c = CHR '','' then
                (case parse_elements n r' of
                   NoFuel \<Rightarrow> NoFuel
                 | Reject \<Rightarrow> Reject
                 | Accept vs rest \<Rightarrow> Accept (v # vs) rest)
              else Reject))"
| "parse_members 0 cs = NoFuel"
| "parse_members (Suc n) cs =
    (case parse_key cs of
       None \<Rightarrow> Reject
     | Some (k, r) \<Rightarrow>
         (case parse_value n r of
            NoFuel \<Rightarrow> NoFuel
          | Reject \<Rightarrow> Reject
          | Accept v r' \<Rightarrow>
              (case skip_ws r' of
                 [] \<Rightarrow> Reject
               | d # r'' \<Rightarrow>
                   if d = CHR ''}'' then Accept [(k, v)] r''
                   else if d = CHR '','' then
                     (case parse_members n r'' of
                        NoFuel \<Rightarrow> NoFuel
                      | Reject \<Rightarrow> Reject
                      | Accept kvs rest \<Rightarrow> Accept (add_member k v kvs) rest)
                   else Reject)))"

text \<open>
  \<open>JSON.parse(text)\<close>: one value, surrounded by optional white space, and nothing else;
  otherwise a \<open>SyntaxError\<close> is thrown.
\<close>

definition JSON_parse :: "string \<Rightarrow> js_error + json" where
  "JSON_parse text =
    (case parse_value (2 * length text + 1) text of
       Accept v rest \<Rightarrow> if skip_ws rest = [] then Inr v else Inl SyntaxError
     | Reject \<Rightarrow> Inl SyntaxError
     | NoFuel \<Rightarrow> Inl SyntaxError)"


subsection \<open>Reading parsed values\<close>

text \<open>
  \<open>v.k\<close> for a parsed value other than \<open>null\<close> and one of the names the handlers read
  (\<open>title\<close>, \<open>description\<close>, \<open>data\<close>, \<open>studentId\<close>, \<open>studentEmail\<close>): the member of an
  object, and \<open>undefined\<close> (\<open>None\<close>) on an object without it, an array or a primitive.
  Reading a property of \<open>null\<close> throws a \<open>TypeError\<close>; the callers test for it first.
\<close>

fun get_prop :: "json \<Rightarrow> string \<Rightarrow> json option" where
  "get_prop (JObject kvs) k = map_of kvs k"
| "get_prop _ k = None"

text \<open>JavaScript truthiness. A number is falsy when it is zero.\<close>

fun truthy :: "json \<Rightarrow> bool" where
  "truthy JNull = False"
| "truthy (JBool b) = b"
| "truthy (JNumber q) = (q \<noteq> 0)"
| "truthy (JInfinity b) = True"
| "truthy (JString s) = (s \<noteq> [])"
| "truthy (JArray vs) = True"
| "truthy (JObject kvs) = True"

text \<open>\<open>x || d\<close> on a value that may be \<open>undefined\<close>.\<close>

fun or_default :: "json option \<Rightarrow> json \<Rightarrow> json" where
  "or_default None d = d"
| "or_default (Some v) d = (if truthy v then v else d)"

text \<open>
  A value as \<open>res.json\<close> sends it: \<open>JSON.stringify\<close> writes an infinity as \<open>null\<close>. The
  handlers apply it to the values that \<open>JSON.parse\<close> has read; the other numbers of the
  responses are finite.
\<close>

fun sent :: "json \<Rightarrow> json" where
  "sent (JInfinity b) = JNull"
| "sent (JArray vs) = JArray (map sent vs)"
| "sent (JObject kvs) = JObject (map (\<lambda>(k, v). (k, sent v)) kvs)"
| "sent v = v"

text \<open>
  An object literal as \<open>res.json\<close> sends it: a property whose value is \<open>undefined\<close> is
  left out by \<open>JSON.stringify\<close>.
\<close>

definition js_object :: "(string \<times> json option) list \<Rightarrow> json" where
  "js_object kvs = JObject (List.map_filter (\<lambda>(k, v). map_option (Pair k) v) kvs)"

text \<open>Truthiness and use of the text and number fields of a request body.\<close>

fun truthy_text :: "string field \<Rightarrow> bool" where
  "truthy_text (Val s) = (s \<noteq> [])"
| "truthy_text _ = False"

fun truthy_num :: "jsnum field \<Rightarrow> bool" where
  "truthy_num (Val q) = (q \<noteq> 0)"
| "truthy_num _ = False"

text \<open>
  The value of a field that has passed its truthiness test; the other equations are
  never reached by the handlers.
\<close>

fun text_of :: "string field \<Rightarrow> string" where
  "text_of (Val s) = s"
| "text_of _ = []"

fun num_of :: "jsnum field \<Rightarrow> jsnum" where
  "num_of (Val q) = q"
| "num_of _ = 0"

text \<open>\<open>amenities || []\<close>: an array, even an empty one, is truthy.\<close>

fun amenities_or_empty :: "string list field \<Rightarrow> string list" where
  "amenities_or_empty (Val xs) = xs"
| "amenities_or_empty _ = []"

text \<open>\<open>JSON.stringify(amenities || [])\<close>, the text written to the \<open>amenities\<close> column.\<close>

definition encode_amenities :: "string list field \<Rightarrow> string" where
  "encode_amenities a = stringify_strings (amenities_or_empty a)"

text \<open>\<open>status || 'available'\<close>.\<close>

definition status_or_available :: "string field \<Rightarrow> string" where
  "status_or_available st = (if truthy_text st then text_of st else ''available'')"

text \<open>
  A bound statement parameter: \<open>undefined\<close> is left unbound by the driver, which SQLite
  reads as NULL, and \<open>null\<close> is bound as NULL.
\<close>

fun sql_param :: "'a field \<Rightarrow> 'a option" where
  "sql_param (Val x) = Some x"
| "sql_param _ = None"

section \<open>The database\<close>

text \<open>
  The two tables of the in-memory SQLite database, each as the list of its rows in
  rowid order, with the counter that \<open>AUTOINCREMENT\<close> keeps in \<open>sqlite_sequence\<close>
  (the largest rowid the table has ever held). Rowids are 64-bit in SQLite; the
  counter is not bounded here. The columns \<open>amenities\<close> and \<open>status\<close> may be NULL;
  \<open>created_at\<close> is the text of \<open>CURRENT_TIMESTAMP\<close> at the insert. A statement that
  fails changes nothing, the counter included.
\<close>

record submission_row =
  s_id :: int
  student_name :: string
  work_type :: string
  content :: string
  s_created_at :: string

record room_row =
  r_id :: int
  number :: string
  room_type :: string
  capacity :: jsnum
  price :: jsnum
  amenities :: "string option"
  status :: "string option"
  r_created_at :: string

record store =
  submissions :: "submission_row list"
  submissions_seq :: int
  rooms :: "room_row list"
  rooms_seq :: int

definition empty_store :: store where
  "empty_store = \<lparr>submissions = [], submissions_seq = 0, rooms = [], rooms_seq = 0\<rparr>"

datatype db_error = UniqueFailed string | NotNullFailed string

text \<open>\<open>err.message\<close> and \<open>err.code\<close> of the driver's error object.\<close>

fun db_message :: "db_error \<Rightarrow> string" where
  "db_message (UniqueFailed col) = ''SQLITE_CONSTRAINT: UNIQUE constraint failed: '' @ col"
| "db_message (NotNullFailed col) = ''SQLITE_CONSTRAINT: NOT NULL constraint failed: '' @ col"

definition db_code :: "db_error \<Rightarrow> string" where
  "db_code e = ''SQLITE_CONSTRAINT''"

text \<open>
  The rowid of an \<open>INTEGER PRIMARY KEY AUTOINCREMENT\<close> column: one more than the largest
  rowid that is or ever was in the table.
\<close>

definition next_rowid :: "int \<Rightarrow> int list \<Rightarrow> int" where
  "next_rowid seq ids = fold max ids seq + 1"

text \<open>
  \<open>INSERT INTO submissions (student_name, work_type, content) VALUES (?, ?, ?)\<close>, with
  \<open>now\<close> the value of \<open>CURRENT_TIMESTAMP\<close>. The result is \<open>this.lastID\<close> and the new
  database. The three columns are \<open>NOT NULL\<close> and are given text.
\<close>

definition insert_submission ::
    "string \<Rightarrow> string \<Rightarrow> string \<Rightarrow> string \<Rightarrow> store \<Rightarrow> db_error + int \<times> store" where
  "insert_submission now sn wt c s =
    (let i = next_rowid (submissions_seq s) (map s_id (submissions s)) in
     Inr (i, s\<lparr>submissions :=
                  submissions s @
                    [\<lparr>s_id = i, student_name = sn, work_type = wt, content = c,
                      s_created_at = now\<rparr>],
                submissions_seq := i\<rparr>))"

text \<open>
  \<open>SELECT * FROM submissions ORDER BY created_at DESC\<close>. The keys are time stamps of
  the form \<open>YYYY-MM-DD HH:MM:SS\<close>, compared as text. SQL leaves the order of rows with
  equal keys open; SQLite's sorter keeps them in the order of the table scan, which is
  the order of their insertion.
\<close>

definition select_submissions :: "store \<Rightarrow> submission_row list" where
  "select_submissions s = rev (sort_key s_created_at (rev (submissions s)))"

text \<open>\<open>SELECT * FROM submissions WHERE id = ?\<close> through \<open>db.get\<close>: the first row, if any.\<close>

definition select_submission :: "int \<Rightarrow> store \<Rightarrow> submission_row option" where
  "select_submission i s = find (\<lambda>r. s_id r = i) (submissions s)"

text \<open>
  \<open>INSERT INTO rooms (number, type, capacity, price, amenities, status)
  VALUES (?, ?, ?, ?, ?, ?)\<close>. \<open>number\<close> is \<open>UNIQUE\<close>: when a row holds the number the
  statement fails and changes nothing.
\<close>

definition insert_room ::
    "string \<Rightarrow> string \<Rightarrow> string \<Rightarrow> jsnum \<Rightarrow> jsnum \<Rightarrow> string \<Rightarrow> string \<Rightarrow> store
      \<Rightarrow> db_error + int \<times> store" where
  "insert_room now n t c p a st s =
    (if n \<in> set (map number (rooms s)) then Inl (UniqueFailed ''rooms.number'')
     else
       (let i = next_rowid (rooms_seq s) (map r_id (rooms s)) in
        Inr (i, s\<lparr>rooms :=
                     rooms s @
                       [\<lparr>r_id = i, number = n, room_type = t, capacity = c, price = p,
                         amenities = Some a, status = Some st, r_created_at = now\<rparr>],
                   rooms_seq := i\<rparr>)))"

text \<open>\<open>SELECT * FROM rooms ORDER BY number ASC\<close>: bytewise order of the text.\<close>

definition select_rooms :: "store \<Rightarrow> room_row list" where
  "select_rooms s = sort_key number (rooms s)"

text \<open>
  \<open>UPDATE rooms SET number = ?, type = ?, capacity = ?, price = ?, amenities = ?,
  status = ? WHERE id = ?\<close>. Without a matching row nothing is checked or changed. With
  one, a NULL for a \<open>NOT NULL\<close> column or a number that another row holds makes the
  statement fail and change nothing. The result is \<open>this.changes\<close> and the new database.
\<close>

definition update_room ::
    "int \<Rightarrow> string option \<Rightarrow> string option \<Rightarrow> jsnum option \<Rightarrow> jsnum option \<Rightarrow> string option
      \<Rightarrow> string option \<Rightarrow> store \<Rightarrow> db_error + nat \<times> store" where
  "update_room i n t c p a st s =
    (if \<not> list_ex (\<lambda>r. r_id r = i) (rooms s) then Inr (0, s)
     else
       (case (n, t, c, p) of
          (None, _, _, _) \<Rightarrow> Inl (NotNullFailed ''rooms.number'')
        | (Some n', None, _, _) \<Rightarrow> Inl (NotNullFailed ''rooms.type'')
        | (Some n', Some t', None, _) \<Rightarrow> Inl (NotNullFailed ''rooms.capacity'')
        | (Some n', Some t', Some c', None) \<Rightarrow> Inl (NotNullFailed ''rooms.price'')
        | (Some n', Some t', Some c', Some p') \<Rightarrow>
            if list_ex (\<lambda>r. r_id r \<noteq> i \<and> number r = n') (rooms s)
            then Inl (UniqueFailed ''rooms.number'')
            else
              Inr (length (filter (\<lambda>r. r_id r = i) (rooms s)),
                   s\<lparr>rooms :=
                       map (\<lambda>r. if r_id r = i
                                 then r\<lparr>number := n', room_type := t', capacity := c',
                                        price := p', amenities := a, status := st\<rparr>
                                 else r)
                         (rooms s)\<rparr>)))"

text \<open>\<open>DELETE FROM rooms WHERE id = ?\<close>, with \<open>this.changes\<close>.\<close>

definition delete_room :: "int \<Rightarrow> store \<Rightarrow> db_error + nat \<times> store" where
  "delete_room i s =
    Inr (length (filter (\<lambda>r. r_id r = i) (rooms s)),
         s\<lparr>rooms := filter (\<lambda>r. r_id r \<noteq> i) (rooms s)\<rparr>)"

text \<open>
  What the table definitions guarantee of any database: \<open>id\<close> is the primary key of each
  table and \<open>rooms.number\<close> is \<open>UNIQUE\<close>.
\<close>

definition schema_ok :: "store \<Rightarrow> bool" where
  "schema_ok s \<longleftrightarrow>
     distinct (map s_id (submissions s)) \<and> distinct (map r_id (rooms s)) \<and>
     distinct (map number (rooms s))"

subsection \<open>Start-up\<close>

definition sampleRooms :: "(string \<times> string \<times> jsnum \<times> jsnum \<times> string \<times> string) list" where
  "sampleRooms =
    [(''101'', ''Standard'', 2, 2500, stringify_strings [''WiFi'', ''AC'', ''TV''], ''available''),
     (''102'', ''Standard'', 2, 2500, stringify_strings [''WiFi'', ''AC'', ''TV''], ''occupied''),
     (''201'', ''Deluxe'', 3, 3500, stringify_strings [''WiFi'', ''AC'', ''TV'', ''Mini Bar''],
      ''available''),
     (''202'', ''Deluxe'', 3, 3500, stringify_strings [''WiFi'', ''AC'', ''TV'', ''Mini Bar''],
      ''maintenance''),
     (''301'', ''Suite'', 4, 5000,
      stringify_strings [''WiFi'', ''AC'', ''TV'', ''Mini Bar'', ''Balcony''], ''available'')]"

text \<open>
  One seeding \<open>db.run\<close>, which has no callback: a failure would go unnoticed.
  \<open>now\<close> is \<open>CURRENT_TIMESTAMP\<close> at that statement.
\<close>

definition seed_room ::
    "string \<Rightarrow> string \<times> string \<times> jsnum \<times> jsnum \<times> string \<times> string \<Rightarrow> store \<Rightarrow> store" where
  "seed_room now room s =
    (case room of (n, t, c, p, a, st) \<Rightarrow>
       (case insert_room now n t c p a st s of Inl e \<Rightarrow> s | Inr (i, s') \<Rightarrow> s'))"

text \<open>
  The database once \<open>db.serialize\<close> has run; \<open>clock k\<close> is \<open>CURRENT_TIMESTAMP\<close> at the
  \<open>k\<close>-th seeding statement.
\<close>

definition initial_store :: "(nat \<Rightarrow> string) \<Rightarrow> store" where
  "initial_store clock =
    fold (\<lambda>(k, room). seed_room (clock k) room) (enumerate 0 sampleRooms) empty_store"

section \<open>The request handlers\<close>

text \<open>
  What a handler reads from outside the request: \<open>CURRENT_TIMESTAMP\<close> as SQLite
  evaluates it for the handler's statement, \<open>new Date().toISOString()\<close> and
  \<open>process.uptime()\<close>.
\<close>

record env =
  db_now :: string
  js_now :: string
  uptime :: jsnum

text \<open>
  A handler either sends a response, with its status and JSON body, or throws inside the
  database callback, where nothing catches the exception and no response is sent.
\<close>

datatype outcome = Responded nat json | Threw js_error

text \<open>
  The destructured request bodies. The text fields hold text, the numeric ones numbers
  and \<open>amenities\<close> an array of text, or are missing or \<open>null\<close>.
\<close>

record submission_body =
  req_studentName :: "string field"
  req_workType :: "string field"
  req_content :: "string field"

record room_body =
  req_number :: "string field"
  req_type :: "string field"
  req_capacity :: "jsnum field"
  req_price :: "jsnum field"
  req_amenities :: "string list field"
  req_status :: "string field"

definition validWorkTypes :: "string list" where
  "validWorkTypes = [''room_request'', ''report'', ''financial_report'']"

text \<open>\<open>{ success: false, error: msg }\<close>.\<close>

definition failure :: "string \<Rightarrow> json" where
  "failure msg = JObject [(''success'', JBool False), (''error'', JString msg)]"

text \<open>The first error of a \<open>rows.map(...)\<close> callback ends the map.\<close>

fun map_throwing :: "('a \<Rightarrow> js_error + 'b) \<Rightarrow> 'a list \<Rightarrow> js_error + 'b list" where
  "map_throwing f [] = Inr []"
| "map_throwing f (x # xs) =
    (case f x of
       Inl e \<Rightarrow> Inl e
     | Inr y \<Rightarrow> (case map_throwing f xs of Inl e \<Rightarrow> Inl e | Inr ys \<Rightarrow> Inr (y # ys)))"

subsection \<open>The server with room management\<close>

text \<open>\<open>GET /\<close> and \<open>GET /health\<close>.\<close>

definition get_root :: "env \<Rightarrow> store \<Rightarrow> store \<times> outcome" where
  "get_root e s =
    (s, Responded 200
          (JObject
            [(''message'', JString ''Hotel Submission Backend API''),
             (''status'', JString ''Running''),
             (''version'', JString ''1.0.0''),
             (''endpoints'',
              JObject
                [(''health'', JString ''/health''),
                 (''submissions'', JString ''/api/submissions''),
                 (''rooms'', JString ''/api/rooms'')])]))"

definition get_health :: "env \<Rightarrow> store \<Rightarrow> store \<times> outcome" where
  "get_health e s =
    (s, Responded 200
          (JObject
            [(''status'', JString ''OK''),
             (''timestamp'', JString (js_now e)),
             (''uptime'', JNumber (uptime e))]))"

text \<open>The row transformation of \<open>GET /api/submissions\<close>.\<close>

definition transform_submission :: "submission_row \<Rightarrow> js_error + json" where
  "transform_submission row =
    (case JSON_parse (content row) of
       Inl e \<Rightarrow> Inl e
     | Inr v \<Rightarrow>
         if v = JNull then Inl TypeError
         else
           Inr (js_object
                 [(''id'', Some (JNumber (of_int (s_id row)))),
                  (''studentName'', Some (JString (student_name row))),
                  (''type'', Some (JString (work_type row))),
                  (''title'',
                   Some (sent (or_default (get_prop v ''title'') (JString ''Untitled'')))),
                  (''description'',
                   Some (sent (or_default (get_prop v ''description'') (JString [])))),
                  (''data'', Some (sent (or_default (get_prop v ''data'') (JObject [])))),
                  (''submittedAt'', Some (JString (s_created_at row))),
                  (''studentId'', map_option sent (get_prop v ''studentId'')),
                  (''studentEmail'', map_option sent (get_prop v ''studentEmail''))]))"

definition get_submissions :: "env \<Rightarrow> store \<Rightarrow> store \<times> outcome" where
  "get_submissions e s =
    (case map_throwing transform_submission (select_submissions s) of
       Inl x \<Rightarrow> (s, Threw x)
     | Inr transformed \<Rightarrow> (s, Responded 200 (JArray transformed)))"

text \<open>\<open>POST /api/submissions\<close>.\<close>

definition post_submission :: "env \<Rightarrow> submission_body \<Rightarrow> store \<Rightarrow> store \<times> outcome" where
  "post_submission e b s =
    (if \<not> truthy_text (req_studentName b) \<or> \<not> truthy_text (req_workType b)
        \<or> \<not> truthy_text (req_content b)
     then (s, Responded 400
                (failure ''Missing required fields: studentName, workType, content''))
     else if text_of (req_workType b) \<notin> set validWorkTypes
     then (s, Responded 400
                (failure (''Invalid work type: '' @ text_of (req_workType b)
                          @ ''. Valid types: '' @ join '', '' validWorkTypes)))
     else
       (case insert_submission (db_now e) (text_of (req_studentName b))
               (text_of (req_workType b)) (text_of (req_content b)) s of
          Inl err \<Rightarrow> (s, Responded 500 (failure (''Database error: '' @ db_message err)))
        | Inr (lastID, s') \<Rightarrow>
            (case JSON_parse (text_of (req_content b)) of
               Inl x \<Rightarrow> (s', Threw x)
             | Inr v \<Rightarrow>
                 (s', Responded 200
                        (JObject
                          [(''success'', JBool True),
                           (''data'',
                            JObject
                              [(''id'', JNumber (of_int lastID)),
                               (''studentName'', JString (text_of (req_studentName b))),
                               (''workType'', JString (text_of (req_workType b))),
                               (''content'', sent v),
                               (''submittedAt'', JString (js_now e))]),
                           (''message'', JString ''Submission saved successfully'')])))))"

text \<open>The row transformation of \<open>GET /api/rooms\<close>; a NULL column is \<open>null\<close>.\<close>

definition nullable :: "string option \<Rightarrow> json" where
  "nullable x = (case x of None \<Rightarrow> JNull | Some t \<Rightarrow> JString t)"

text \<open>\<open>JSON.parse(row.amenities || '[]')\<close>: NULL and the empty text are falsy.\<close>

definition parse_amenities :: "string option \<Rightarrow> js_error + json" where
  "parse_amenities a =
    JSON_parse (case a of None \<Rightarrow> ''[]'' | Some t \<Rightarrow> if t = [] then ''[]'' else t)"

definition transform_room :: "room_row \<Rightarrow> js_error + json" where
  "transform_room row =
    (case parse_amenities (amenities row) of
       Inl e \<Rightarrow> Inl e
     | Inr a \<Rightarrow>
         Inr (JObject
               [(''id'', JNumber (of_int (r_id row))),
                (''number'', JString (number row)),
                (''type'', JString (room_type row)),
                (''capacity'', JNumber (capacity row)),
                (''price'', JNumber (price row)),
                (''amenities'', sent a),
                (''status'', nullable (status row)),
                (''createdAt'', JString (r_created_at row))]))"

definition get_rooms :: "env \<Rightarrow> store \<Rightarrow> store \<times> outcome" where
  "get_rooms e s =
    (case map_throwing transform_room (select_rooms s) of
       Inl x \<Rightarrow> (s, Threw x)
     | Inr transformed \<Rightarrow> (s, Responded 200 (JArray transformed)))"

text \<open>\<open>POST /api/rooms\<close>.\<close>

definition post_room :: "env \<Rightarrow> room_body \<Rightarrow> store \<Rightarrow> store \<times> outcome" where
  "post_room e b s =
    (if \<not> truthy_text (req_number b) \<or> \<not> truthy_text (req_type b)
        \<or> \<not> truthy_num (req_capacity b) \<or> \<not> truthy_num (req_price b)
     then (s, Responded 400
                (failure ''Missing required fields: number, type, capacity, price''))
     else
       (case insert_room (db_now e) (text_of (req_number b)) (text_of (req_type b))
               (num_of (req_capacity b)) (num_of (req_price b))
               (encode_amenities (req_amenities b))
               (status_or_available (req_status b)) s of
          Inl err \<Rightarrow> (s, Responded 500 (failure (''Database error: '' @ db_message err)))
        | Inr (lastID, s') \<Rightarrow>
            (s', Responded 200
                   (JObject
                     [(''success'', JBool True),
                      (''data'',
                       JObject
                         [(''id'', JNumber (of_int lastID)),
                          (''number'', JString (text_of (req_number b))),
                          (''type'', JString (text_of (req_type b))),
                          (''capacity'', JNumber (num_of (req_capacity b))),
                          (''price'', JNumber (num_of (req_price b))),
                          (''amenities'',
                           JArray (map JString (amenities_or_empty (req_amenities b)))),
                          (''status'', JString (status_or_available (req_status b))),
                          (''createdAt'', JString (js_now e))]),
                      (''message'', JString ''Room created successfully'')]))))"

text \<open>
  \<open>PUT /api/rooms/:id\<close>. The path segment reaches SQLite as text and is compared with
  the integer column \<open>id\<close>; \<open>roomId\<close> is the integer it denotes.
\<close>

definition put_room :: "env \<Rightarrow> int \<Rightarrow> room_body \<Rightarrow> store \<Rightarrow> store \<times> outcome" where
  "put_room e roomId b s =
    (case update_room roomId (sql_param (req_number b)) (sql_param (req_type b))
            (sql_param (req_capacity b)) (sql_param (req_price b))
            (Some (encode_amenities (req_amenities b)))
            (sql_param (req_status b)) s of
       Inl err \<Rightarrow> (s, Responded 500 (failure (''Database error: '' @ db_message err)))
     | Inr (changes, s') \<Rightarrow>
         if changes = 0 then (s', Responded 404 (failure ''Room not found''))
         else (s', Responded 200
                     (JObject
                       [(''success'', JBool True),
                        (''message'', JString ''Room updated successfully'')])))"

text \<open>\<open>DELETE /api/rooms/:id\<close>.\<close>

definition delete_room_handler :: "env \<Rightarrow> int \<Rightarrow> store \<Rightarrow> store \<times> outcome" where
  "delete_room_handler e roomId s =
    (case delete_room roomId s of
       Inl err \<Rightarrow> (s, Responded 500 (failure (''Database error: '' @ db_message err)))
     | Inr (changes, s') \<Rightarrow>
         if changes = 0 then (s', Responded 404 (failure ''Room not found''))
         else (s', Responded 200
                     (JObject
                       [(''success'', JBool True),
                        (''message'', JString ''Room deleted successfully'')])))"

text \<open>
  The requests the server distinguishes. \<open>Malformed\<close> is a request whose body
  \<open>express.json()\<close> cannot parse, which goes to the error handling middleware;
  \<open>Unrouted\<close> is any other method and path, which goes to the 404 handler.
\<close>

datatype request =
    GetRoot
  | GetHealth
  | GetSubmissions
  | PostSubmission submission_body
  | GetRooms
  | PostRoom room_body
  | PutRoom int room_body
  | DeleteRoom int
  | Malformed
  | Unrouted

fun handle :: "env \<Rightarrow> request \<Rightarrow> store \<Rightarrow> store \<times> outcome" where
  "handle e GetRoot s = get_root e s"
| "handle e GetHealth s = get_health e s"
| "handle e GetSubmissions s = get_submissions e s"
| "handle e (PostSubmission b) s = post_submission e b s"
| "handle e GetRooms s = get_rooms e s"
| "handle e (PostRoom b) s = post_room e b s"
| "handle e (PutRoom roomId b) s = put_room e roomId b s"
| "handle e (DeleteRoom roomId) s = delete_room_handler e roomId s"
| "handle e Malformed s = (s, Responded 500 (failure ''Internal server error''))"
| "handle e Unrouted s = (s, Responded 404 (failure ''Endpoint not found''))"

subsection \<open>The server with the detailed error reports\<close>

text \<open>A row as the driver hands it over: an object with the column names.\<close>

definition submission_object :: "submission_row \<Rightarrow> json" where
  "submission_object row =
    JObject
      [(''id'', JNumber (of_int (s_id row))),
       (''student_name'', JString (student_name row)),
       (''work_type'', JString (work_type row)),
       (''content'', JString (content row)),
       (''created_at'', JString (s_created_at row))]"

text \<open>\<open>GET /api/submissions\<close>: the rows as they are, in an envelope.\<close>

definition get_submissions_v1 :: "env \<Rightarrow> store \<Rightarrow> store \<times> outcome" where
  "get_submissions_v1 e s =
    (s, Responded 200
          (JObject
            [(''success'', JBool True),
             (''data'', JArray (map submission_object (select_submissions s))),
             (''count'', JNumber (of_nat (length (select_submissions s))))]))"

text \<open>
  \<open>POST /api/submissions\<close>: the report on missing fields tells which were received, and
  the created row is read back with \<open>db.get\<close> and sent as it is.
\<close>

definition post_submission_v1 :: "env \<Rightarrow> submission_body \<Rightarrow> store \<Rightarrow> store \<times> outcome" where
  "post_submission_v1 e b s =
    (if \<not> truthy_text (req_studentName b) \<or> \<not> truthy_text (req_workType b)
        \<or> \<not> truthy_text (req_content b)
     then (s, Responded 400
                (JObject
                  [(''success'', JBool False),
                   (''error'', JString ''Missing required fields: studentName, workType, content''),
                   (''received'',
                    JObject
                      [(''studentName'', JBool (truthy_text (req_studentName b))),
                       (''workType'', JBool (truthy_text (req_workType b))),
                       (''content'', JBool (truthy_text (req_content b)))])]))
     else if text_of (req_workType b) \<notin> set validWorkTypes
     then (s, Responded 400
                (failure (''Invalid work type: '' @ text_of (req_workType b)
                          @ ''. Valid types: '' @ join '', '' validWorkTypes)))
     else
       (case insert_submission (db_now e) (text_of (req_studentName b))
               (text_of (req_workType b)) (text_of (req_content b)) s of
          Inl err \<Rightarrow>
            (s, Responded 500
                  (JObject
                    [(''success'', JBool False),
                     (''error'', JString (''Database error: '' @ db_message err)),
                     (''code'', JString (db_code err))]))
        | Inr (lastID, s') \<Rightarrow>
            (s', Responded 201
                   (js_object
                     [(''success'', Some (JBool True)),
                      (''data'', map_option submission_object (select_submission lastID s'))]))))"

text \<open>\<open>{ ...room, amenities: JSON.parse(room.amenities || '[]') }\<close>.\<close>

definition room_object_v1 :: "room_row \<Rightarrow> js_error + json" where
  "room_object_v1 row =
    (case parse_amenities (amenities row) of
       Inl e \<Rightarrow> Inl e
     | Inr a \<Rightarrow>
         Inr (JObject
               [(''id'', JNumber (of_int (r_id row))),
                (''number'', JString (number row)),
                (''type'', JString (room_type row)),
                (''capacity'', JNumber (capacity row)),
                (''price'', JNumber (price row)),
                (''amenities'', sent a),
                (''status'', nullable (status row)),
                (''created_at'', JString (r_created_at row))]))"

text \<open>\<open>GET /api/rooms\<close>.\<close>

definition get_rooms_v1 :: "env \<Rightarrow> store \<Rightarrow> store \<times> outcome" where
  "get_rooms_v1 e s =
    (case map_throwing room_object_v1 (select_rooms s) of
       Inl x \<Rightarrow> (s, Threw x)
     | Inr parsed \<Rightarrow>
         (s, Responded 200
               (JObject
                 [(''success'', JBool True),
                  (''data'', JArray parsed),
                  (''count'', JNumber (of_nat (length (select_rooms s))))])))"

section \<open>Observations on responses\<close>

text \<open>A body that is an object with a boolean \<open>success\<close>, and one with a text \<open>error\<close>.\<close>

definition has_success :: "json \<Rightarrow> bool" where
  "has_success body =
    (case body of
       JObject kvs \<Rightarrow> (case map_of kvs ''success'' of Some (JBool b) \<Rightarrow> True | _ \<Rightarrow> False)
     | _ \<Rightarrow> False)"

definition has_error_text :: "json \<Rightarrow> bool" where
  "has_error_text body =
    (case body of
       JObject kvs \<Rightarrow> (case map_of kvs ''error'' of Some (JString t) \<Rightarrow> True | _ \<Rightarrow> False)
     | _ \<Rightarrow> False)"

text \<open>The required fields of a submission that a request lacks.\<close>

definition absent_fields :: "submission_body \<Rightarrow> string list" where
  "absent_fields b =
    map fst (filter (\<lambda>(name, f). \<not> truthy_text f)
      [(''studentName'', req_studentName b), (''workType'', req_workType b),
       (''content'', req_content b)])"

text \<open>The names an error text lists after its colon, separated by a comma and a space.\<close>

fun split_names :: "string \<Rightarrow> string \<Rightarrow> string list" where
  "split_names acc [] = [rev acc]"
| "split_names acc [c] = [rev (c # acc)]"
| "split_names acc (c # d # cs) =
    (if c = CHR '','' \<and> d = CHR '' '' then rev acc # split_names [] cs
     else split_names (c # acc) (d # cs))"

definition names_in_error :: "json \<Rightarrow> string list" where
  "names_in_error body =
    (case body of
       JObject kvs \<Rightarrow>
         (case map_of kvs ''error'' of
            Some (JString t) \<Rightarrow> split_names [] (drop 2 (dropWhile (\<lambda>c. c \<noteq> CHR '':'') t))
          | _ \<Rightarrow> [])
     | _ \<Rightarrow> [])"

text \<open>
  An error text that ends with the list of the legal work types, as the text of the
  work type check does.
\<close>

definition enumerates_valid_types :: "json \<Rightarrow> bool" where
  "enumerates_valid_types body =
    (case body of
       JObject kvs \<Rightarrow>
         (case map_of kvs ''error'' of
            Some (JString t) \<Rightarrow>
              drop (length t - length (''Valid types: '' @ join '', '' validWorkTypes)) t
                = ''Valid types: '' @ join '', '' validWorkTypes
          | _ \<Rightarrow> False)
     | _ \<Rightarrow> False)"

text \<open>
  The stored record as an object: with the column names of the table, as the driver
  hands a row over, or with the field names that the responses use.
\<close>

definition stored_record_objects :: "submission_row \<Rightarrow> json list" where
  "stored_record_objects row =
    [submission_object row,
     JObject
       [(''id'', JNumber (of_int (s_id row))),
        (''studentName'', JString (student_name row)),
        (''workType'', JString (work_type row)),
        (''content'', JString (content row)),
        (''submittedAt'', JString (s_created_at row))]]"

text \<open>
  The response of the handler to a created submission is the stored record when its
  \<open>data\<close> is, under either naming, a row that the table now holds.
\<close>

definition returns_stored_record :: "store \<times> outcome \<Rightarrow> bool" where
  "returns_stored_record result =
    (case result of
       (s', Responded code (JObject kvs)) \<Rightarrow>
         (case map_of kvs ''data'' of
            Some d \<Rightarrow> list_ex (\<lambda>row. d \<in> set (stored_record_objects row)) (submissions s')
          | None \<Rightarrow> False)
     | _ \<Rightarrow> False)"

section \<open>Invariants of the database\<close>

text \<open>Every \<open>amenities\<close> column holds NULL or text that \<open>JSON.parse\<close> accepts.\<close>

definition amenities_ok :: "store \<Rightarrow> bool" where
  "amenities_ok s = list_all (\<lambda>r. \<not> isl (parse_amenities (amenities r))) (rooms s)"

section \<open>Example requests\<close>

definition clock0 :: "nat \<Rightarrow> string" where
  "clock0 k = ''2025-01-01 00:00:00''"

definition env0 :: env where
  "env0 = \<lparr>db_now = ''2025-01-01 00:00:05'', js_now = ''2025-01-01T00:00:05.000Z'',
            uptime = 5\<rparr>"

definition jane :: submission_body where
  \<open>jane = \<lparr>req_studentName = Val ''Jane'', req_workType = Val ''room_request'',
            req_content = Val ''{"title":"Need AC"}''\<rparr>\<close>

definition jane_plain :: submission_body where
  "jane_plain = \<lparr>req_studentName = Val ''Jane'', req_workType = Val ''report'',
                  req_content = Val ''hello''\<rparr>"

definition jane_null :: submission_body where
  "jane_null = \<lparr>req_studentName = Val ''Jane'', req_workType = Val ''report'',
                 req_content = Val ''null''\<rparr>"

definition jane_huge :: submission_body where
  "jane_huge = \<lparr>req_studentName = Val ''Jane'', req_workType = Val ''report'',
                 req_content = Val ''1e400''\<rparr>"

definition bogus :: submission_body where
  "bogus = \<lparr>req_studentName = Val ''Jane'', req_workType = Val ''bogus'',
             req_content = Val ''{}''\<rparr>"

definition bogus_unnamed :: submission_body where
  "bogus_unnamed = \<lparr>req_studentName = Undefined, req_workType = Val ''bogus'',
                     req_content = Val ''{}''\<rparr>"

definition no_content :: submission_body where
  "no_content = \<lparr>req_studentName = Val ''Jane'', req_workType = Val ''report'',
                  req_content = Undefined\<rparr>"

definition room101 :: room_body where
  "room101 = \<lparr>req_number = Val ''101'', req_type = Val ''Standard'', req_capacity = Val 2,
               req_price = Val 2500, req_amenities = Undefined, req_status = Undefined\<rparr>"

definition room101_free :: room_body where
  "room101_free = \<lparr>req_number = Val ''101'', req_type = Val ''Standard'', req_capacity = Val 2,
                    req_price = Val 0, req_amenities = Undefined, req_status = Undefined\<rparr>"

definition room101_bare :: room_body where
  "room101_bare = \<lparr>req_number = Val ''101'', req_type = Undefined, req_capacity = Undefined,
                    req_price = Undefined, req_amenities = Undefined, req_status = Undefined\<rparr>"

section \<open>The parser\<close>

subsection \<open>What is left of the text is shorter\<close>

lemma length_skip_ws: "length (skip_ws cs) \<le> length cs"
  by (simp add: skip_ws_def length_dropWhile_le)

lemma skip_ws_Cons_length: "skip_ws cs = c # r \<Longrightarrow> length r < length cs"
  using length_skip_ws [of cs] by simp

lemma parse_chars_length: "parse_chars cs = Some (us, r) \<Longrightarrow> length r < length cs"
proof (induction cs arbitrary: us r rule: length_induct)
  case (1 cs)
  have ih: "\<And>ys us r. length ys < length cs \<Longrightarrow> parse_chars ys = Some (us, r) \<Longrightarrow> length r < length ys"
    using "1.IH" by blast
  show ?case
  proof (cases cs)
    case Nil
    with "1.prems" show ?thesis by simp
  next
    case (Cons c cs')
    from "1.prems" show ?thesis
      unfolding Cons
      by (auto split: if_splits list.splits option.splits
          simp del: parse_chars.simps simp add: parse_chars.simps(2) [of c cs']
          dest!: ih [unfolded Cons, rotated])
  qed
qed

lemma parse_frac_length: "parse_frac cs = Some (q, r) \<Longrightarrow> length r \<le> length cs"
  by (auto simp: parse_frac_def Let_def split: list.splits if_splits
      intro: le_SucI length_dropWhile_le)

lemma parse_sign_length: "parse_sign cs = (b, r) \<Longrightarrow> length r \<le> length cs"
  by (auto simp: parse_sign_def split: list.splits if_splits)

lemma parse_exp_length: "parse_exp cs = Some (e, r) \<Longrightarrow> length r \<le> length cs"
proof -
  assume a: "parse_exp cs = Some (e, r)"
  show ?thesis
  proof (cases cs)
    case Nil
    with a show ?thesis by (simp add: parse_exp_def)
  next
    case (Cons c cs')
    show ?thesis
    proof (cases "c = CHR ''e'' \<or> c = CHR ''E''")
      case False
      with a Cons show ?thesis by (auto simp: parse_exp_def)
    next
      case True
      obtain neg r1 where s: "parse_sign cs' = (neg, r1)" by (cases "parse_sign cs'")
      have "r = dropWhile is_digit r1"
        using a Cons True s by (auto simp: parse_exp_def Let_def split: if_splits)
      then have "length r \<le> length r1" by (simp add: length_dropWhile_le)
      with parse_sign_length [OF s] Cons show ?thesis by simp
    qed
  qed
qed

lemma parse_number_length: "parse_number cs = Some (q, r) \<Longrightarrow> length r < length cs"
proof -
  assume a: "parse_number cs = Some (q, r)"
  define cs1 where "cs1 = (case cs of [] \<Rightarrow> [] | c # t \<Rightarrow> if c = CHR ''-'' then t else cs)"
  have l1: "length cs1 \<le> length cs"
    by (auto simp: cs1_def split: list.splits)
  have sp: "(case cs of [] \<Rightarrow> (False, []) | c # t \<Rightarrow> if c = CHR ''-'' then (True, t) else (False, cs))
      = (cs \<noteq> [] \<and> hd cs = CHR ''-'', cs1)"
    by (auto simp: cs1_def split: list.splits)
  from a have ne: "takeWhile is_digit cs1 \<noteq> []"
    unfolding parse_number_def sp by (auto simp: Let_def split: if_splits)
  from a obtain fp cs3 e where f: "parse_frac (dropWhile is_digit cs1) = Some (fp, cs3)"
    and x: "parse_exp cs3 = Some (e, r)"
    unfolding parse_number_def sp
    by (auto simp: Let_def split: if_splits option.splits)
  have "length (dropWhile is_digit cs1) < length cs1"
    using ne by (metis length_append length_greater_0_conv less_add_same_cancel2 takeWhile_dropWhile_id)
  with parse_frac_length [OF f] parse_exp_length [OF x] l1 show ?thesis by simp
qed

lemma parse_value_Suc_length:
  assumes ih_e: "\<And>cs vs r. parse_elements n cs = Accept vs r \<Longrightarrow> length r < length cs"
    and ih_m: "\<And>cs kvs r. parse_members n cs = Accept kvs r \<Longrightarrow> length r < length cs"
    and a: "parse_value (Suc n) cs = Accept v r"
  shows "length r < length cs"
proof (cases "skip_ws cs")
  case Nil
  with a show ?thesis by simp
next
  case (Cons c t)
  have t: "length t < length cs" using skip_ws_Cons_length [OF Cons] .
  show ?thesis
  proof (cases "skip_ws t")
    case Nil
    with a Cons t show ?thesis
      by (auto split: if_splits option.splits dest!: parse_chars_length parse_number_length)
  next
    case (Cons d t')
    have t': "length t' < length t" using skip_ws_Cons_length [OF Cons] .
    from a \<open>skip_ws cs = c # t\<close> Cons t t' show ?thesis
      by (auto split: if_splits option.splits parsed.splits
          dest!: parse_chars_length parse_number_length ih_e ih_m)
  qed
qed

lemma parse_elements_Suc_length:
  assumes ih_v: "\<And>cs v r. parse_value n cs = Accept v r \<Longrightarrow> length r < length cs"
    and ih_e: "\<And>cs vs r. parse_elements n cs = Accept vs r \<Longrightarrow> length r < length cs"
    and a: "parse_elements (Suc n) cs = Accept vs r"
  shows "length r < length cs"
proof -
  from a obtain v r1 where v: "parse_value n cs = Accept v r1"
    by (auto split: parsed.splits)
  from a v obtain c r2 where s: "skip_ws r1 = c # r2"
    by (auto split: list.splits)
  have l: "length r2 < length cs"
    using ih_v [OF v] skip_ws_Cons_length [OF s] by simp
  from a v s l show ?thesis
    by (auto split: if_splits parsed.splits dest!: ih_e)
qed

lemma parse_key_length: "parse_key cs = Some (k, r) \<Longrightarrow> length r < length cs"
proof -
  assume a: "parse_key cs = Some (k, r)"
  from a obtain q r0 where s0: "skip_ws cs = q # r0"
    by (auto simp: parse_key_def split: list.splits)
  from a s0 obtain us r1 where c: "parse_chars r0 = Some (us, r1)"
    by (auto simp: parse_key_def split: if_splits option.splits)
  from a s0 c obtain d where s1: "skip_ws r1 = d # r"
    by (auto simp: parse_key_def split: if_splits list.splits)
  show ?thesis
    using skip_ws_Cons_length [OF s0] parse_chars_length [OF c] skip_ws_Cons_length [OF s1]
    by simp
qed

lemma parse_members_Suc_length:
  assumes ih_v: "\<And>cs v r. parse_value n cs = Accept v r \<Longrightarrow> length r < length cs"
    and ih_m: "\<And>cs kvs r. parse_members n cs = Accept kvs r \<Longrightarrow> length r < length cs"
    and a: "parse_members (Suc n) cs = Accept kvs r"
  shows "length r < length cs"
proof -
  from a obtain k r0 where k: "parse_key cs = Some (k, r0)"
    by (auto split: option.splits)
  from a k obtain v r1 where v: "parse_value n r0 = Accept v r1"
    by (auto split: parsed.splits)
  from a k v obtain c r2 where s: "skip_ws r1 = c # r2"
    by (auto split: list.splits)
  have l: "length r2 < length cs"
    using parse_key_length [OF k] ih_v [OF v] skip_ws_Cons_length [OF s] by simp
  from a k v s l show ?thesis
    by (auto split: if_splits parsed.splits dest!: ih_m)
qed

lemma parse_length:
  "(\<forall>cs v r. parse_value n cs = Accept v r \<longrightarrow> length r < length cs) \<and>
   (\<forall>cs vs r. parse_elements n cs = Accept vs r \<longrightarrow> length r < length cs) \<and>
   (\<forall>cs kvs r. parse_members n cs = Accept kvs r \<longrightarrow> length r < length cs)"
proof (induction n)
  case 0
  show ?case by simp
next
  case (Suc n)
  then have v: "\<And>cs v r. parse_value n cs = Accept v r \<Longrightarrow> length r < length cs"
    and e: "\<And>cs vs r. parse_elements n cs = Accept vs r \<Longrightarrow> length r < length cs"
    and m: "\<And>cs kvs r. parse_members n cs = Accept kvs r \<Longrightarrow> length r < length cs"
    by blast+
  show ?case
  proof (intro conjI allI impI)
    fix cs w r
    assume "parse_value (Suc n) cs = Accept w r"
    with e m show "length r < length cs" by (rule parse_value_Suc_length)
  next
    fix cs ws r
    assume "parse_elements (Suc n) cs = Accept ws r"
    with v e show "length r < length cs" by (rule parse_elements_Suc_length)
  next
    fix cs kvs r
    assume "parse_members (Suc n) cs = Accept kvs r"
    with v m show "length r < length cs" by (rule parse_members_Suc_length)
  qed
qed

lemma parse_value_length: "parse_value n cs = Accept v r \<Longrightarrow> length r < length cs"
  using parse_length by blast

subsection \<open>The fuel of \<open>JSON_parse\<close> does not run out\<close>

lemma parse_value_fuel_step:
  assumes ih_e: "\<And>cs. 2 * length cs + 1 < n \<Longrightarrow> parse_elements n cs \<noteq> NoFuel"
    and ih_m: "\<And>cs. 2 * length cs + 1 < n \<Longrightarrow> parse_members n cs \<noteq> NoFuel"
    and b: "2 * length cs < Suc n"
  shows "parse_value (Suc n) cs \<noteq> NoFuel"
proof
  assume a: "parse_value (Suc n) cs = NoFuel"
  from a obtain c t where s0: "skip_ws cs = c # t"
    by (auto split: list.splits)
  have t: "length t < length cs" using skip_ws_Cons_length [OF s0] .
  from a s0 obtain d t' where s1: "skip_ws t = d # t'"
    by (auto split: list.splits if_splits option.splits)
  have "length t' < length t" using skip_ws_Cons_length [OF s1] .
  with t b have "2 * length (d # t') + 1 < n" by simp
  then have "parse_elements n (d # t') \<noteq> NoFuel" "parse_members n (d # t') \<noteq> NoFuel"
    using ih_e ih_m by blast+
  with a s0 s1 show False
    by (auto split: if_splits option.splits parsed.splits)
qed

lemma parse_elements_fuel_step:
  assumes ih_v: "\<And>cs. 2 * length cs < n \<Longrightarrow> parse_value n cs \<noteq> NoFuel"
    and ih_e: "\<And>cs. 2 * length cs + 1 < n \<Longrightarrow> parse_elements n cs \<noteq> NoFuel"
    and b: "2 * length cs + 1 < Suc n"
  shows "parse_elements (Suc n) cs \<noteq> NoFuel"
proof (cases "parse_value n cs")
  case NoFuel
  with ih_v [of cs] b show ?thesis by simp
next
  case Reject
  then show ?thesis by simp
next
  case (Accept v r1)
  show ?thesis
  proof (cases "skip_ws r1")
    case Nil
    with Accept show ?thesis by simp
  next
    case (Cons c r2)
    have "length r2 < length r1" using skip_ws_Cons_length [OF Cons] .
    with parse_value_length [OF Accept] b have "2 * length r2 + 1 < n" by simp
    then have "parse_elements n r2 \<noteq> NoFuel" by (rule ih_e)
    with Accept Cons show ?thesis
      by (auto split: parsed.splits)
  qed
qed

lemma parse_members_fuel_step:
  assumes ih_v: "\<And>cs. 2 * length cs < n \<Longrightarrow> parse_value n cs \<noteq> NoFuel"
    and ih_m: "\<And>cs. 2 * length cs + 1 < n \<Longrightarrow> parse_members n cs \<noteq> NoFuel"
    and b: "2 * length cs + 1 < Suc n"
  shows "parse_members (Suc n) cs \<noteq> NoFuel"
proof (cases "parse_key cs")
  case None
  then show ?thesis by simp
next
  case (Some kr)
  obtain k r0 where kr: "kr = (k, r0)" by (cases kr)
  have l0: "length r0 < length cs" using parse_key_length Some kr by blast
  show ?thesis
  proof (cases "parse_value n r0")
    case NoFuel
    with ih_v [of r0] b l0 show ?thesis by simp
  next
    case Reject
    with Some kr show ?thesis by simp
  next
    case (Accept v r1)
    show ?thesis
    proof (cases "skip_ws r1")
      case Nil
      with Some kr Accept show ?thesis by simp
    next
      case (Cons c r2)
      have "length r2 < length r1" using skip_ws_Cons_length [OF Cons] .
      with parse_value_length [OF Accept] b l0 have "2 * length r2 + 1 < n" by simp
      then have "parse_members n r2 \<noteq> NoFuel" by (rule ih_m)
      with Some kr Accept Cons show ?thesis
        by (auto split: parsed.splits)
    qed
  qed
qed

lemma parse_fuel:
  "(\<forall>cs. 2 * length cs < n \<longrightarrow> parse_value n cs \<noteq> NoFuel) \<and>
   (\<forall>cs. 2 * length cs + 1 < n \<longrightarrow> parse_elements n cs \<noteq> NoFuel) \<and>
   (\<forall>cs. 2 * length cs + 1 < n \<longrightarrow> parse_members n cs \<noteq> NoFuel)"
proof (induction n)
  case 0
  show ?case by simp
next
  case (Suc n)
  then have v: "\<And>cs. 2 * length cs < n \<Longrightarrow> parse_value n cs \<noteq> NoFuel"
    and e: "\<And>cs. 2 * length cs + 1 < n \<Longrightarrow> parse_elements n cs \<noteq> NoFuel"
    and m: "\<And>cs. 2 * length cs + 1 < n \<Longrightarrow> parse_members n cs \<noteq> NoFuel"
    by blast+
  show ?case
  proof (intro conjI allI impI)
    fix cs :: string
    assume "2 * length cs < Suc n"
    with e m show "parse_value (Suc n) cs \<noteq> NoFuel" by (rule parse_value_fuel_step)
  next
    fix cs :: string
    assume "2 * length cs + 1 < Suc n"
    with v e show "parse_elements (Suc n) cs \<noteq> NoFuel" by (rule parse_elements_fuel_step)
  next
    fix cs :: string
    assume "2 * length cs + 1 < Suc n"
    with v m show "parse_members (Suc n) cs \<noteq> NoFuel" by (rule parse_members_fuel_step)
  qed
qed

text \<open>So the \<open>NoFuel\<close> case of \<open>JSON_parse\<close> is never taken.\<close>

lemma JSON_parse_fuel: "parse_value (2 * length text + 1) text \<noteq> NoFuel"
  using parse_fuel [of "2 * length text + 1"] by simp

lemma JSON_parse_error: "JSON_parse t = Inl x \<Longrightarrow> x = SyntaxError"
  by (auto simp: JSON_parse_def split: parsed.splits if_splits)

subsection \<open>Reading back what \<open>JSON.stringify\<close> has written\<close>

lemma hex_val_hex_digit: "n < 16 \<Longrightarrow> hex_val (hex_digit n) = Some n"
  by (simp add: hex_val_def hex_digit_def Let_def)

lemma utf8_of_units_Esc_small:
  "h < 128 \<Longrightarrow> utf8_of_units (Esc h # us) = char_of h # utf8_of_units us"
proof (cases us)
  case Nil
  assume "h < 128"
  with Nil show ?thesis by (simp add: is_high_def is_low_def utf8_def)
next
  case (Cons u us')
  assume "h < 128"
  with Cons show ?thesis
    by (cases u) (simp_all add: is_high_def is_low_def utf8_def)
qed

lemma utf8_of_units_unit_of_char:
  "utf8_of_units (unit_of_char c # us) = c # utf8_of_units us"
proof (cases "\<exists>h. unit_of_char c = Esc h")
  case True
  then have lt: "(of_char c :: nat) < 32" and eq: "unit_of_char c = Esc (of_char c)"
    by (auto simp: unit_of_char_def split: if_splits)
  from lt have "(of_char c :: nat) < 128" by simp
  then show ?thesis
    unfolding eq by (simp add: utf8_of_units_Esc_small)
next
  case False
  then have "unit_of_char c = Raw c"
    by (auto simp: unit_of_char_def split: if_splits)
  then show ?thesis by simp
qed

lemma utf8_of_units_map_unit_of_char: "utf8_of_units (map unit_of_char s) = s"
  by (induction s) (simp_all add: utf8_of_units_unit_of_char)

lemma parse_chars_simple_escape:
  "simple_escape e = Some ch \<Longrightarrow> e \<noteq> CHR ''u'' \<Longrightarrow>
   parse_chars (CHR 0x5C # e # r) =
     (case parse_chars r of None \<Rightarrow> None | Some (us, rest) \<Rightarrow> Some (Raw ch # us, rest))"
  by simp

lemma parse_chars_u_escape:
  "hex_val a = Some h3 \<Longrightarrow> hex_val b = Some h2 \<Longrightarrow> hex_val c = Some h1 \<Longrightarrow> hex_val d = Some h0 \<Longrightarrow>
   parse_chars (CHR 0x5C # CHR ''u'' # a # b # c # d # r) =
     (case parse_chars r of None \<Rightarrow> None
      | Some (us, rest) \<Rightarrow> Some (Esc (4096 * h3 + 256 * h2 + 16 * h1 + h0) # us, rest))"
  by simp

lemma parse_chars_raw:
  "c \<noteq> CHR 0x22 \<Longrightarrow> c \<noteq> CHR 0x5C \<Longrightarrow> \<not> (of_char c :: nat) < 32 \<Longrightarrow>
   parse_chars (c # cs) =
     (case parse_chars cs of None \<Rightarrow> None | Some (us, rest) \<Rightarrow> Some (Raw c # us, rest))"
  by simp

lemma parse_chars_quote_char:
  "parse_chars (quote_char c @ cs) =
     (case parse_chars cs of None \<Rightarrow> None | Some (us, rest) \<Rightarrow> Some (unit_of_char c # us, rest))"
proof -
  consider (esc) ch where "quote_char c = [CHR 0x5C, ch]" "simple_escape ch = Some c"
      "ch \<noteq> CHR ''u''" "unit_of_char c = Raw c"
    | (u) "(of_char c :: nat) < 32"
      "quote_char c = [CHR 0x5C, CHR ''u'', CHR ''0'', CHR ''0'',
          hex_digit ((of_char c :: nat) div 16), hex_digit ((of_char c :: nat) mod 16)]"
      "unit_of_char c = Esc (of_char c)"
    | (r) "\<not> (of_char c :: nat) < 32" "c \<noteq> CHR 0x22" "c \<noteq> CHR 0x5C" "quote_char c = [c]"
      "unit_of_char c = Raw c"
    unfolding quote_char_def unit_of_char_def simple_escape_def
    by (cases "c = CHR 0x22"; cases "c = CHR 0x5C"; cases "c = CHR 0x08"; cases "c = CHR 0x0C";
        cases "c = CHR 0x0A"; cases "c = CHR 0x0D"; cases "c = CHR 0x09";
        cases "(of_char c :: nat) < 32"; simp)
  then show ?thesis
  proof cases
    case esc
    show ?thesis
      unfolding esc(1) esc(4)
      using parse_chars_simple_escape [OF esc(2) esc(3), of cs]
      by (simp del: parse_chars.simps)
  next
    case u
    have d1: "(of_char c :: nat) div 16 < 16" and d0: "(of_char c :: nat) mod 16 < 16"
      using u(1) by simp_all
    have z: "hex_val CHR ''0'' = Some 0" by (simp add: hex_val_def)
    have v: "4096 * 0 + 256 * 0 + 16 * ((of_char c :: nat) div 16) + of_char c mod 16 = of_char c"
      by simp
    show ?thesis
      unfolding u(2) u(3)
      using parse_chars_u_escape [OF z z hex_val_hex_digit [OF d1] hex_val_hex_digit [OF d0], of cs]
      unfolding v by (simp del: parse_chars.simps)
  next
    case r
    show ?thesis
      unfolding r(4) r(5)
      using parse_chars_raw [OF r(2) r(3) r(1), of cs]
      by (simp del: parse_chars.simps)
  qed
qed

lemma parse_chars_quoted:
  "parse_chars (concat (map quote_char s) @ CHR 0x22 # rest) = Some (map unit_of_char s, rest)"
  by (induction s) (simp_all del: parse_chars.simps add: parse_chars_quote_char, simp)

lemma skip_ws_quote [simp]: "skip_ws (CHR 0x22 # cs) = CHR 0x22 # cs"
  by (simp add: skip_ws_def is_ws_def)

lemma skip_ws_bracket [simp]: "skip_ws (CHR '']'' # cs) = CHR '']'' # cs"
  by (simp add: skip_ws_def is_ws_def)

lemma skip_ws_open [simp]: "skip_ws (CHR ''['' # cs) = CHR ''['' # cs"
  by (simp add: skip_ws_def is_ws_def)

lemma skip_ws_comma [simp]: "skip_ws (CHR '','' # cs) = CHR '','' # cs"
  by (simp add: skip_ws_def is_ws_def)

lemma skip_ws_Nil [simp]: "skip_ws [] = []"
  by (simp add: skip_ws_def)

lemma parse_value_quoted:
  "parse_value (Suc n) (QuoteJSONString s @ rest) = Accept (JString s) rest"
  by (simp add: QuoteJSONString_def parse_chars_quoted utf8_of_units_map_unit_of_char
      del: parse_chars.simps)

lemma parse_elements_quoted:
  "xs \<noteq> [] \<Longrightarrow> length xs < n \<Longrightarrow>
   parse_elements n (join '','' (map QuoteJSONString xs) @ CHR '']'' # rest)
     = Accept (map JString xs) rest"
proof (induction xs arbitrary: n)
  case Nil
  then show ?case by simp
next
  case (Cons x xs)
  from Cons.prems obtain m where n: "n = Suc (Suc m)" and m: "length xs \<le> m"
    by (cases n; cases "n - 1") auto
  show ?case
  proof (cases xs)
    case Nil
    then show ?thesis
      unfolding n by (simp add: parse_value_quoted del: parse_value.simps)
  next
    case (Cons y ys)
    have ih: "parse_elements (Suc m) (join '','' (map QuoteJSONString xs) @ CHR '']'' # rest)
        = Accept (map JString xs) rest"
      using Cons.IH [of "Suc m"] Cons m by simp
    show ?thesis
      unfolding n using ih Cons
      by (subst parse_elements.simps(2))
        (simp add: parse_value_quoted del: parse_value.simps parse_elements.simps(2))
  qed
qed

lemma length_join_quoted: "length xs \<le> length (join sep (map QuoteJSONString xs))"
proof (induction xs)
  case Nil
  then show ?case by simp
next
  case (Cons x xs)
  then show ?case by (cases xs) (simp_all add: QuoteJSONString_def)
qed

lemma parse_value_stringify_strings:
  "length (stringify_strings xs) \<le> n \<Longrightarrow>
   parse_value (Suc n) (stringify_strings xs) = Accept (JArray (map JString xs)) []"
proof (cases xs)
  case Nil
  then show ?thesis by (simp add: stringify_strings_def)
next
  case (Cons y ys)
  assume "length (stringify_strings xs) \<le> n"
  then have n: "length xs < n"
    using length_join_quoted [of xs "'',''"] by (simp add: stringify_strings_def)
  obtain r where r: "join '','' (map QuoteJSONString xs) = CHR 0x22 # r"
    using Cons by (cases ys) (simp_all add: QuoteJSONString_def)
  have "parse_elements n (CHR 0x22 # r @ '']'') = Accept (map JString xs) []"
    using parse_elements_quoted [of xs n "[]"] n Cons unfolding r by simp
  then show ?thesis
    unfolding stringify_strings_def r
    by (simp del: parse_elements.simps)
qed

lemma JSON_parse_stringify_strings:
  "JSON_parse (stringify_strings xs) = Inr (JArray (map JString xs))"
  unfolding JSON_parse_def
  using parse_value_stringify_strings [of xs "2 * length (stringify_strings xs)"]
  by simp

lemma stringify_strings_not_Nil: "stringify_strings xs \<noteq> []"
  by (simp add: stringify_strings_def)

lemma parse_amenities_encoded:
  "parse_amenities (Some (encode_amenities a)) = Inr (JArray (map JString (amenities_or_empty a)))"
  by (simp add: parse_amenities_def encode_amenities_def stringify_strings_not_Nil
      JSON_parse_stringify_strings)

lemma parse_amenities_stringified:
  "parse_amenities (Some (stringify_strings xs)) = Inr (JArray (map JString xs))"
  by (simp add: parse_amenities_def stringify_strings_not_Nil JSON_parse_stringify_strings)

subsection \<open>Numbers are read as doubles\<close>

text \<open>
  \<open>bit_length\<close> and \<open>floor_log2\<close> compute what their names say, and \<open>round_half_even\<close>
  yields a nearest integer, the even one of two.
\<close>

lemma bit_length_nonpos: "n \<le> 0 \<Longrightarrow> bit_length n = 0"
  by (subst bit_length.simps) simp

lemma bit_length_pos: "0 < n \<Longrightarrow> bit_length n = 1 + bit_length (n div 2)"
  by (subst bit_length.simps) simp

lemma bit_length_ge0: "0 \<le> bit_length n"
  by (induction n rule: bit_length.induct) (subst bit_length.simps, simp)

lemma bit_length_bounds:
  "0 < n \<Longrightarrow> 2 ^ nat (bit_length n - 1) \<le> n \<and> n < 2 ^ nat (bit_length n)"
proof (induction n rule: bit_length.induct)
  case (1 n)
  show ?case
  proof (cases "n = 1")
    case True
    have "bit_length 1 = 1" by (simp add: bit_length_pos bit_length_nonpos)
    with True show ?thesis by simp
  next
    case False
    with 1(2) have h: "0 < n div 2" by simp
    define b where "b = bit_length (n div 2)"
    from 1(1) 1(2) h have ih: "2 ^ nat (b - 1) \<le> n div 2" "n div 2 < 2 ^ nat b"
      unfolding b_def by simp_all
    have b1: "1 \<le> b" unfolding b_def using bit_length_pos [OF h] bit_length_ge0 [of "n div 2 div 2"]
      by simp
    have bl: "bit_length n = 1 + b" unfolding b_def using 1(2) by (rule bit_length_pos)
    have e1: "nat (1 + b - 1) = Suc (nat (b - 1))" using b1 by simp
    have e2: "nat (1 + b) = Suc (nat b)" using b1 by simp
    have "(2::int) ^ nat (1 + b - 1) \<le> 2 * (n div 2)"
      unfolding e1 using ih(1) by simp
    also have "\<dots> \<le> n" by simp
    finally have lo: "(2::int) ^ nat (1 + b - 1) \<le> n" .
    have "n \<le> 2 * (n div 2) + 1" by presburger
    also have "\<dots> < 2 * 2 ^ nat b" using ih(2) by simp
    finally have hi: "n < 2 ^ nat (1 + b)" unfolding e2 by simp
    from lo hi show ?thesis unfolding bl by simp
  qed
qed

lemma pow2_powi: "pow2 k = 2 powi k"
  by (simp add: pow2_def power_int_def field_simps)

lemma pow2_pos: "0 < pow2 k"
  by (simp add: pow2_powi)

lemma pow2_add: "pow2 (a + b) = pow2 a * pow2 b"
  by (simp add: pow2_powi power_int_add)

lemma pow2_mono: "a \<le> b \<Longrightarrow> pow2 a \<le> pow2 b"
  by (simp add: pow2_powi power_int_increasing)

lemma pow2_less_D: "pow2 a < pow2 b \<Longrightarrow> a < b"
  using pow2_mono [of b a] by (cases "a < b") simp_all

lemma bit_length_rat_bounds:
  assumes "0 < n"
  shows "pow2 (bit_length n - 1) \<le> of_int n \<and> of_int n < pow2 (bit_length n)"
proof -
  note b = bit_length_bounds [OF assms]
  have g: "0 \<le> bit_length n - 1"
    using bit_length_pos [OF assms] bit_length_ge0 [of "n div 2"] by simp
  have "pow2 (bit_length n - 1) = of_int (2 ^ nat (bit_length n - 1))"
    using g by (simp add: pow2_def)
  also have "\<dots> \<le> of_int n" using b by (simp only: of_int_le_iff)
  finally have 1: "pow2 (bit_length n - 1) \<le> of_int n" .
  have "(of_int n :: rat) < of_int (2 ^ nat (bit_length n))"
    using b by (simp only: of_int_less_iff)
  also have "\<dots> = pow2 (bit_length n)" using g by (simp add: pow2_def)
  finally show ?thesis using 1 by simp
qed

lemma floor_log2_bounds:
  assumes "0 < q"
  shows "pow2 (floor_log2 q) \<le> q \<and> q < pow2 (floor_log2 q + 1)"
proof -
  obtain a b where ab: "quotient_of q = (a, b)" by (cases "quotient_of q")
  have b: "0 < b" using ab by (rule quotient_of_denom_pos)
  have q: "q = of_int a / of_int b" using ab by (rule quotient_of_div)
  have a: "0 < a"
  proof (rule ccontr)
    assume "\<not> 0 < a"
    then have "of_int a / of_int b \<le> (0::rat)" using b by (simp add: divide_le_0_iff)
    with assms q show False by simp
  qed
  define d where "d = bit_length a - bit_length b"
  note ba = bit_length_rat_bounds [OF a]
  note bb = bit_length_rat_bounds [OF b]
  have rb: "(0::rat) < of_int b" using b by simp
  have "pow2 (d - 1) * of_int b < pow2 (d - 1) * pow2 (bit_length b)"
    using bb pow2_pos [of "d - 1"] by simp
  also have "\<dots> = pow2 (bit_length a - 1)"
    unfolding pow2_add [symmetric] d_def by simp
  also have "\<dots> \<le> of_int a" using ba by simp
  finally have lo: "pow2 (d - 1) < q" unfolding q using rb by (simp add: pos_less_divide_eq)
  have "of_int a < pow2 (bit_length a)" using ba by simp
  also have "\<dots> = pow2 (d + 1) * pow2 (bit_length b - 1)"
    unfolding pow2_add [symmetric] d_def by simp
  also have "\<dots> \<le> pow2 (d + 1) * of_int b"
    using bb pow2_pos [of "d + 1"] by simp
  finally have hi: "q < pow2 (d + 1)" unfolding q using rb by (simp add: pos_divide_less_eq)
  have f: "floor_log2 q = (if pow2 d \<le> q then d else d - 1)"
    by (simp add: floor_log2_def ab d_def)
  show ?thesis
  proof (cases "pow2 d \<le> q")
    case True
    with hi show ?thesis unfolding f by simp
  next
    case False
    with lo show ?thesis unfolding f by simp
  qed
qed

lemma floor_log2_eq:
  assumes "pow2 e \<le> q" "q < pow2 (e + 1)"
  shows "floor_log2 q = e"
proof -
  have "0 < q" using assms(1) pow2_pos [of e] by simp
  note fl = floor_log2_bounds [OF this]
  from assms(1) fl have "pow2 e < pow2 (floor_log2 q + 1)" by simp
  then have 1: "e < floor_log2 q + 1" by (rule pow2_less_D)
  from assms(2) fl have "pow2 (floor_log2 q) < pow2 (e + 1)" by simp
  then have "floor_log2 q < e + 1" by (rule pow2_less_D)
  with 1 show ?thesis by simp
qed

lemma round_half_even_near: "\<bar>of_int (round_half_even m) - m\<bar> \<le> 1 / 2"
proof -
  define f where "f = \<lfloor>m\<rfloor>"
  have "of_int f \<le> m" "m < of_int f + 1" unfolding f_def by linarith+
  then show ?thesis
    unfolding round_half_even_def Let_def f_def [symmetric]
    by (auto simp: abs_if)
qed

lemma round_half_even_ge: "of_int n \<le> m \<Longrightarrow> n \<le> round_half_even m"
proof -
  assume "of_int n \<le> m"
  then have "n \<le> \<lfloor>m\<rfloor>" by (simp add: le_floor_iff)
  then show ?thesis by (auto simp: round_half_even_def Let_def)
qed

lemma round_half_even_le: "m \<le> of_int n \<Longrightarrow> round_half_even m \<le> n"
proof -
  assume h: "m \<le> of_int n"
  show ?thesis
  proof (cases "m = of_int n")
    case True
    then show ?thesis by (simp add: round_half_even_def Let_def)
  next
    case False
    with h have "m < of_int n" by simp
    then have "\<lfloor>m\<rfloor> < n" by (simp add: floor_less_iff)
    then show ?thesis by (auto simp: round_half_even_def Let_def)
  qed
qed

lemma round_half_even_tie:
  assumes "\<bar>of_int (round_half_even m) - m\<bar> = 1 / 2"
  shows "even (round_half_even m)"
proof -
  define f where "f = \<lfloor>m\<rfloor>"
  have b: "of_int f \<le> m" "m < of_int f + 1" unfolding f_def by linarith+
  from assms b show ?thesis
    unfolding round_half_even_def Let_def f_def [symmetric]
    by (auto simp: abs_if split: if_splits)
qed

lemma round_half_even_up:
  assumes "even z" "of_int z - 1 / 2 \<le> m"
  shows "z \<le> round_half_even m"
proof (cases "of_int z \<le> m")
  case True
  then show ?thesis by (rule round_half_even_ge)
next
  case False
  with assms(2) have f: "\<lfloor>m\<rfloor> = z - 1"
    by (intro floor_unique) simp_all
  have o: "odd (z - 1)" using assms(1) by simp
  show ?thesis
    unfolding round_half_even_def Let_def f using assms(2) o by auto
qed

lemma to_double_unfold:
  assumes "q \<noteq> 0"
  defines "e \<equiv> floor_log2 \<bar>q\<bar>"
  defines "k \<equiv> (if e < - 1022 then - 1074 else e - 52)"
  defines "m \<equiv> round_half_even (\<bar>q\<bar> / pow2 k)"
  shows "to_double q =
    (if pow2 1024 \<le> of_int m * pow2 k then JInfinity (0 < q)
     else JNumber (if q < 0 then - (of_int m * pow2 k) else of_int m * pow2 k))"
  using assms(1) unfolding to_double_def Let_def m_def k_def e_def by simp

lemma to_double_exponent:
  assumes "q \<noteq> 0"
  defines "e \<equiv> floor_log2 \<bar>q\<bar>"
  defines "k \<equiv> (if e < - 1022 then - 1074 else e - 52)"
  defines "m \<equiv> round_half_even (\<bar>q\<bar> / pow2 k)"
  shows "0 \<le> m \<and> m \<le> 2 ^ 53 \<and> - 1074 \<le> k \<and> (k = - 1074 \<or> 2 ^ 52 \<le> m) \<and>
         (- 1022 \<le> e \<longrightarrow> pow2 e \<le> of_int m * pow2 k)"
proof -
  have p: "0 < \<bar>q\<bar>" using assms(1) by simp
  note fl = floor_log2_bounds [OF p, folded e_def]
  have kp: "0 < pow2 k" by (rule pow2_pos)
  have "(0::rat) \<le> \<bar>q\<bar> / pow2 k" using kp by simp
  then have "of_int 0 \<le> \<bar>q\<bar> / pow2 k" by simp
  then have m0: "0 \<le> m" unfolding m_def by (rule round_half_even_ge)
  have ek: "e + 1 \<le> k + 53" unfolding k_def by simp
  have "\<bar>q\<bar> < pow2 (e + 1)" using fl by simp
  also have "\<dots> \<le> pow2 (k + 53)" using ek by (rule pow2_mono)
  also have "\<dots> = pow2 53 * pow2 k" by (simp add: pow2_add)
  finally have "\<bar>q\<bar> / pow2 k \<le> pow2 53" using kp by (simp add: pos_divide_le_eq)
  also have "pow2 53 = of_int (2 ^ 53)" by (simp add: pow2_def)
  finally have m1: "m \<le> 2 ^ 53" unfolding m_def by (rule round_half_even_le)
  have k0: "- 1074 \<le> k" unfolding k_def by simp
  have n: "2 ^ 52 \<le> m \<and> pow2 e \<le> of_int m * pow2 k" if "- 1022 \<le> e"
  proof -
    from that have k: "k = e - 52" unfolding k_def by simp
    have "pow2 52 * pow2 k = pow2 e" unfolding pow2_add [symmetric] k by simp
    also have "\<dots> \<le> \<bar>q\<bar>" using fl by simp
    finally have "pow2 52 \<le> \<bar>q\<bar> / pow2 k" using kp by (simp add: pos_le_divide_eq)
    moreover have "pow2 52 = of_int (2 ^ 52)" by (simp add: pow2_def)
    ultimately have "of_int (2 ^ 52) \<le> \<bar>q\<bar> / pow2 k" by simp
    then have a: "2 ^ 52 \<le> m" unfolding m_def by (rule round_half_even_ge)
    then have "(of_int (2 ^ 52) :: rat) \<le> of_int m" by (simp only: of_int_le_iff)
    then have "of_int (2 ^ 52) * pow2 k \<le> of_int m * pow2 k"
      using kp by (simp only: mult_le_cancel_right_pos)
    moreover have "of_int (2 ^ 52) * pow2 k = pow2 e"
      unfolding k using pow2_add [of 52 "e - 52"] by (simp add: pow2_def)
    ultimately show ?thesis using a by simp
  qed
  have "k = - 1074 \<or> 2 ^ 52 \<le> m"
  proof (cases "- 1022 \<le> e")
    case True
    then show ?thesis using n by simp
  next
    case False
    then show ?thesis unfolding k_def by simp
  qed
  with m0 m1 k0 n show ?thesis by simp
qed

text \<open>
  A finite result of \<open>to_double\<close> is a double: an integer of at most 53 bits times a power
  of two no smaller than \<open>2 ^ -1074\<close>, with the leading bit set unless the exponent is the
  smallest. It is within half a unit in the last place of the value read, and of two
  doubles at that distance it is the one with the even significand. The result is an
  infinity exactly from \<open>2 ^ 1024 - 2 ^ 970\<close> on, the value halfway between the largest
  double and \<open>2 ^ 1024\<close>.
\<close>

lemma to_double_nearest:
  assumes "to_double q = JNumber w"
  shows "\<exists>m k. w = of_int m * pow2 k \<and> \<bar>m\<bar> \<le> 2 ^ 53 \<and> - 1074 \<le> k \<and> k \<le> 971 \<and>
           (k = - 1074 \<or> 2 ^ 52 \<le> \<bar>m\<bar>) \<and>
           \<bar>w - q\<bar> \<le> pow2 k / 2 \<and> (\<bar>w - q\<bar> = pow2 k / 2 \<longrightarrow> even m)"
proof (cases "q = 0")
  case True
  with assms have "w = 0" by (simp add: to_double_def)
  with True show ?thesis
    by (intro exI [of _ 0] exI [of _ "- 1074"]) (simp add: pow2_pos less_imp_le)
next
  case q: False
  define e where "e = floor_log2 \<bar>q\<bar>"
  define k where "k = (if e < - 1022 then - 1074 else e - 52)"
  define m where "m = round_half_even (\<bar>q\<bar> / pow2 k)"
  define v where "v = of_int m * pow2 k"
  note u = to_double_unfold [OF q, folded e_def, folded k_def, folded m_def, folded v_def]
  note x = to_double_exponent [OF q, folded e_def, folded k_def, folded m_def, folded v_def]
  have kp: "0 < pow2 k" by (rule pow2_pos)
  from assms u have fin: "\<not> pow2 1024 \<le> v" and w: "w = (if q < 0 then - v else v)"
    by (simp_all split: if_splits)
  have k1: "k \<le> 971"
  proof (cases "- 1022 \<le> e")
    case True
    with x have "pow2 e \<le> v" by simp
    with fin have "pow2 e < pow2 1024" by simp
    then have "e < 1024" by (rule pow2_less_D)
    then show ?thesis unfolding k_def by simp
  next
    case False
    then show ?thesis unfolding k_def by simp
  qed
  have d: "v - \<bar>q\<bar> = (of_int m - \<bar>q\<bar> / pow2 k) * pow2 k"
    unfolding v_def using kp by (simp add: field_simps)
  have ad: "\<bar>v - \<bar>q\<bar>\<bar> = \<bar>of_int m - \<bar>q\<bar> / pow2 k\<bar> * pow2 k"
    unfolding d abs_mult using kp by simp
  have near: "\<bar>v - \<bar>q\<bar>\<bar> \<le> pow2 k / 2"
    unfolding ad using round_half_even_near [of "\<bar>q\<bar> / pow2 k", folded m_def] kp
    by (simp add: field_simps)
  have tie: "even m" if "\<bar>v - \<bar>q\<bar>\<bar> = pow2 k / 2"
  proof -
    from that have "\<bar>of_int m - \<bar>q\<bar> / pow2 k\<bar> = 1 / 2"
      unfolding ad using kp by (simp add: field_simps)
    then show ?thesis unfolding m_def by (rule round_half_even_tie)
  qed
  show ?thesis
  proof (cases "q < 0")
    case True
    then have wq: "\<bar>w - q\<bar> = \<bar>v - \<bar>q\<bar>\<bar>" unfolding w by simp
    have wm: "w = of_int (- m) * pow2 k" unfolding w v_def using True by simp
    show ?thesis
      using wm x k1 near tie unfolding wq [symmetric]
      by (intro exI [of _ "- m"] exI [of _ k]) simp
  next
    case False
    then have wq: "\<bar>w - q\<bar> = \<bar>v - \<bar>q\<bar>\<bar>" unfolding w by simp
    have wm: "w = of_int m * pow2 k" unfolding w v_def using False by simp
    show ?thesis
      using wm x k1 near tie unfolding wq [symmetric]
      by (intro exI [of _ m] exI [of _ k]) simp
  qed
qed

lemma to_double_overflow:
  assumes "pow2 1024 \<le> \<bar>q\<bar>"
  shows "to_double q = JInfinity (0 < q)"
proof -
  have q: "q \<noteq> 0" using assms pow2_pos [of 1024] by auto
  define e where "e = floor_log2 \<bar>q\<bar>"
  define k where "k = (if e < - 1022 then - 1074 else e - 52)"
  define m where "m = round_half_even (\<bar>q\<bar> / pow2 k)"
  have p: "0 < \<bar>q\<bar>" using q by simp
  note fl = floor_log2_bounds [OF p, folded e_def]
  from assms fl have "pow2 1024 < pow2 (e + 1)" by simp
  then have e: "1024 \<le> e" using pow2_less_D [of 1024 "e + 1"] by simp
  then have "- 1022 \<le> e" by simp
  with to_double_exponent [OF q, folded e_def, folded k_def, folded m_def]
  have "pow2 e \<le> of_int m * pow2 k" by simp
  moreover have "pow2 1024 \<le> pow2 e" using e by (rule pow2_mono)
  ultimately have "pow2 1024 \<le> of_int m * pow2 k" by simp
  then show ?thesis
    unfolding to_double_unfold [OF q, folded e_def, folded k_def, folded m_def] by simp
qed

lemma to_double_overflow_from:
  assumes "pow2 1024 - pow2 970 \<le> \<bar>q\<bar>"
  shows "to_double q = JInfinity (0 < q)"
proof (cases "pow2 1024 \<le> \<bar>q\<bar>")
  case True
  then show ?thesis by (rule to_double_overflow)
next
  case False
  have n: "pow2 1024 = 2 ^ 1024" "pow2 970 = 2 ^ 970" "pow2 1023 = 2 ^ 1023" "pow2 971 = 2 ^ 971"
    by (simp_all add: pow2_def)
  have q: "q \<noteq> 0" using assms unfolding n by auto
  have "pow2 1023 \<le> pow2 1024 - pow2 970" unfolding n by simp
  with assms have lo: "pow2 1023 \<le> \<bar>q\<bar>" by simp
  from False have hi: "\<bar>q\<bar> < pow2 (1023 + 1)" by simp
  have e: "floor_log2 \<bar>q\<bar> = 1023" using lo hi by (rule floor_log2_eq)
  have k: "(if (1023::int) < - 1022 then - 1074 else 1023 - 52) = (971::int)" by simp
  define m where "m = round_half_even (\<bar>q\<bar> / pow2 971)"
  have a: "(pow2 1024 - pow2 970) / pow2 971 = of_int (2 ^ 53) - 1 / 2"
    unfolding n by simp
  have "(pow2 1024 - pow2 970) / pow2 971 \<le> \<bar>q\<bar> / pow2 971"
    using assms pow2_pos [of 971] by (simp only: divide_le_cancel) simp
  then have "of_int (2 ^ 53) - 1 / 2 \<le> \<bar>q\<bar> / pow2 971" unfolding a .
  then have "2 ^ 53 \<le> m" unfolding m_def by (intro round_half_even_up) simp_all
  then have "(of_int (2 ^ 53) :: rat) \<le> of_int m" by (simp only: of_int_le_iff)
  then have "of_int (2 ^ 53) * pow2 971 \<le> of_int m * pow2 971"
    using pow2_pos [of 971] by (simp only: mult_le_cancel_right_pos)
  moreover have "of_int (2 ^ 53) * pow2 971 = pow2 1024" unfolding n by simp
  ultimately have "pow2 1024 \<le> of_int m * pow2 971" by simp
  then show ?thesis
    using to_double_unfold [OF q] unfolding e k m_def by simp
qed

lemma to_double_infinite:
  assumes "to_double q = JInfinity b"
  shows "pow2 1024 - pow2 970 \<le> \<bar>q\<bar> \<and> b = (0 < q)"
proof -
  have q: "q \<noteq> 0" using assms by (auto simp: to_double_def)
  define e where "e = floor_log2 \<bar>q\<bar>"
  define k where "k = (if e < - 1022 then - 1074 else e - 52)"
  define m where "m = round_half_even (\<bar>q\<bar> / pow2 k)"
  define v where "v = of_int m * pow2 k"
  note u = to_double_unfold [OF q, folded e_def, folded k_def, folded m_def, folded v_def]
  from assms u have inf: "pow2 1024 \<le> v" and b: "b = (0 < q)"
    by (simp_all split: if_splits)
  have p: "0 < \<bar>q\<bar>" using q by simp
  note fl = floor_log2_bounds [OF p, folded e_def]
  have kp: "0 < pow2 k" by (rule pow2_pos)
  have "pow2 1024 - pow2 970 \<le> \<bar>q\<bar>"
  proof (cases "1024 \<le> e")
    case True
    then have "pow2 1024 \<le> pow2 e" by (rule pow2_mono)
    with fl have "pow2 1024 \<le> \<bar>q\<bar>" by simp
    then show ?thesis using pow2_pos [of 970] by simp
  next
    case False
    then have "k - 1 \<le> 970" unfolding k_def by simp
    then have k: "pow2 (k - 1) \<le> pow2 970" by (rule pow2_mono)
    have "pow2 k = pow2 (k - 1) * pow2 1" unfolding pow2_add [symmetric] by simp
    also have "pow2 1 = 2" by (simp add: pow2_def)
    finally have h: "pow2 k / 2 = pow2 (k - 1)" by simp
    have d: "v - \<bar>q\<bar> = (of_int m - \<bar>q\<bar> / pow2 k) * pow2 k"
      unfolding v_def using kp by (simp add: field_simps)
    have "\<bar>v - \<bar>q\<bar>\<bar> = \<bar>of_int m - \<bar>q\<bar> / pow2 k\<bar> * pow2 k"
      unfolding d abs_mult using kp by simp
    also have "\<dots> \<le> pow2 k / 2"
      using round_half_even_near [of "\<bar>q\<bar> / pow2 k", folded m_def] kp
      by (simp add: field_simps)
    finally have "v - \<bar>q\<bar> \<le> pow2 (k - 1)" unfolding h by simp
    with k inf show ?thesis by simp
  qed
  with b show ?thesis by simp
qed

text \<open>A text that is a number is parsed to the double of its value.\<close>

lemma parse_value_number:
  assumes "c = CHR ''-'' \<or> is_digit c" "parse_number (c # r) = Some (q, rest)"
  shows "parse_value (Suc n) (c # r) = Accept (to_double q) rest"
proof -
  from assms(1) have "\<not> is_ws c" "c \<noteq> CHR ''[''" "c \<noteq> CHR ''{''" "c \<noteq> CHR 0x22"
    by (auto simp: is_ws_def is_digit_def)
  then show ?thesis using assms by (simp add: skip_ws_def)
qed

lemma JSON_parse_number:
  assumes "c = CHR ''-'' \<or> is_digit c" "parse_number (c # r) = Some (q, [])"
  shows "JSON_parse (c # r) = Inr (to_double q)"
  unfolding JSON_parse_def using parse_value_number [OF assms] by simp

subsection \<open>Sample texts\<close>

lemma JSON_parse_need_ac:
  \<open>JSON_parse ''{"title":"Need AC"}'' = Inr (JObject [(''title'', JString ''Need AC'')])\<close>
  by code_simp

lemma JSON_parse_hello: "JSON_parse ''hello'' = Inl SyntaxError"
  by code_simp

lemma JSON_parse_null: "JSON_parse ''null'' = Inr JNull"
  by code_simp

lemma parse_number_1e400: "parse_number ''1e400'' = Some (10 ^ 400, [])"
  by code_simp

lemma JSON_parse_1e400: "JSON_parse ''1e400'' = Inr (JInfinity True)"
proof -
  have "pow2 1024 \<le> \<bar>10 ^ 400\<bar>" by (simp add: pow2_def)
  from to_double_overflow [OF this] have "to_double (10 ^ 400) = JInfinity True" by simp
  moreover have "JSON_parse ''1e400'' = Inr (to_double (10 ^ 400))"
    by (rule JSON_parse_number) (simp_all add: is_digit_def parse_number_1e400)
  ultimately show ?thesis by simp
qed

lemma parse_number_2_53_1: "parse_number ''9007199254740993'' = Some (9007199254740993, [])"
  by code_simp

lemma to_double_2_53_1: "to_double 9007199254740993 = JNumber 9007199254740992"
proof -
  have e: "floor_log2 \<bar>9007199254740993\<bar> = 53"
    by (rule floor_log2_eq) (simp_all add: pow2_def)
  have k: "(if (53::int) < - 1022 then - 1074 else 53 - 52) = (1::int)" by simp
  have p1: "pow2 1 = 2" by (simp add: pow2_def)
  have f: "\<lfloor>(9007199254740993::rat) / 2\<rfloor> = 4503599627370496"
    by (rule floor_unique) simp_all
  have m: "round_half_even (\<bar>9007199254740993\<bar> / 2) = 4503599627370496"
    unfolding round_half_even_def Let_def by (simp add: f)
  have v: "\<not> pow2 1024 \<le> of_int 4503599627370496 * 2" by (simp add: pow2_def)
  show ?thesis
    using to_double_unfold [of 9007199254740993] v unfolding e k p1 m by simp
qed

lemma JSON_parse_2_53_1: "JSON_parse ''9007199254740993'' = Inr (JNumber 9007199254740992)"
proof -
  have "JSON_parse ''9007199254740993'' = Inr (to_double 9007199254740993)"
    by (rule JSON_parse_number) (simp_all add: is_digit_def parse_number_2_53_1)
  then show ?thesis by (simp add: to_double_2_53_1)
qed

text \<open>
  The properties of a parsed object: array indices first, and a name that is repeated
  keeps its first place and its last value.
\<close>

lemma JSON_parse_order:
  \<open>JSON_parse ''{"b":1,"2":3,"b":0}'' = Inr (JObject [(''2'', JNumber 3), (''b'', JNumber 0)])\<close>
  by code_simp

section \<open>Amenities\<close>

text \<open>
  C5. Encoding a sequence of amenity labels as the room handlers do on create and update
  (\<open>JSON.stringify(amenities || [])\<close>) and decoding that text as the read handler does
  (\<open>JSON.parse(row.amenities || '[]')\<close>) gives back the array of the same labels in the
  same order. This holds for every sequence, the empty one included, and a request
  without amenities reads back as the empty array.
\<close>

theorem amenities_roundtrip:
  "parse_amenities (Some (encode_amenities (Val xs))) = Inr (JArray (map JString xs)) \<and>
   parse_amenities (Some (encode_amenities (Val []))) = Inr (JArray []) \<and>
   parse_amenities (Some (encode_amenities a))
     = Inr (JArray (map JString (amenities_or_empty a)))"
  by (simp add: parse_amenities_def encode_amenities_def stringify_strings_not_Nil
      JSON_parse_stringify_strings)

section \<open>Row identifiers and queries\<close>

lemma fold_max_ge: "(seq :: int) \<le> fold max ids seq"
  by (induction ids arbitrary: seq) (auto intro: order_trans [OF max.cobounded2])

lemma fold_max_mem: "(x :: int) \<in> set ids \<Longrightarrow> x \<le> fold max ids seq"
proof (induction ids arbitrary: seq)
  case Nil
  then show ?case by simp
next
  case (Cons y ys)
  show ?case
  proof (cases "x = y")
    case True
    have "y \<le> max y seq" by simp
    also have "\<dots> \<le> fold max ys (max y seq)" by (rule fold_max_ge)
    finally show ?thesis using True by simp
  next
    case False
    with Cons show ?thesis by simp
  qed
qed

lemma next_rowid_fresh: "x \<in> set ids \<Longrightarrow> x < next_rowid seq ids"
  using fold_max_mem [of x ids seq] by (simp add: next_rowid_def)

lemma next_rowid_above_seq: "seq < next_rowid seq ids"
  using fold_max_ge [of seq ids] by (simp add: next_rowid_def)

lemma mset_select_submissions: "mset (select_submissions s) = mset (submissions s)"
  by (simp add: select_submissions_def)

lemma set_select_submissions: "set (select_submissions s) = set (submissions s)"
  by (simp add: select_submissions_def)

lemma mset_select_rooms: "mset (select_rooms s) = mset (rooms s)"
  by (simp add: select_rooms_def)

lemma set_select_rooms: "set (select_rooms s) = set (rooms s)"
  by (simp add: select_rooms_def)

lemma sorted_select_rooms: "sorted (map number (select_rooms s))"
  by (simp add: select_rooms_def)

lemma insert_submission_result:
  "insert_submission now sn wt c s =
     Inr (next_rowid (submissions_seq s) (map s_id (submissions s)),
          s\<lparr>submissions :=
               submissions s @
                 [\<lparr>s_id = next_rowid (submissions_seq s) (map s_id (submissions s)),
                   student_name = sn, work_type = wt, content = c, s_created_at = now\<rparr>],
             submissions_seq := next_rowid (submissions_seq s) (map s_id (submissions s))\<rparr>)"
  by (simp add: insert_submission_def Let_def)

lemma find_append_fresh:
  "\<forall>x \<in> set xs. \<not> P x \<Longrightarrow> P y \<Longrightarrow> find P (xs @ [y]) = Some y"
  by (induction xs) auto

lemma select_submission_new:
  "select_submission (next_rowid seq (map s_id rows))
     (s\<lparr>submissions := rows @ [\<lparr>s_id = next_rowid seq (map s_id rows), student_name = sn,
          work_type = wt, content = c, s_created_at = now\<rparr>], submissions_seq := k\<rparr>)
   = Some \<lparr>s_id = next_rowid seq (map s_id rows), student_name = sn,
          work_type = wt, content = c, s_created_at = now\<rparr>"
proof -
  have "\<forall>r \<in> set rows. \<not> s_id r = next_rowid seq (map s_id rows)"
  proof
    fix r assume "r \<in> set rows"
    then have "s_id r \<in> set (map s_id rows)" by simp
    then have "s_id r < next_rowid seq (map s_id rows)" by (rule next_rowid_fresh)
    then show "\<not> s_id r = next_rowid seq (map s_id rows)" by simp
  qed
  then show ?thesis
    by (simp add: select_submission_def find_append_fresh)
qed

lemma initial_store_rooms:
  "initial_store clock =
    \<lparr>submissions = [], submissions_seq = 0,
     rooms =
       [\<lparr>r_id = 1, number = ''101'', room_type = ''Standard'', capacity = 2, price = 2500,
         amenities = Some (stringify_strings [''WiFi'', ''AC'', ''TV'']),
         status = Some ''available'', r_created_at = clock 0\<rparr>,
        \<lparr>r_id = 2, number = ''102'', room_type = ''Standard'', capacity = 2, price = 2500,
         amenities = Some (stringify_strings [''WiFi'', ''AC'', ''TV'']),
         status = Some ''occupied'', r_created_at = clock 1\<rparr>,
        \<lparr>r_id = 3, number = ''201'', room_type = ''Deluxe'', capacity = 3, price = 3500,
         amenities = Some (stringify_strings [''WiFi'', ''AC'', ''TV'', ''Mini Bar'']),
         status = Some ''available'', r_created_at = clock 2\<rparr>,
        \<lparr>r_id = 4, number = ''202'', room_type = ''Deluxe'', capacity = 3, price = 3500,
         amenities = Some (stringify_strings [''WiFi'', ''AC'', ''TV'', ''Mini Bar'']),
         status = Some ''maintenance'', r_created_at = clock 3\<rparr>,
        \<lparr>r_id = 5, number = ''301'', room_type = ''Suite'', capacity = 4, price = 5000,
         amenities = Some (stringify_strings [''WiFi'', ''AC'', ''TV'', ''Mini Bar'', ''Balcony'']),
         status = Some ''available'', r_created_at = clock 4\<rparr>],
     rooms_seq = 5\<rparr>"
proof -
  have n: "Suc (Suc 0) = 2" "Suc (Suc (Suc 0)) = 3" "Suc (Suc (Suc (Suc 0))) = 4"
    by simp_all
  show ?thesis
    by (simp add: initial_store_def sampleRooms_def seed_room_def insert_room_def empty_store_def
        next_rowid_def Let_def n)
qed

lemma select_rooms_initial: "select_rooms (initial_store clock) = rooms (initial_store clock)"
  by (simp add: select_rooms_def initial_store_rooms)

lemma filter_same_id:
  "distinct (map f xs) \<Longrightarrow> x \<in> set xs \<Longrightarrow> filter (\<lambda>y. f y = f x) xs = [x]"
proof (induction xs)
  case Nil
  then show ?case by simp
next
  case (Cons y ys)
  show ?case
  proof (cases "y = x")
    case True
    with Cons.prems have "f x \<notin> f ` set ys" by simp
    then have "filter (\<lambda>y. f y = f x) ys = []"
      unfolding filter_empty_conv by (metis imageI)
    with True show ?thesis by simp
  next
    case False
    with Cons.prems have x: "x \<in> set ys" by simp
    with Cons.prems have "f y \<noteq> f x" by force
    with Cons x show ?thesis by simp
  qed
qed

lemma filter_absent_id:
  "i \<notin> f ` set xs \<Longrightarrow> filter (\<lambda>y. f y = i) xs = [] \<and> filter (\<lambda>y. f y \<noteq> i) xs = xs"
  by (induction xs) auto

lemma map_throwing_Inr:
  "list_all (\<lambda>x. \<not> isl (f x)) xs \<Longrightarrow> map_throwing f xs = Inr (map (\<lambda>x. projr (f x)) xs)"
proof (induction xs)
  case Nil
  then show ?case by simp
next
  case (Cons x xs)
  then obtain y where "f x = Inr y" by (cases "f x") auto
  with Cons show ?case by simp
qed

lemma map_throwing_Inr_D:
  "map_throwing f xs = Inr ys \<Longrightarrow>
   list_all (\<lambda>x. \<not> isl (f x)) xs \<and> ys = map (\<lambda>x. projr (f x)) xs"
proof (induction xs arbitrary: ys)
  case Nil
  then show ?case by simp
next
  case (Cons x xs)
  then show ?case
    by (cases "f x"; cases "map_throwing f xs") auto
qed

section \<open>The table constraints are kept\<close>

lemma schema_ok_initial: "schema_ok (initial_store clock)"
  by (simp add: initial_store_rooms schema_ok_def)

lemma schema_ok_insert_submission:
  "insert_submission now sn wt c s = Inr (i, s') \<Longrightarrow> schema_ok s \<Longrightarrow> schema_ok s'"
proof -
  assume a: "insert_submission now sn wt c s = Inr (i, s')" and ok: "schema_ok s"
  have "next_rowid (submissions_seq s) (map s_id (submissions s)) \<notin> s_id ` set (submissions s)"
    using next_rowid_fresh [of "next_rowid (submissions_seq s) (map s_id (submissions s))"
        "map s_id (submissions s)" "submissions_seq s"] by auto
  with a ok show ?thesis
    by (auto simp: insert_submission_def Let_def schema_ok_def)
qed

lemma schema_ok_insert_room:
  "insert_room now n t c p a st s = Inr (i, s') \<Longrightarrow> schema_ok s \<Longrightarrow> schema_ok s'"
proof -
  assume a: "insert_room now n t c p a st s = Inr (i, s')" and ok: "schema_ok s"
  have "next_rowid (rooms_seq s) (map r_id (rooms s)) \<notin> r_id ` set (rooms s)"
    using next_rowid_fresh [of "next_rowid (rooms_seq s) (map r_id (rooms s))"
        "map r_id (rooms s)" "rooms_seq s"] by auto
  with a ok show ?thesis
    by (auto simp: insert_room_def Let_def schema_ok_def split: if_splits)
qed

lemma map_if_absent:
  "i \<notin> r_id ` set rs \<Longrightarrow> map (\<lambda>r. if r_id r = i then f r else g r) rs = map g rs"
  by (induction rs) auto

lemma distinct_numbers_update:
  "distinct (map r_id rs) \<Longrightarrow> distinct (map number rs) \<Longrightarrow>
   \<forall>r \<in> set rs. r_id r \<noteq> i \<longrightarrow> number r \<noteq> n \<Longrightarrow>
   distinct (map (\<lambda>r. if r_id r = i then n else number r) rs)"
proof (induction rs)
  case Nil
  then show ?case by simp
next
  case (Cons r rs)
  show ?case
  proof (cases "r_id r = i")
    case True
    with Cons.prems have i: "i \<notin> r_id ` set rs" by simp
    have m: "map (\<lambda>r. if r_id r = i then n else number r) rs = map number rs"
      using i by (rule map_if_absent)
    have "n \<notin> number ` set rs"
    proof
      assume "n \<in> number ` set rs"
      then obtain r' where r': "r' \<in> set rs" "number r' = n" by auto
      with i have "r_id r' \<noteq> i" by auto
      with Cons.prems(3) r' show False by simp
    qed
    moreover have "distinct (map number rs)" using Cons.prems(2) by simp
    ultimately have "distinct (n # map number rs)" by simp
    moreover have "(if r_id r = i then n else number r) = n" using True by simp
    ultimately show ?thesis unfolding list.map m by (simp only:)
  next
    case False
    with Cons show ?thesis by auto
  qed
qed

lemma schema_ok_update_room:
  assumes "update_room i n t c p a st s = Inr (k, s')" "schema_ok s"
  shows "schema_ok s'"
proof (cases "list_ex (\<lambda>r. r_id r = i) (rooms s)")
  case False
  with assms show ?thesis by (simp add: update_room_def)
next
  case True
  from assms(1) True obtain n' t' c' p' where v: "n = Some n'" "t = Some t'" "c = Some c'" "p = Some p'"
    by (cases n; cases t; cases c; cases p) (simp_all add: update_room_def)
  from assms(1) True v have u: "\<not> list_ex (\<lambda>r. r_id r \<noteq> i \<and> number r = n') (rooms s)"
    and s': "s' = s\<lparr>rooms := map (\<lambda>r. if r_id r = i
                    then r\<lparr>number := n', room_type := t', capacity := c', price := p',
                           amenities := a, status := st\<rparr>
                    else r) (rooms s)\<rparr>"
    by (auto simp: update_room_def split: if_splits)
  have ids: "map r_id (rooms s') = map r_id (rooms s)"
    unfolding s' by simp
  have nums: "map number (rooms s') = map (\<lambda>r. if r_id r = i then n' else number r) (rooms s)"
    unfolding s' by simp
  have "distinct (map number (rooms s'))"
    unfolding nums using assms(2) u
    by (intro distinct_numbers_update) (auto simp: schema_ok_def list_ex_iff)
  moreover have "submissions s' = submissions s"
    unfolding s' by simp
  ultimately show ?thesis
    using assms(2) ids unfolding schema_ok_def by simp
qed

lemma schema_ok_delete_room:
  "delete_room i s = Inr (k, s') \<Longrightarrow> schema_ok s \<Longrightarrow> schema_ok s'"
  by (auto simp: delete_room_def schema_ok_def distinct_map_filter)

lemma schema_ok_post_submission: "schema_ok s \<Longrightarrow> schema_ok (fst (post_submission e b s))"
  by (auto simp: post_submission_def split: sum.splits dest: schema_ok_insert_submission)

lemma schema_ok_post_room: "schema_ok s \<Longrightarrow> schema_ok (fst (post_room e b s))"
  by (auto simp: post_room_def split: sum.splits dest: schema_ok_insert_room)

lemma schema_ok_put_room: "schema_ok s \<Longrightarrow> schema_ok (fst (put_room e i b s))"
  by (auto simp: put_room_def split: sum.splits dest: schema_ok_update_room)

lemma schema_ok_delete_room_handler:
  "schema_ok s \<Longrightarrow> schema_ok (fst (delete_room_handler e i s))"
  by (auto simp: delete_room_handler_def split: sum.splits dest: schema_ok_delete_room)

lemma fst_get_submissions: "fst (get_submissions e s) = s"
  by (simp add: get_submissions_def split: sum.splits)

lemma fst_get_rooms: "fst (get_rooms e s) = s"
  by (simp add: get_rooms_def split: sum.splits)

lemma schema_ok_handle: "schema_ok s \<Longrightarrow> schema_ok (fst (handle e req s))"
  by (cases req)
    (simp_all add: get_root_def get_health_def fst_get_submissions fst_get_rooms
      schema_ok_post_submission schema_ok_post_room schema_ok_put_room
      schema_ok_delete_room_handler)

section \<open>Submissions\<close>

lemma join_validWorkTypes: "join '', '' validWorkTypes = ''room_request, report, financial_report''"
  by (simp add: validWorkTypes_def)

lemma valid_not_Nil: "wt \<in> set validWorkTypes \<Longrightarrow> wt \<noteq> []"
  by (auto simp: validWorkTypes_def)

lemma post_submission_missing:
  "\<not> truthy_text (req_studentName b) \<or> \<not> truthy_text (req_workType b)
     \<or> \<not> truthy_text (req_content b) \<Longrightarrow>
   post_submission e b s =
     (s, Responded 400 (failure ''Missing required fields: studentName, workType, content''))"
  by (simp add: post_submission_def)

lemma post_submission_invalid:
  "truthy_text (req_studentName b) \<Longrightarrow> truthy_text (req_workType b) \<Longrightarrow>
   truthy_text (req_content b) \<Longrightarrow> text_of (req_workType b) \<notin> set validWorkTypes \<Longrightarrow>
   post_submission e b s =
     (s, Responded 400
           (failure (''Invalid work type: '' @ text_of (req_workType b)
                     @ ''. Valid types: room_request, report, financial_report'')))"
  by (simp add: post_submission_def join_validWorkTypes)

lemma post_submission_store:
  assumes "req_studentName b = Val sn" "sn \<noteq> []" "req_workType b = Val wt"
    "wt \<in> set validWorkTypes" "req_content b = Val c" "c \<noteq> []"
  shows "fst (post_submission e b s) =
     s\<lparr>submissions :=
          submissions s @
            [\<lparr>s_id = next_rowid (submissions_seq s) (map s_id (submissions s)),
              student_name = sn, work_type = wt, content = c, s_created_at = db_now e\<rparr>],
        submissions_seq := next_rowid (submissions_seq s) (map s_id (submissions s))\<rparr>"
proof -
  have wt: "wt \<noteq> []" using assms(4) by (auto simp: validWorkTypes_def)
  show ?thesis
    using assms wt
    by (simp add: post_submission_def insert_submission_result split: sum.splits)
qed

lemma transform_submission_ok:
  "JSON_parse (content row) = Inr v \<Longrightarrow> v \<noteq> JNull \<Longrightarrow>
   transform_submission row =
     Inr (js_object
           [(''id'', Some (JNumber (of_int (s_id row)))),
            (''studentName'', Some (JString (student_name row))),
            (''type'', Some (JString (work_type row))),
            (''title'', Some (sent (or_default (get_prop v ''title'') (JString ''Untitled'')))),
            (''description'', Some (sent (or_default (get_prop v ''description'') (JString [])))),
            (''data'', Some (sent (or_default (get_prop v ''data'') (JObject [])))),
            (''submittedAt'', Some (JString (s_created_at row))),
            (''studentId'', map_option sent (get_prop v ''studentId'')),
            (''studentEmail'', map_option sent (get_prop v ''studentEmail''))])"
  by (simp add: transform_submission_def)

lemma js_object_first_three:
  "get_prop (js_object ((''id'', Some a) # (''studentName'', Some b) # (''type'', Some c) # kvs)) ''id''
     = Some a \<and>
   get_prop (js_object ((''id'', Some a) # (''studentName'', Some b) # (''type'', Some c) # kvs))
     ''studentName'' = Some b \<and>
   get_prop (js_object ((''id'', Some a) # (''studentName'', Some b) # (''type'', Some c) # kvs))
     ''type'' = Some c"
  by (simp add: js_object_def List.map_filter_simps)

lemma transform_submission_id:
  assumes "transform_submission r = Inr j"
  shows "get_prop j ''id'' = Some (JNumber (of_int (s_id r)))"
proof -
  from assms obtain v where "JSON_parse (content r) = Inr v" "v \<noteq> JNull"
    by (auto simp: transform_submission_def split: sum.splits if_splits)
  from transform_submission_ok [OF this] assms show ?thesis
    using js_object_first_three by simp
qed

lemma select_after_create:
  assumes "req_studentName b = Val sn" "sn \<noteq> []" "req_workType b = Val wt"
    "wt \<in> set validWorkTypes" "req_content b = Val c" "c \<noteq> []"
  shows "\<exists>row.
     mset (select_submissions (fst (post_submission e b s)))
       = add_mset row (mset (select_submissions s)) \<and>
     row \<notin> set (select_submissions s) \<and>
     student_name row = sn \<and> work_type row = wt \<and> content row = c \<and>
     (\<forall>r \<in> set (select_submissions s). s_id r < s_id row)"
proof -
  define i where "i = next_rowid (submissions_seq s) (map s_id (submissions s))"
  define row where "row = \<lparr>s_id = i, student_name = sn, work_type = wt, content = c,
      s_created_at = db_now e\<rparr>"
  have s': "fst (post_submission e b s) = s\<lparr>submissions := submissions s @ [row], submissions_seq := i\<rparr>"
    using post_submission_store [OF assms] unfolding i_def row_def by simp
  have fresh: "\<forall>r \<in> set (submissions s). s_id r < i"
    unfolding i_def by (auto intro: next_rowid_fresh)
  then have "row \<notin> set (submissions s)"
    unfolding row_def by force
  with fresh show ?thesis
    by (intro exI [of _ row])
      (simp add: s' mset_select_submissions set_select_submissions, simp add: row_def)
qed

lemma listed_after_create:
  assumes f: "req_studentName b = Val sn" "sn \<noteq> []" "req_workType b = Val wt"
    "wt \<in> set validWorkTypes" "req_content b = Val c" "c \<noteq> []"
    and p: "JSON_parse c = Inr v" "v \<noteq> JNull"
    and g: "get_submissions e1 s = (s, Responded 200 (JArray js))"
    and j: "j = js_object
           [(''id'', Some (JNumber (of_int (next_rowid (submissions_seq s)
                                               (map s_id (submissions s)))))),
            (''studentName'', Some (JString sn)),
            (''type'', Some (JString wt)),
            (''title'', Some (sent (or_default (get_prop v ''title'') (JString ''Untitled'')))),
            (''description'', Some (sent (or_default (get_prop v ''description'') (JString [])))),
            (''data'', Some (sent (or_default (get_prop v ''data'') (JObject [])))),
            (''submittedAt'', Some (JString (db_now e))),
            (''studentId'', map_option sent (get_prop v ''studentId'')),
            (''studentEmail'', map_option sent (get_prop v ''studentEmail''))]"
  shows "\<exists>js'. get_submissions e2 (fst (post_submission e b s))
             = (fst (post_submission e b s), Responded 200 (JArray js')) \<and>
           mset js' = add_mset j (mset js) \<and>
           j \<notin> set js \<and>
           (\<forall>j0 \<in> set js. \<exists>i. get_prop j0 ''id'' = Some (JNumber (of_int i)) \<and>
               i < next_rowid (submissions_seq s) (map s_id (submissions s)))"
proof -
  define i where "i = next_rowid (submissions_seq s) (map s_id (submissions s))"
  define row where "row = \<lparr>s_id = i, student_name = sn, work_type = wt, content = c,
      s_created_at = db_now e\<rparr>"
  define s' where "s' = fst (post_submission e b s)"
  define t where "t = (\<lambda>r. projr (transform_submission r))"
  have s': "s' = s\<lparr>submissions := submissions s @ [row], submissions_seq := i\<rparr>"
    using post_submission_store [OF f] unfolding i_def row_def s'_def by simp
  from g have "map_throwing transform_submission (select_submissions s) = Inr js"
    by (auto simp: get_submissions_def split: sum.splits)
  from map_throwing_Inr_D [OF this]
  have old: "list_all (\<lambda>x. \<not> isl (transform_submission x)) (select_submissions s)"
    and js: "js = map t (select_submissions s)"
    unfolding t_def by simp_all
  have c: "content row = c" by (simp add: row_def)
  note tr = transform_submission_ok [of row v, unfolded c, OF p]
  have trow: "t row = j"
    unfolding t_def tr j i_def by (simp add: row_def i_def)
  have new: "\<not> isl (transform_submission row)" unfolding tr by simp
  have "set (select_submissions s') = insert row (set (select_submissions s))"
    by (simp add: s' set_select_submissions)
  with old new have all: "list_all (\<lambda>x. \<not> isl (transform_submission x)) (select_submissions s')"
    by (simp add: list_all_iff)
  have 1: "get_submissions e2 s' = (s', Responded 200 (JArray (map t (select_submissions s'))))"
    unfolding t_def by (simp add: get_submissions_def map_throwing_Inr [OF all])
  have "mset (map t (select_submissions s')) = image_mset t (mset (select_submissions s'))"
    by simp
  also have "\<dots> = image_mset t (add_mset row (mset (select_submissions s)))"
    by (simp add: s' mset_select_submissions)
  also have "\<dots> = add_mset j (mset js)"
    unfolding js trow [symmetric] by simp
  finally have 2: "mset (map t (select_submissions s')) = add_mset j (mset js)" .
  have ids: "\<exists>k. get_prop j0 ''id'' = Some (JNumber (of_int k)) \<and> k < i" if "j0 \<in> set js" for j0
  proof -
    from that obtain r where r: "r \<in> set (select_submissions s)" and j0: "j0 = t r"
      unfolding js by auto
    from old r have "\<not> isl (transform_submission r)" by (simp add: list_all_iff)
    then have "transform_submission r = Inr j0"
      unfolding j0 t_def by (cases "transform_submission r") simp_all
    then have a: "get_prop j0 ''id'' = Some (JNumber (of_int (s_id r)))"
      by (rule transform_submission_id)
    from r have "s_id r \<in> set (map s_id (submissions s))"
      by (simp add: set_select_submissions)
    then have "s_id r < i" unfolding i_def by (rule next_rowid_fresh)
    with a show ?thesis by blast
  qed
  have jid: "get_prop j ''id'' = Some (JNumber (of_int i))"
    unfolding j i_def using js_object_first_three by simp
  have 4: "j \<notin> set js"
  proof
    assume "j \<in> set js"
    from ids [OF this] jid show False by simp
  qed
  have 3: "\<forall>j0 \<in> set js. \<exists>k. get_prop j0 ''id'' = Some (JNumber (of_int k)) \<and> k < i"
    using ids by blast
  show ?thesis
    using 1 2 4 3 unfolding s'_def i_def
    by (intro exI [of _ "map t (select_submissions (fst (post_submission e b s)))"] conjI)
qed

lemma post_submission_v1_store:
  assumes "req_studentName b = Val sn" "sn \<noteq> []" "req_workType b = Val wt"
    "wt \<in> set validWorkTypes" "req_content b = Val c" "c \<noteq> []"
  shows "fst (post_submission_v1 e b s) =
     s\<lparr>submissions :=
          submissions s @
            [\<lparr>s_id = next_rowid (submissions_seq s) (map s_id (submissions s)),
              student_name = sn, work_type = wt, content = c, s_created_at = db_now e\<rparr>],
        submissions_seq := next_rowid (submissions_seq s) (map s_id (submissions s))\<rparr>"
proof -
  have wt: "wt \<noteq> []" using assms(4) by (auto simp: validWorkTypes_def)
  show ?thesis
    using assms wt
    by (simp add: post_submission_v1_def insert_submission_result)
qed

lemma listed_v1_after_create:
  assumes f: "req_studentName b = Val sn" "sn \<noteq> []" "req_workType b = Val wt"
    "wt \<in> set validWorkTypes" "req_content b = Val c" "c \<noteq> []"
    and r: "row = \<lparr>s_id = next_rowid (submissions_seq s) (map s_id (submissions s)),
                 student_name = sn, work_type = wt, content = c, s_created_at = db_now e\<rparr>"
  shows "\<exists>rows'. get_submissions_v1 e2 (fst (post_submission_v1 e b s))
            = (fst (post_submission_v1 e b s),
               Responded 200
                 (JObject
                   [(''success'', JBool True),
                    (''data'', JArray (map submission_object rows')),
                    (''count'', JNumber (of_nat (length (select_submissions s)) + 1))])) \<and>
           mset rows' = add_mset row (mset (select_submissions s)) \<and>
           row \<notin> set (select_submissions s) \<and>
           (\<forall>r0 \<in> set (select_submissions s). s_id r0 < s_id row)"
proof -
  define s' where "s' = fst (post_submission_v1 e b s)"
  have s': "s' = s\<lparr>submissions := submissions s @ [row], submissions_seq := s_id row\<rparr>"
    using post_submission_v1_store [OF f] unfolding r s'_def by simp
  have "size (mset (select_submissions s')) = size (mset (select_submissions s)) + 1"
    unfolding mset_select_submissions by (simp add: s')
  then have len: "length (select_submissions s') = length (select_submissions s) + 1"
    by simp
  have 1: "get_submissions_v1 e2 s'
            = (s', Responded 200
                 (JObject
                   [(''success'', JBool True),
                    (''data'', JArray (map submission_object (select_submissions s'))),
                    (''count'', JNumber (of_nat (length (select_submissions s)) + 1))]))"
    by (simp add: get_submissions_v1_def len)
  have 2: "mset (select_submissions s') = add_mset row (mset (select_submissions s))"
    by (simp add: mset_select_submissions s')
  have fresh: "\<forall>r0 \<in> set (select_submissions s). s_id r0 < s_id row"
    unfolding r set_select_submissions by (auto intro: next_rowid_fresh)
  then have 3: "row \<notin> set (select_submissions s)" by force
  show ?thesis
    using 1 2 3 fresh unfolding s'_def
    by (intro exI [of _ "select_submissions (fst (post_submission_v1 e b s))"] conjI)
qed

lemma post_jane_empty:
  \<open>fst (post_submission env0 jane empty_store) =
     \<lparr>submissions =
         [\<lparr>s_id = 1, student_name = ''Jane'', work_type = ''room_request'',
           content = ''{"title":"Need AC"}'', s_created_at = ''2025-01-01 00:00:05''\<rparr>],
       submissions_seq = 1, rooms = [], rooms_seq = 0\<rparr>\<close>
  by (simp add: post_submission_def jane_def validWorkTypes_def insert_submission_def
      empty_store_def next_rowid_def env0_def JSON_parse_need_ac Let_def)

subsection \<open>Create, then list\<close>

text \<open>
  C1, as the code has it. Take a request whose \<open>studentName\<close> and \<open>content\<close> are
  non-empty text and whose \<open>workType\<close> is one of the three legal values. After
  \<open>POST /api/submissions\<close> has handled it, the rows that the listing query
  (\<open>SELECT * FROM submissions ORDER BY created_at DESC\<close>) returns are the rows it
  returned before and exactly one more. The new row holds the request's \<open>studentName\<close>,
  \<open>workType\<close> and \<open>content\<close>, and its id is greater than the id of every row that was
  there before. This is so for every content.

  \<open>GET /api/submissions\<close> does not send the rows but a record made of each: when the
  content is JSON other than \<open>null\<close> and the listing answered with an array before, it
  answers afterwards with the elements of that array and exactly one more. The new
  element is not among the earlier ones, whose ids are all smaller than its id. It
  carries the new id, the request's \<open>studentName\<close>, its \<open>workType\<close> as \<open>type\<close>, the creation
  time of the database as \<open>submittedAt\<close>, and in place of the content the \<open>title\<close>,
  \<open>description\<close>, \<open>data\<close>, \<open>studentId\<close> and \<open>studentEmail\<close> read from the parsed content,
  the first three with a default.

  The server with the detailed error reports lists the stored rows themselves: there
  the listing after the creation holds the earlier rows and the new row, with the
  content as the request gave it, for every content.
\<close>

theorem create_then_list_submission:
  assumes "req_studentName b = Val sn" "sn \<noteq> []" "req_workType b = Val wt"
    "wt \<in> set validWorkTypes" "req_content b = Val c" "c \<noteq> []"
  shows "(\<exists>row.
            mset (select_submissions (fst (post_submission e b s)))
              = add_mset row (mset (select_submissions s)) \<and>
            row \<notin> set (select_submissions s) \<and>
            student_name row = sn \<and> work_type row = wt \<and> content row = c \<and>
            (\<forall>r \<in> set (select_submissions s). s_id r < s_id row)) \<and>
         (JSON_parse c = Inr v \<and> v \<noteq> JNull \<and>
          get_submissions e1 s = (s, Responded 200 (JArray js)) \<longrightarrow>
            (\<exists>j js'.
               j = js_object
                     [(''id'', Some (JNumber (of_int (next_rowid (submissions_seq s)
                                                         (map s_id (submissions s)))))),
                      (''studentName'', Some (JString sn)),
                      (''type'', Some (JString wt)),
                      (''title'',
                       Some (sent (or_default (get_prop v ''title'') (JString ''Untitled'')))),
                      (''description'',
                       Some (sent (or_default (get_prop v ''description'') (JString [])))),
                      (''data'', Some (sent (or_default (get_prop v ''data'') (JObject [])))),
                      (''submittedAt'', Some (JString (db_now e))),
                      (''studentId'', map_option sent (get_prop v ''studentId'')),
                      (''studentEmail'', map_option sent (get_prop v ''studentEmail''))] \<and>
               get_submissions e2 (fst (post_submission e b s))
                 = (fst (post_submission e b s), Responded 200 (JArray js')) \<and>
               mset js' = add_mset j (mset js) \<and>
               j \<notin> set js \<and>
               (\<forall>j0 \<in> set js.
                  \<exists>i. get_prop j0 ''id'' = Some (JNumber (of_int i)) \<and>
                      i < next_rowid (submissions_seq s) (map s_id (submissions s))))) \<and>
         (\<exists>row rows'.
            row = \<lparr>s_id = next_rowid (submissions_seq s) (map s_id (submissions s)),
                    student_name = sn, work_type = wt, content = c, s_created_at = db_now e\<rparr> \<and>
            get_submissions_v1 e2 (fst (post_submission_v1 e b s))
              = (fst (post_submission_v1 e b s),
                 Responded 200
                   (JObject
                     [(''success'', JBool True),
                      (''data'', JArray (map submission_object rows')),
                      (''count'', JNumber (of_nat (length (select_submissions s)) + 1))])) \<and>
            mset rows' = add_mset row (mset (select_submissions s)) \<and>
            row \<notin> set (select_submissions s) \<and>
            (\<forall>r0 \<in> set (select_submissions s). s_id r0 < s_id row))"
proof (intro conjI impI)
  show "\<exists>row.
            mset (select_submissions (fst (post_submission e b s)))
              = add_mset row (mset (select_submissions s)) \<and>
            row \<notin> set (select_submissions s) \<and>
            student_name row = sn \<and> work_type row = wt \<and> content row = c \<and>
            (\<forall>r \<in> set (select_submissions s). s_id r < s_id row)"
    using assms by (rule select_after_create)
next
  assume a: "JSON_parse c = Inr v \<and> v \<noteq> JNull \<and>
          get_submissions e1 s = (s, Responded 200 (JArray js))"
  then have p: "JSON_parse c = Inr v" and n: "v \<noteq> JNull"
    and g: "get_submissions e1 s = (s, Responded 200 (JArray js))"
    by simp_all
  from listed_after_create [OF assms p n g refl, where e = e and ?e2.0 = e2]
  show "\<exists>j js'.
               j = js_object
                     [(''id'', Some (JNumber (of_int (next_rowid (submissions_seq s)
                                                         (map s_id (submissions s)))))),
                      (''studentName'', Some (JString sn)),
                      (''type'', Some (JString wt)),
                      (''title'',
                       Some (sent (or_default (get_prop v ''title'') (JString ''Untitled'')))),
                      (''description'',
                       Some (sent (or_default (get_prop v ''description'') (JString [])))),
                      (''data'', Some (sent (or_default (get_prop v ''data'') (JObject [])))),
                      (''submittedAt'', Some (JString (db_now e))),
                      (''studentId'', map_option sent (get_prop v ''studentId'')),
                      (''studentEmail'', map_option sent (get_prop v ''studentEmail''))] \<and>
               get_submissions e2 (fst (post_submission e b s))
                 = (fst (post_submission e b s), Responded 200 (JArray js')) \<and>
               mset js' = add_mset j (mset js) \<and>
               j \<notin> set js \<and>
               (\<forall>j0 \<in> set js.
                  \<exists>i. get_prop j0 ''id'' = Some (JNumber (of_int i)) \<and>
                      i < next_rowid (submissions_seq s) (map s_id (submissions s)))"
    by (elim exE conjE, intro exI conjI) (rule refl, assumption+)
next
  from listed_v1_after_create [OF assms refl, where e = e and ?e2.0 = e2 and s = s]
  show "\<exists>row rows'.
            row = \<lparr>s_id = next_rowid (submissions_seq s) (map s_id (submissions s)),
                    student_name = sn, work_type = wt, content = c, s_created_at = db_now e\<rparr> \<and>
            get_submissions_v1 e2 (fst (post_submission_v1 e b s))
              = (fst (post_submission_v1 e b s),
                 Responded 200
                   (JObject
                     [(''success'', JBool True),
                      (''data'', JArray (map submission_object rows')),
                      (''count'', JNumber (of_nat (length (select_submissions s)) + 1))])) \<and>
            mset rows' = add_mset row (mset (select_submissions s)) \<and>
            row \<notin> set (select_submissions s) \<and>
            (\<forall>r0 \<in> set (select_submissions s). s_id r0 < s_id row)"
    by (elim exE conjE, intro exI conjI) (rule refl, assumption+)
qed

text \<open>
  The listing after a creation need not yield a sequence, and a listed record does not
  hold the content. With the content \<open>hello\<close> the creation throws after its insert, and
  the listing throws from then on; with the content \<open>null\<close> the creation answers and the
  listing throws; with the content \<open>{"title":"Need AC"}\<close> the listed record has a title
  and no content.
\<close>

theorem create_then_list_submission_counterexample:
  \<open>post_submission env0 jane_plain empty_store =
     (\<lparr>submissions =
         [\<lparr>s_id = 1, student_name = ''Jane'', work_type = ''report'', content = ''hello'',
           s_created_at = ''2025-01-01 00:00:05''\<rparr>],
       submissions_seq = 1, rooms = [], rooms_seq = 0\<rparr>,
      Threw SyntaxError) \<and>
   get_submissions env0
     \<lparr>submissions =
        [\<lparr>s_id = 1, student_name = ''Jane'', work_type = ''report'', content = ''hello'',
          s_created_at = ''2025-01-01 00:00:05''\<rparr>],
      submissions_seq = 1, rooms = [], rooms_seq = 0\<rparr> =
     (\<lparr>submissions =
         [\<lparr>s_id = 1, student_name = ''Jane'', work_type = ''report'', content = ''hello'',
           s_created_at = ''2025-01-01 00:00:05''\<rparr>],
       submissions_seq = 1, rooms = [], rooms_seq = 0\<rparr>,
      Threw SyntaxError) \<and>
   post_submission env0 jane_null empty_store =
     (\<lparr>submissions =
         [\<lparr>s_id = 1, student_name = ''Jane'', work_type = ''report'', content = ''null'',
           s_created_at = ''2025-01-01 00:00:05''\<rparr>],
       submissions_seq = 1, rooms = [], rooms_seq = 0\<rparr>,
      Responded 200
        (JObject
          [(''success'', JBool True),
           (''data'',
            JObject
              [(''id'', JNumber 1),
               (''studentName'', JString ''Jane''),
               (''workType'', JString ''report''),
               (''content'', JNull),
               (''submittedAt'', JString ''2025-01-01T00:00:05.000Z'')]),
           (''message'', JString ''Submission saved successfully'')])) \<and>
   get_submissions env0
     \<lparr>submissions =
        [\<lparr>s_id = 1, student_name = ''Jane'', work_type = ''report'', content = ''null'',
          s_created_at = ''2025-01-01 00:00:05''\<rparr>],
      submissions_seq = 1, rooms = [], rooms_seq = 0\<rparr> =
     (\<lparr>submissions =
         [\<lparr>s_id = 1, student_name = ''Jane'', work_type = ''report'', content = ''null'',
           s_created_at = ''2025-01-01 00:00:05''\<rparr>],
       submissions_seq = 1, rooms = [], rooms_seq = 0\<rparr>,
      Threw TypeError) \<and>
   get_submissions env0
     \<lparr>submissions =
        [\<lparr>s_id = 1, student_name = ''Jane'', work_type = ''room_request'',
          content = ''{"title":"Need AC"}'', s_created_at = ''2025-01-01 00:00:05''\<rparr>],
      submissions_seq = 1, rooms = [], rooms_seq = 0\<rparr> =
     (\<lparr>submissions =
         [\<lparr>s_id = 1, student_name = ''Jane'', work_type = ''room_request'',
           content = ''{"title":"Need AC"}'', s_created_at = ''2025-01-01 00:00:05''\<rparr>],
       submissions_seq = 1, rooms = [], rooms_seq = 0\<rparr>,
      Responded 200
        (JArray
          [JObject
             [(''id'', JNumber 1),
              (''studentName'', JString ''Jane''),
              (''type'', JString ''room_request''),
              (''title'', JString ''Need AC''),
              (''description'', JString []),
              (''data'', JObject []),
              (''submittedAt'', JString ''2025-01-01 00:00:05'')]]))\<close>
  by (simp add: post_submission_def get_submissions_def select_submissions_def
      transform_submission_def jane_plain_def jane_null_def validWorkTypes_def
      insert_submission_def empty_store_def next_rowid_def env0_def JSON_parse_hello
      JSON_parse_null JSON_parse_need_ac js_object_def List.map_filter_simps Let_def)

theorem create_then_list_submission_witness:
  \<open>(\<exists>row.
     mset (select_submissions
            (fst (post_submission env0 jane (fst (post_submission env0 jane empty_store)))))
       = add_mset row (mset (select_submissions (fst (post_submission env0 jane empty_store)))) \<and>
     student_name row = ''Jane'' \<and> work_type row = ''room_request'' \<and>
     content row = ''{"title":"Need AC"}'' \<and> 1 < s_id row) \<and>
   (\<exists>js'.
     get_submissions env0
       (fst (post_submission env0 jane (fst (post_submission env0 jane empty_store))))
       = (fst (post_submission env0 jane (fst (post_submission env0 jane empty_store))),
          Responded 200 (JArray js')) \<and>
     mset js' =
       {#JObject
           [(''id'', JNumber 2),
            (''studentName'', JString ''Jane''),
            (''type'', JString ''room_request''),
            (''title'', JString ''Need AC''),
            (''description'', JString []),
            (''data'', JObject []),
            (''submittedAt'', JString ''2025-01-01 00:00:05'')],
         JObject
           [(''id'', JNumber 1),
            (''studentName'', JString ''Jane''),
            (''type'', JString ''room_request''),
            (''title'', JString ''Need AC''),
            (''description'', JString []),
            (''data'', JObject []),
            (''submittedAt'', JString ''2025-01-01 00:00:05'')]#})\<close>
proof -
  define s1 where "s1 = fst (post_submission env0 jane empty_store)"
  define j1 where "j1 = JObject
           [(''id'', JNumber 1),
            (''studentName'', JString ''Jane''),
            (''type'', JString ''room_request''),
            (''title'', JString ''Need AC''),
            (''description'', JString []),
            (''data'', JObject []),
            (''submittedAt'', JString ''2025-01-01 00:00:05'')]"
  have s1: \<open>s1 = \<lparr>submissions =
         [\<lparr>s_id = 1, student_name = ''Jane'', work_type = ''room_request'',
           content = ''{"title":"Need AC"}'', s_created_at = ''2025-01-01 00:00:05''\<rparr>],
       submissions_seq = 1, rooms = [], rooms_seq = 0\<rparr>\<close>
    unfolding s1_def by (rule post_jane_empty)
  have v: "''room_request'' \<in> set validWorkTypes" by (simp add: validWorkTypes_def)
  have n: \<open>''Jane'' \<noteq> []\<close> \<open>''{"title":"Need AC"}'' \<noteq> []\<close> by simp_all
  have f: \<open>req_studentName jane = Val ''Jane''\<close> \<open>req_workType jane = Val ''room_request''\<close>
    \<open>req_content jane = Val ''{"title":"Need AC"}''\<close>
    by (simp_all add: jane_def)
  note t = create_then_list_submission [OF f(1) n(1) f(2) v f(3) n(2), where e = env0
      and s = s1 and v = "JObject [(''title'', JString ''Need AC'')]" and ?e1.0 = env0
      and js = "[j1]" and ?e2.0 = env0]
  from t [THEN conjunct1]
  obtain row where row: \<open>mset (select_submissions (fst (post_submission env0 jane s1)))
       = add_mset row (mset (select_submissions s1))\<close>
     \<open>student_name row = ''Jane''\<close> \<open>work_type row = ''room_request''\<close>
     \<open>content row = ''{"title":"Need AC"}''\<close>
     \<open>\<forall>r \<in> set (select_submissions s1). s_id r < s_id row\<close>
    by (elim exE conjE)
  from row(5) have "1 < s_id row"
    by (simp add: s1 select_submissions_def)
  with row(1-4) have A: \<open>\<exists>row.
     mset (select_submissions (fst (post_submission env0 jane s1)))
       = add_mset row (mset (select_submissions s1)) \<and>
     student_name row = ''Jane'' \<and> work_type row = ''room_request'' \<and>
     content row = ''{"title":"Need AC"}'' \<and> 1 < s_id row\<close>
    by (intro exI [of _ row] conjI)
  have g: "get_submissions env0 s1 = (s1, Responded 200 (JArray [j1]))"
    unfolding s1 j1_def
    by (simp add: get_submissions_def select_submissions_def transform_submission_def
        JSON_parse_need_ac js_object_def List.map_filter_simps)
  have h: \<open>JSON_parse ''{"title":"Need AC"}'' = Inr (JObject [(''title'', JString ''Need AC'')]) \<and>
     JObject [(''title'', JString ''Need AC'')] \<noteq> JNull \<and>
     get_submissions env0 s1 = (s1, Responded 200 (JArray [j1]))\<close>
    using g by (simp add: JSON_parse_need_ac)
  from t [THEN conjunct2, THEN conjunct1, THEN mp, OF h]
  obtain j js' where j: "j = js_object
                     [(''id'', Some (JNumber (of_int (next_rowid (submissions_seq s1)
                                                         (map s_id (submissions s1)))))),
                      (''studentName'', Some (JString ''Jane'')),
                      (''type'', Some (JString ''room_request'')),
                      (''title'',
                       Some (sent (or_default (get_prop (JObject [(''title'', JString ''Need AC'')]) ''title'') (JString ''Untitled'')))),
                      (''description'',
                       Some (sent (or_default (get_prop (JObject [(''title'', JString ''Need AC'')]) ''description'') (JString [])))),
                      (''data'', Some (sent (or_default (get_prop (JObject [(''title'', JString ''Need AC'')]) ''data'') (JObject [])))),
                      (''submittedAt'', Some (JString (db_now env0))),
                      (''studentId'', map_option sent (get_prop (JObject [(''title'', JString ''Need AC'')]) ''studentId'')),
                      (''studentEmail'', map_option sent (get_prop (JObject [(''title'', JString ''Need AC'')]) ''studentEmail''))]"
    and l: "get_submissions env0 (fst (post_submission env0 jane s1))
                 = (fst (post_submission env0 jane s1), Responded 200 (JArray js'))"
    and m: "mset js' = add_mset j (mset [j1])"
    by (elim exE conjE)
  have "j = JObject
           [(''id'', JNumber 2),
            (''studentName'', JString ''Jane''),
            (''type'', JString ''room_request''),
            (''title'', JString ''Need AC''),
            (''description'', JString []),
            (''data'', JObject []),
            (''submittedAt'', JString ''2025-01-01 00:00:05'')]"
    unfolding j s1 by (simp add: js_object_def List.map_filter_simps next_rowid_def env0_def)
  with m have "mset js' =
       {#JObject
           [(''id'', JNumber 2),
            (''studentName'', JString ''Jane''),
            (''type'', JString ''room_request''),
            (''title'', JString ''Need AC''),
            (''description'', JString []),
            (''data'', JObject []),
            (''submittedAt'', JString ''2025-01-01 00:00:05'')], j1#}"
    by simp
  with l have B: "\<exists>js'.
     get_submissions env0 (fst (post_submission env0 jane s1))
       = (fst (post_submission env0 jane s1), Responded 200 (JArray js')) \<and>
     mset js' =
       {#JObject
           [(''id'', JNumber 2),
            (''studentName'', JString ''Jane''),
            (''type'', JString ''room_request''),
            (''title'', JString ''Need AC''),
            (''description'', JString []),
            (''data'', JObject []),
            (''submittedAt'', JString ''2025-01-01 00:00:05'')], j1#}"
    by (intro exI [of _ js'] conjI)
  from A B show ?thesis unfolding s1_def j1_def by (rule conjI)
qed

subsection \<open>Content that is not JSON\<close>

text \<open>
  C10. When \<open>studentName\<close> is present and non-empty, \<open>workType\<close> is legal and \<open>content\<close>
  is non-empty text that \<open>JSON.parse\<close> rejects, \<open>POST /api/submissions\<close> still inserts
  the row, and then throws a \<open>SyntaxError\<close> while it builds the response
  (\<open>JSON.parse(content)\<close> comes after the insert): the table has one row more, and no
  response, in particular no success response, is sent. The operation is not atomic
  on this error.
\<close>

theorem invalid_content_inserted:
  assumes "req_studentName b = Val sn" "sn \<noteq> []" "req_workType b = Val wt"
    "wt \<in> set validWorkTypes" "req_content b = Val c" "c \<noteq> []"
    and "isl (JSON_parse c)"
  shows "post_submission e b s =
           (s\<lparr>submissions :=
                submissions s @
                  [\<lparr>s_id = next_rowid (submissions_seq s) (map s_id (submissions s)),
                    student_name = sn, work_type = wt, content = c,
                    s_created_at = db_now e\<rparr>],
              submissions_seq := next_rowid (submissions_seq s) (map s_id (submissions s))\<rparr>,
            Threw SyntaxError) \<and>
         length (submissions (fst (post_submission e b s))) = length (submissions s) + 1"
proof -
  have wt: "wt \<noteq> []" using assms(4) by (rule valid_not_Nil)
  from assms(7) obtain x where x: "JSON_parse c = Inl x" by (cases "JSON_parse c") auto
  then have "x = SyntaxError" by (rule JSON_parse_error)
  with x assms wt show ?thesis
    by (simp add: post_submission_def insert_submission_result)
qed

theorem invalid_content_inserted_witness:
  "isl (JSON_parse ''hello'') \<and>
   post_submission env0 jane_plain empty_store =
     (\<lparr>submissions =
         [\<lparr>s_id = 1, student_name = ''Jane'', work_type = ''report'', content = ''hello'',
           s_created_at = ''2025-01-01 00:00:05''\<rparr>],
       submissions_seq = 1, rooms = [], rooms_seq = 0\<rparr>,
      Threw SyntaxError) \<and>
   length (submissions (fst (post_submission env0 jane_plain empty_store))) = 1"
proof -
  have h: "isl (JSON_parse ''hello'')" by (simp add: JSON_parse_hello)
  have v: "''report'' \<in> set validWorkTypes" by (simp add: validWorkTypes_def)
  have n: "''Jane'' \<noteq> []" "''hello'' \<noteq> []" by simp_all
  have f: "req_studentName jane_plain = Val ''Jane''" "req_workType jane_plain = Val ''report''"
    "req_content jane_plain = Val ''hello''"
    by (simp_all add: jane_plain_def)
  show ?thesis
    using h invalid_content_inserted [OF f(1) n(1) f(2) v f(3) n(2) h, of env0 empty_store]
    by (simp add: empty_store_def env0_def next_rowid_def)
qed

subsection \<open>The response to a created submission\<close>

text \<open>
  C7, as the code has it. For a request that passes validation and whose content is
  JSON, \<open>POST /api/submissions\<close> succeeds and answers with the id that the database
  assigned and the \<open>studentName\<close> and \<open>workType\<close> that it stored, but with the content
  parsed from the request's text and with a time stamp that the handler reads from its
  own clock: the response is built from the request, and the stored \<open>created_at\<close> is
  not in it. The parsed content is the value that \<open>JSON.parse\<close> reads and \<open>res.json\<close>
  writes back: its numbers are doubles, and a number too large for a double is sent as
  \<open>null\<close>. The server with the detailed error reports answers such a request, for any
  content, with the stored row itself, read back by its id.
\<close>

theorem created_submission_response:
  assumes "req_studentName b = Val sn" "sn \<noteq> []" "req_workType b = Val wt"
    "wt \<in> set validWorkTypes" "req_content b = Val c" "c \<noteq> []"
    and "row = \<lparr>s_id = next_rowid (submissions_seq s) (map s_id (submissions s)),
                 student_name = sn, work_type = wt, content = c, s_created_at = db_now e\<rparr>"
    and "s' = s\<lparr>submissions := submissions s @ [row], submissions_seq := s_id row\<rparr>"
  shows "(JSON_parse c = Inr v \<longrightarrow>
            post_submission e b s =
              (s', Responded 200
                     (JObject
                       [(''success'', JBool True),
                        (''data'',
                         JObject
                           [(''id'', JNumber (of_int (s_id row))),
                            (''studentName'', JString (student_name row)),
                            (''workType'', JString (work_type row)),
                            (''content'', sent v),
                            (''submittedAt'', JString (js_now e))]),
                        (''message'', JString ''Submission saved successfully'')]))) \<and>
         post_submission_v1 e b s =
           (s', Responded 201
                  (JObject [(''success'', JBool True), (''data'', submission_object row)])) \<and>
         returns_stored_record (post_submission_v1 e b s)"
proof -
  have wt: "wt \<noteq> []" using assms(4) by (rule valid_not_Nil)
  have sel: "select_submission (s_id row) s' = Some row"
    unfolding assms(7) assms(8) by (simp add: select_submission_new)
  have v3: "JSON_parse c = Inr v \<longrightarrow>
            post_submission e b s =
              (s', Responded 200
                     (JObject
                       [(''success'', JBool True),
                        (''data'',
                         JObject
                           [(''id'', JNumber (of_int (s_id row))),
                            (''studentName'', JString (student_name row)),
                            (''workType'', JString (work_type row)),
                            (''content'', sent v),
                            (''submittedAt'', JString (js_now e))]),
                        (''message'', JString ''Submission saved successfully'')]))"
    using assms wt
    by (simp add: post_submission_def insert_submission_result)
  have v1: "post_submission_v1 e b s =
           (s', Responded 201
                  (JObject [(''success'', JBool True), (''data'', submission_object row)]))"
    using assms(1-6) wt sel unfolding assms(7) assms(8)
    by (simp add: post_submission_v1_def insert_submission_result js_object_def
        List.map_filter_simps)
  have "row \<in> set (submissions s')" unfolding assms(8) by simp
  then have "returns_stored_record (post_submission_v1 e b s)"
    unfolding v1 by (auto simp: returns_stored_record_def stored_record_objects_def list_ex_iff)
  with v3 v1 show ?thesis by blast
qed

text \<open>
  The response to a created submission is not the stored record: for the request below
  the stored row has the content as text and the creation time of the database, the
  response data the parsed content and the time of the handler's clock.
\<close>

theorem created_submission_response_counterexample:
  \<open>post_submission env0 jane empty_store =
     (\<lparr>submissions =
         [\<lparr>s_id = 1, student_name = ''Jane'', work_type = ''room_request'',
           content = ''{"title":"Need AC"}'', s_created_at = ''2025-01-01 00:00:05''\<rparr>],
       submissions_seq = 1, rooms = [], rooms_seq = 0\<rparr>,
      Responded 200
        (JObject
          [(''success'', JBool True),
           (''data'',
            JObject
              [(''id'', JNumber 1),
               (''studentName'', JString ''Jane''),
               (''workType'', JString ''room_request''),
               (''content'', JObject [(''title'', JString ''Need AC'')]),
               (''submittedAt'', JString ''2025-01-01T00:00:05.000Z'')]),
           (''message'', JString ''Submission saved successfully'')])) \<and>
   \<not> returns_stored_record (post_submission env0 jane empty_store)\<close>
proof -
  have p: \<open>JSON_parse ''{"title":"Need AC"}'' = Inr (JObject [(''title'', JString ''Need AC'')])\<close>
    by code_simp
  have r: \<open>post_submission env0 jane empty_store =
     (\<lparr>submissions =
         [\<lparr>s_id = 1, student_name = ''Jane'', work_type = ''room_request'',
           content = ''{"title":"Need AC"}'', s_created_at = ''2025-01-01 00:00:05''\<rparr>],
       submissions_seq = 1, rooms = [], rooms_seq = 0\<rparr>,
      Responded 200
        (JObject
          [(''success'', JBool True),
           (''data'',
            JObject
              [(''id'', JNumber 1),
               (''studentName'', JString ''Jane''),
               (''workType'', JString ''room_request''),
               (''content'', JObject [(''title'', JString ''Need AC'')]),
               (''submittedAt'', JString ''2025-01-01T00:00:05.000Z'')]),
           (''message'', JString ''Submission saved successfully'')]))\<close>
    by (simp add: post_submission_def jane_def validWorkTypes_def insert_submission_def
        empty_store_def next_rowid_def env0_def p Let_def)
  show ?thesis
    unfolding r by (simp add: returns_stored_record_def stored_record_objects_def submission_object_def)
qed

theorem created_submission_response_witness:
  \<open>post_submission env0 jane empty_store =
     (\<lparr>submissions =
         [\<lparr>s_id = 1, student_name = ''Jane'', work_type = ''room_request'',
           content = ''{"title":"Need AC"}'', s_created_at = ''2025-01-01 00:00:05''\<rparr>],
       submissions_seq = 1, rooms = [], rooms_seq = 0\<rparr>,
      Responded 200
        (JObject
          [(''success'', JBool True),
           (''data'',
            JObject
              [(''id'', JNumber 1),
               (''studentName'', JString ''Jane''),
               (''workType'', JString ''room_request''),
               (''content'', JObject [(''title'', JString ''Need AC'')]),
               (''submittedAt'', JString ''2025-01-01T00:00:05.000Z'')]),
           (''message'', JString ''Submission saved successfully'')])) \<and>
   post_submission_v1 env0 jane empty_store =
     (\<lparr>submissions =
         [\<lparr>s_id = 1, student_name = ''Jane'', work_type = ''room_request'',
           content = ''{"title":"Need AC"}'', s_created_at = ''2025-01-01 00:00:05''\<rparr>],
       submissions_seq = 1, rooms = [], rooms_seq = 0\<rparr>,
      Responded 201
        (JObject
          [(''success'', JBool True),
           (''data'',
            JObject
              [(''id'', JNumber 1),
               (''student_name'', JString ''Jane''),
               (''work_type'', JString ''room_request''),
               (''content'', JString ''{"title":"Need AC"}''),
               (''created_at'', JString ''2025-01-01 00:00:05'')])]))\<close>
proof -
  have p: \<open>JSON_parse ''{"title":"Need AC"}'' = Inr (JObject [(''title'', JString ''Need AC'')])\<close>
    by code_simp
  have v: "''room_request'' \<in> set validWorkTypes" by (simp add: validWorkTypes_def)
  have n: \<open>''Jane'' \<noteq> []\<close> \<open>''{"title":"Need AC"}'' \<noteq> []\<close> by simp_all
  have f: \<open>req_studentName jane = Val ''Jane''\<close> \<open>req_workType jane = Val ''room_request''\<close>
    \<open>req_content jane = Val ''{"title":"Need AC"}''\<close>
    by (simp_all add: jane_def)
  show ?thesis
    using created_submission_response [OF f(1) n(1) f(2) v f(3) n(2) refl refl,
        where s = empty_store and e = env0 and v = "JObject [(''title'', JString ''Need AC'')]"] p
    by (simp add: empty_store_def env0_def next_rowid_def submission_object_def)
qed

text \<open>
  A number in the content that is too large for a double is read as \<open>Infinity\<close> and sent
  as \<open>null\<close>.
\<close>

lemma post_submission_huge_number:
  "post_submission env0 jane_huge empty_store =
     (\<lparr>submissions =
         [\<lparr>s_id = 1, student_name = ''Jane'', work_type = ''report'', content = ''1e400'',
           s_created_at = ''2025-01-01 00:00:05''\<rparr>],
       submissions_seq = 1, rooms = [], rooms_seq = 0\<rparr>,
      Responded 200
        (JObject
          [(''success'', JBool True),
           (''data'',
            JObject
              [(''id'', JNumber 1),
               (''studentName'', JString ''Jane''),
               (''workType'', JString ''report''),
               (''content'', JNull),
               (''submittedAt'', JString ''2025-01-01T00:00:05.000Z'')]),
           (''message'', JString ''Submission saved successfully'')]))"
  by (simp add: post_submission_def jane_huge_def validWorkTypes_def insert_submission_def
      empty_store_def next_rowid_def env0_def JSON_parse_1e400 Let_def)

subsection \<open>Validation\<close>

text \<open>
  C4, as the code has it. A request whose \<open>workType\<close> is not one of \<open>room_request\<close>,
  \<open>report\<close>, \<open>financial_report\<close> is answered with status 400 and the database is left
  as it was. When \<open>studentName\<close>, \<open>workType\<close> and \<open>content\<close> are all present and
  non-empty, the error text is that of the work type check, which ends with exactly the
  three legal values. (Otherwise the check for missing fields, which comes first,
  answers.)
\<close>

theorem invalid_work_type:
  assumes "text_of (req_workType b) \<notin> set validWorkTypes"
  shows "\<exists>msg. post_submission e b s = (s, Responded 400 (failure msg)) \<and>
           (truthy_text (req_studentName b) \<and> truthy_text (req_workType b)
              \<and> truthy_text (req_content b) \<longrightarrow>
            msg = ''Invalid work type: '' @ text_of (req_workType b)
                  @ ''. Valid types: room_request, report, financial_report'' \<and>
            enumerates_valid_types (failure msg))"
proof (cases "truthy_text (req_studentName b) \<and> truthy_text (req_workType b)
    \<and> truthy_text (req_content b)")
  case True
  have "enumerates_valid_types (failure (''Invalid work type: '' @ text_of (req_workType b)
                  @ ''. Valid types: room_request, report, financial_report''))"
    by (simp add: enumerates_valid_types_def failure_def join_validWorkTypes)
  with True assms show ?thesis
    by (simp add: post_submission_invalid)
next
  case False
  then show ?thesis
    by (auto simp: post_submission_missing)
qed

text \<open>
  A request with the work type \<open>bogus\<close> and no \<open>studentName\<close> is answered by the check
  for missing fields, whose text does not enumerate the legal values.
\<close>

theorem invalid_work_type_counterexample:
  "text_of (req_workType bogus_unnamed) \<notin> set validWorkTypes \<and>
   post_submission env0 bogus_unnamed empty_store =
     (empty_store,
      Responded 400 (failure ''Missing required fields: studentName, workType, content'')) \<and>
   \<not> enumerates_valid_types
        (failure ''Missing required fields: studentName, workType, content'')"
  by (simp add: bogus_unnamed_def validWorkTypes_def post_submission_def
      enumerates_valid_types_def failure_def)

theorem invalid_work_type_witness:
  "post_submission env0 bogus empty_store =
     (empty_store,
      Responded 400
        (failure ''Invalid work type: bogus. Valid types: room_request, report, financial_report''))"
proof -
  have h: "text_of (req_workType bogus) \<notin> set validWorkTypes"
    by (simp add: bogus_def validWorkTypes_def)
  show ?thesis
    using invalid_work_type [OF h, of env0 empty_store]
    by (auto simp: bogus_def)
qed

lemma absent_fields_Nil:
  "absent_fields b = [] \<longleftrightarrow>
     truthy_text (req_studentName b) \<and> truthy_text (req_workType b) \<and> truthy_text (req_content b)"
  by (simp add: absent_fields_def)

text \<open>
  C8, as the code has it. A request in which \<open>studentName\<close>, \<open>workType\<close> or \<open>content\<close>
  is missing, \<open>null\<close> or empty is answered with status 400 and the database is left as
  it was. The error text is fixed: it names all three required fields, whichever of
  them were absent. The server with the detailed error reports sends the same text and
  adds \<open>received\<close>, which tells for each field whether it was present.
\<close>

theorem missing_field_response:
  assumes "absent_fields b \<noteq> []"
  shows "post_submission e b s =
           (s, Responded 400
                 (failure ''Missing required fields: studentName, workType, content'')) \<and>
         names_in_error (failure ''Missing required fields: studentName, workType, content'')
           = [''studentName'', ''workType'', ''content''] \<and>
         post_submission_v1 e b s =
           (s, Responded 400
                 (JObject
                   [(''success'', JBool False),
                    (''error'', JString ''Missing required fields: studentName, workType, content''),
                    (''received'',
                     JObject
                       [(''studentName'', JBool (''studentName'' \<notin> set (absent_fields b))),
                        (''workType'', JBool (''workType'' \<notin> set (absent_fields b))),
                        (''content'', JBool (''content'' \<notin> set (absent_fields b)))])]))"
proof -
  from assms have m: "\<not> truthy_text (req_studentName b) \<or> \<not> truthy_text (req_workType b)
     \<or> \<not> truthy_text (req_content b)"
    by (simp add: absent_fields_Nil)
  have 1: "post_submission e b s =
           (s, Responded 400
                 (failure ''Missing required fields: studentName, workType, content''))"
    using m by (rule post_submission_missing)
  have 2: "names_in_error (failure ''Missing required fields: studentName, workType, content'')
           = [''studentName'', ''workType'', ''content'']"
    by (simp add: names_in_error_def failure_def)
  have r: "truthy_text (req_studentName b) \<longleftrightarrow> ''studentName'' \<notin> set (absent_fields b)"
    "truthy_text (req_workType b) \<longleftrightarrow> ''workType'' \<notin> set (absent_fields b)"
    "truthy_text (req_content b) \<longleftrightarrow> ''content'' \<notin> set (absent_fields b)"
    by (auto simp: absent_fields_def)
  have 3: "post_submission_v1 e b s =
           (s, Responded 400
                 (JObject
                   [(''success'', JBool False),
                    (''error'', JString ''Missing required fields: studentName, workType, content''),
                    (''received'',
                     JObject
                       [(''studentName'', JBool (''studentName'' \<notin> set (absent_fields b))),
                        (''workType'', JBool (''workType'' \<notin> set (absent_fields b))),
                        (''content'', JBool (''content'' \<notin> set (absent_fields b)))])]))"
    using m unfolding r [symmetric] by (auto simp: post_submission_v1_def)
  from 1 2 3 show ?thesis by blast
qed

text \<open>
  For a request that lacks only \<open>content\<close>, the error names \<open>studentName\<close> and
  \<open>workType\<close> as well.
\<close>

theorem missing_field_response_counterexample:
  "absent_fields no_content = [''content''] \<and>
   post_submission env0 no_content empty_store =
     (empty_store,
      Responded 400 (failure ''Missing required fields: studentName, workType, content'')) \<and>
   names_in_error (failure ''Missing required fields: studentName, workType, content'')
     = [''studentName'', ''workType'', ''content''] \<and>
   names_in_error (failure ''Missing required fields: studentName, workType, content'')
     \<noteq> absent_fields no_content"
  by (simp add: absent_fields_def no_content_def post_submission_def names_in_error_def
      failure_def)

theorem missing_field_response_witness:
  "post_submission env0 no_content empty_store =
     (empty_store,
      Responded 400 (failure ''Missing required fields: studentName, workType, content'')) \<and>
   post_submission_v1 env0 no_content empty_store =
     (empty_store,
      Responded 400
        (JObject
          [(''success'', JBool False),
           (''error'', JString ''Missing required fields: studentName, workType, content''),
           (''received'',
            JObject
              [(''studentName'', JBool True), (''workType'', JBool True),
               (''content'', JBool False)])]))"
proof -
  have a: "absent_fields no_content = [''content'']"
    by (simp add: absent_fields_def no_content_def)
  then have h: "absent_fields no_content \<noteq> []" by simp
  show ?thesis
    using missing_field_response [OF h, of env0 empty_store] by (simp add: a)
qed

section \<open>Rooms\<close>

lemma insert_room_duplicate:
  "n \<in> set (map number (rooms s)) \<Longrightarrow>
   insert_room now n t c p a st s = Inl (UniqueFailed ''rooms.number'')"
  by (simp add: insert_room_def)

lemma post_room_stored_number:
  assumes "req_number b = Val n" "n \<in> set (map number (rooms s))"
  shows "post_room e b s =
    (s, if n \<noteq> [] \<and> truthy_text (req_type b) \<and> truthy_num (req_capacity b)
           \<and> truthy_num (req_price b)
        then Responded 500
               (failure ''Database error: SQLITE_CONSTRAINT: UNIQUE constraint failed: rooms.number'')
        else Responded 400 (failure ''Missing required fields: number, type, capacity, price''))"
  using assms by (simp add: post_room_def insert_room_def)

lemma delete_room_absent:
  "i \<notin> r_id ` set (rooms s) \<Longrightarrow> delete_room i s = Inr (0, s)"
  by (simp add: delete_room_def filter_absent_id)

lemma update_room_absent:
  "i \<notin> r_id ` set (rooms s) \<Longrightarrow> update_room i n t c p a st s = Inr (0, s)"
  by (auto simp: update_room_def list_ex_iff)

lemma put_room_absent:
  "i \<notin> r_id ` set (rooms s) \<Longrightarrow>
   put_room e i b s = (s, Responded 404 (failure ''Room not found''))"
  by (simp add: put_room_def update_room_absent)

lemma delete_room_handler_absent:
  "i \<notin> r_id ` set (rooms s) \<Longrightarrow>
   delete_room_handler e i s = (s, Responded 404 (failure ''Room not found''))"
  by (simp add: delete_room_handler_def delete_room_absent)

lemma delete_room_present:
  assumes d: "distinct (map r_id (rooms s))" and r: "r \<in> set (rooms s)"
  shows "delete_room (r_id r) s = Inr (1, s\<lparr>rooms := filter (\<lambda>x. r_id x \<noteq> r_id r) (rooms s)\<rparr>)"
  using filter_same_id [OF d r] by (simp add: delete_room_def)

lemma mset_rooms_delete:
  assumes d: "distinct (map r_id (rooms s))" and r: "r \<in> set (rooms s)"
  shows "mset (rooms s) = add_mset r (mset (filter (\<lambda>x. r_id x \<noteq> r_id r) (rooms s)))"
proof -
  have "mset (rooms s) = mset (filter (\<lambda>x. r_id x = r_id r) (rooms s))
      + mset (filter (\<lambda>x. \<not> r_id x = r_id r) (rooms s))"
    using multiset_partition [of "mset (rooms s)" "\<lambda>x. r_id x = r_id r"] by simp
  then show ?thesis
    using filter_same_id [OF d r] by simp
qed

lemma amenities_ok_select: "amenities_ok s \<Longrightarrow>
  list_all (\<lambda>r. \<not> isl (parse_amenities (amenities r))) (select_rooms s)"
  by (simp add: amenities_ok_def list_all_iff set_select_rooms)

lemma transform_room_ok:
  "\<not> isl (parse_amenities (amenities r)) \<Longrightarrow>
   transform_room r =
     Inr (JObject
           [(''id'', JNumber (of_int (r_id r))),
            (''number'', JString (number r)),
            (''type'', JString (room_type r)),
            (''capacity'', JNumber (capacity r)),
            (''price'', JNumber (price r)),
            (''amenities'', sent (projr (parse_amenities (amenities r)))),
            (''status'', nullable (status r)),
            (''createdAt'', JString (r_created_at r))])"
  by (cases "parse_amenities (amenities r)") (simp_all add: transform_room_def)

lemma get_rooms_ok:
  assumes "amenities_ok s"
  shows "get_rooms e s =
    (s, Responded 200 (JArray (map (\<lambda>r. projr (transform_room r)) (select_rooms s))))"
proof -
  have "list_all (\<lambda>r. \<not> isl (transform_room r)) (select_rooms s)"
    using amenities_ok_select [OF assms]
    by (auto simp: list_all_iff transform_room_ok)
  then show ?thesis
    by (simp add: get_rooms_def map_throwing_Inr)
qed

lemma amenities_ok_initial: "amenities_ok (initial_store clock)"
  by (simp add: amenities_ok_def initial_store_rooms parse_amenities_stringified)

lemma amenities_ok_post_room: "amenities_ok s \<Longrightarrow> amenities_ok (fst (post_room e b s))"
  by (auto simp: post_room_def insert_room_def amenities_ok_def Let_def encode_amenities_def
      parse_amenities_stringified split: if_splits)

lemma amenities_ok_put_room: "amenities_ok s \<Longrightarrow> amenities_ok (fst (put_room e i b s))"
proof -
  assume ok: "amenities_ok s"
  show ?thesis
  proof (cases "update_room i (sql_param (req_number b)) (sql_param (req_type b))
            (sql_param (req_capacity b)) (sql_param (req_price b))
            (Some (encode_amenities (req_amenities b)))
            (sql_param (req_status b)) s")
    case (Inl err)
    with ok show ?thesis by (simp add: put_room_def)
  next
    case (Inr ks)
    obtain k s' where ks: "ks = (k, s')" by (cases ks)
    have "amenities_ok s'"
      using Inr ok unfolding ks
      by (auto simp: update_room_def amenities_ok_def list_all_iff parse_amenities_encoded
          split: if_splits option.splits)
    with Inr ks show ?thesis by (simp add: put_room_def)
  qed
qed

lemma amenities_ok_delete: "amenities_ok s \<Longrightarrow> amenities_ok (fst (delete_room_handler e i s))"
  by (auto simp: delete_room_handler_def delete_room_def amenities_ok_def list_all_iff)

lemma rooms_post_submission: "rooms (fst (post_submission e b s)) = rooms s"
  by (auto simp: post_submission_def insert_submission_result split: sum.splits)

lemma amenities_ok_handle: "amenities_ok s \<Longrightarrow> amenities_ok (fst (handle e req s))"
proof (cases req)
  case (PostSubmission b)
  assume "amenities_ok s"
  then show ?thesis
    unfolding PostSubmission by (simp add: amenities_ok_def rooms_post_submission)
qed (simp_all add: get_root_def get_health_def fst_get_submissions fst_get_rooms
      amenities_ok_post_room amenities_ok_put_room amenities_ok_delete)

subsection \<open>Room numbers are unique\<close>

text \<open>
  C2, as the code has it. Take any database and any request to \<open>POST /api/rooms\<close> whose
  \<open>number\<close> is text that a stored room already has as its number. The request fails and
  the database, so also the number of rooms, is as before. When \<open>number\<close>, \<open>type\<close>,
  \<open>capacity\<close> and \<open>price\<close> are all present and truthy, the failure is the UNIQUE
  constraint error of \<open>rooms.number\<close>, sent as a database error with status 500; when one
  of them is missing, empty or zero, the check of the required fields comes first and
  the answer is status 400 with the text about missing fields. The \<open>INSERT\<close> itself, with
  such a number, fails with the UNIQUE constraint error whatever the other values are.
  Uniqueness of the room numbers, together with uniqueness of the ids, holds after
  start-up and is preserved by every request.
\<close>

theorem duplicate_room_number:
  assumes "req_number b = Val n" "n \<in> set (map number (rooms s))"
  shows "fst (post_room e b s) = s \<and>
         length (rooms (fst (post_room e b s))) = length (rooms s) \<and>
         (n \<noteq> [] \<and> truthy_text (req_type b) \<and> truthy_num (req_capacity b)
            \<and> truthy_num (req_price b) \<longrightarrow>
            post_room e b s =
              (s, Responded 500
                    (failure
                      ''Database error: SQLITE_CONSTRAINT: UNIQUE constraint failed: rooms.number''))) \<and>
         (n = [] \<or> \<not> truthy_text (req_type b) \<or> \<not> truthy_num (req_capacity b)
            \<or> \<not> truthy_num (req_price b) \<longrightarrow>
            post_room e b s =
              (s, Responded 400
                    (failure ''Missing required fields: number, type, capacity, price''))) \<and>
         insert_room now n t c p a st s = Inl (UniqueFailed ''rooms.number'') \<and>
         schema_ok (initial_store clock) \<and>
         (schema_ok s \<longrightarrow>
            schema_ok (fst (handle e req s)) \<and>
            distinct (map number (rooms (fst (handle e req s)))))"
proof (intro conjI impI)
  note r = post_room_stored_number [OF assms, of e]
  show 1: "fst (post_room e b s) = s" unfolding r by simp
  show "length (rooms (fst (post_room e b s))) = length (rooms s)" unfolding 1 by (rule refl)
  show "post_room e b s =
              (s, Responded 500
                    (failure
                      ''Database error: SQLITE_CONSTRAINT: UNIQUE constraint failed: rooms.number''))"
    if "n \<noteq> [] \<and> truthy_text (req_type b) \<and> truthy_num (req_capacity b)
            \<and> truthy_num (req_price b)"
    unfolding r using that by simp
  show "post_room e b s =
              (s, Responded 400
                    (failure ''Missing required fields: number, type, capacity, price''))"
    if "n = [] \<or> \<not> truthy_text (req_type b) \<or> \<not> truthy_num (req_capacity b)
            \<or> \<not> truthy_num (req_price b)"
    unfolding r using that by auto
  show "insert_room now n t c p a st s = Inl (UniqueFailed ''rooms.number'')"
    using assms(2) by (rule insert_room_duplicate)
  show "schema_ok (initial_store clock)" by (rule schema_ok_initial)
next
  assume "schema_ok s"
  then show ok: "schema_ok (fst (handle e req s))" by (rule schema_ok_handle)
  then show "distinct (map number (rooms (fst (handle e req s))))"
    by (simp add: schema_ok_def)
qed

text \<open>
  A request with the number of a stored room does not always fail on the duplicate:
  room 101 is there after start-up, and a request for a room 101 with the price 0 is
  answered with the text about missing fields.
\<close>

theorem duplicate_room_number_counterexample:
  "''101'' \<in> set (map number (rooms (initial_store clock0))) \<and>
   post_room env0 room101_free (initial_store clock0) =
     (initial_store clock0,
      Responded 400 (failure ''Missing required fields: number, type, capacity, price''))"
  by (simp add: post_room_def room101_free_def initial_store_rooms)

theorem duplicate_room_number_witness:
  "post_room env0 room101 (initial_store clock0) =
     (initial_store clock0,
      Responded 500
        (failure ''Database error: SQLITE_CONSTRAINT: UNIQUE constraint failed: rooms.number'')) \<and>
   post_room env0 room101_bare (initial_store clock0) =
     (initial_store clock0,
      Responded 400 (failure ''Missing required fields: number, type, capacity, price'')) \<and>
   length (rooms (fst (post_room env0 room101 (initial_store clock0)))) = 5 \<and>
   schema_ok (fst (handle env0 (PostRoom room101) (initial_store clock0)))"
proof -
  have m: "''101'' \<in> set (map number (rooms (initial_store clock0)))"
    by (simp add: initial_store_rooms)
  have n: "req_number room101 = Val ''101''" "req_number room101_bare = Val ''101''"
    by (simp_all add: room101_def room101_bare_def)
  note t = duplicate_room_number [OF n(1) m, where e = env0 and clock = clock0
      and req = "PostRoom room101"]
  note u = duplicate_room_number [OF n(2) m, where e = env0]
  have h: "''101'' \<noteq> [] \<and> truthy_text (req_type room101) \<and> truthy_num (req_capacity room101)
            \<and> truthy_num (req_price room101)"
    by (simp add: room101_def)
  have k: "''101'' = [] \<or> \<not> truthy_text (req_type room101_bare)
            \<or> \<not> truthy_num (req_capacity room101_bare) \<or> \<not> truthy_num (req_price room101_bare)"
    by (simp add: room101_bare_def)
  note 1 = t [THEN conjunct2, THEN conjunct2, THEN conjunct1, THEN mp, OF h]
  note 2 = u [THEN conjunct2, THEN conjunct2, THEN conjunct2, THEN conjunct1, THEN mp, OF k]
  have 3: "length (rooms (fst (post_room env0 room101 (initial_store clock0)))) = 5"
    unfolding t [THEN conjunct2, THEN conjunct1] by (simp add: initial_store_rooms)
  note q = t [THEN conjunct2, THEN conjunct2, THEN conjunct2, THEN conjunct2, THEN conjunct2]
  have ok: "schema_ok (initial_store clock0)" by (rule q [THEN conjunct1])
  have 4: "schema_ok (fst (handle env0 (PostRoom room101) (initial_store clock0)))"
    by (rule q [THEN conjunct2, THEN mp, OF ok, THEN conjunct1])
  show ?thesis
    by (intro conjI) (rule 1, rule 2, rule 3, rule 4)
qed

subsection \<open>Rooms that are not there, and deleting one that is\<close>

text \<open>
  C3. For an id that no stored room has, \<open>PUT /api/rooms/:id\<close> (with any body) and
  \<open>DELETE /api/rooms/:id\<close> answer 404, \<open>Room not found\<close>, and leave the database
  unchanged. For a stored room, \<open>DELETE\<close> with its id answers with success and removes
  that room and no other row; the listing query no longer returns the room or its id,
  and a second \<open>DELETE\<close> with the same id answers 404.
\<close>

theorem room_not_found_and_delete:
  "(i \<notin> r_id ` set (rooms s) \<longrightarrow>
      put_room e i b s = (s, Responded 404 (failure ''Room not found'')) \<and>
      delete_room_handler e i s = (s, Responded 404 (failure ''Room not found''))) \<and>
   (distinct (map r_id (rooms s)) \<and> r \<in> set (rooms s) \<longrightarrow>
      (\<exists>s'. delete_room_handler e (r_id r) s =
              (s', Responded 200
                     (JObject [(''success'', JBool True),
                               (''message'', JString ''Room deleted successfully'')])) \<and>
            mset (rooms s) = add_mset r (mset (rooms s')) \<and>
            submissions s' = submissions s \<and>
            r \<notin> set (select_rooms s') \<and>
            r_id r \<notin> r_id ` set (select_rooms s') \<and>
            delete_room_handler e' (r_id r) s' =
              (s', Responded 404 (failure ''Room not found''))))"
proof (intro conjI impI)
  assume "i \<notin> r_id ` set (rooms s)"
  then show "put_room e i b s = (s, Responded 404 (failure ''Room not found''))"
    by (rule put_room_absent)
next
  assume "i \<notin> r_id ` set (rooms s)"
  then show "delete_room_handler e i s = (s, Responded 404 (failure ''Room not found''))"
    by (rule delete_room_handler_absent)
next
  assume a: "distinct (map r_id (rooms s)) \<and> r \<in> set (rooms s)"
  then have d: "distinct (map r_id (rooms s))" and r: "r \<in> set (rooms s)" by simp_all
  define s' where "s' = s\<lparr>rooms := filter (\<lambda>x. r_id x \<noteq> r_id r) (rooms s)\<rparr>"
  have gone: "r_id r \<notin> r_id ` set (rooms s')"
    unfolding s'_def by auto
  then have gone': "r \<notin> set (rooms s')" by blast
  have 1: "delete_room_handler e (r_id r) s =
      (s', Responded 200
             (JObject [(''success'', JBool True),
                       (''message'', JString ''Room deleted successfully'')]))"
    unfolding s'_def by (simp add: delete_room_handler_def delete_room_present [OF d r])
  have 2: "mset (rooms s) = add_mset r (mset (rooms s'))"
    unfolding s'_def using mset_rooms_delete [OF d r] by simp
  have 3: "submissions s' = submissions s"
    unfolding s'_def by simp
  have 4: "delete_room_handler e' (r_id r) s' = (s', Responded 404 (failure ''Room not found''))"
    using gone by (rule delete_room_handler_absent)
  show "\<exists>s'. delete_room_handler e (r_id r) s =
              (s', Responded 200
                     (JObject [(''success'', JBool True),
                               (''message'', JString ''Room deleted successfully'')])) \<and>
            mset (rooms s) = add_mset r (mset (rooms s')) \<and>
            submissions s' = submissions s \<and>
            r \<notin> set (select_rooms s') \<and>
            r_id r \<notin> r_id ` set (select_rooms s') \<and>
            delete_room_handler e' (r_id r) s' =
              (s', Responded 404 (failure ''Room not found''))"
    using 1 2 3 4 gone gone' by (intro exI [of _ s']) (simp add: set_select_rooms)
qed

theorem room_not_found_and_delete_witness:
  "put_room env0 999 room101 (initial_store clock0)
     = (initial_store clock0, Responded 404 (failure ''Room not found'')) \<and>
   delete_room_handler env0 999 (initial_store clock0)
     = (initial_store clock0, Responded 404 (failure ''Room not found'')) \<and>
   (\<exists>s'. delete_room_handler env0 1 (initial_store clock0) =
           (s', Responded 200
                  (JObject [(''success'', JBool True),
                            (''message'', JString ''Room deleted successfully'')])) \<and>
         map number (select_rooms s') = [''102'', ''201'', ''202'', ''301''] \<and>
         delete_room_handler env0 1 s' = (s', Responded 404 (failure ''Room not found'')))"
proof -
  define r1 where "r1 = \<lparr>r_id = 1, number = ''101'', room_type = ''Standard'', capacity = 2,
      price = 2500, amenities = Some (stringify_strings [''WiFi'', ''AC'', ''TV'']),
      status = Some ''available'', r_created_at = clock0 0\<rparr>"
  have a: "999 \<notin> r_id ` set (rooms (initial_store clock0))"
    by (simp add: initial_store_rooms)
  have p: "distinct (map r_id (rooms (initial_store clock0))) \<and> r1 \<in> set (rooms (initial_store clock0))"
    by (simp add: initial_store_rooms r1_def)
  have i: "r_id r1 = 1" by (simp add: r1_def)
  note t = room_not_found_and_delete [of 999 "initial_store clock0" env0 room101 r1 env0]
  note absent = t [THEN conjunct1, THEN mp, OF a]
  from t [THEN conjunct2, THEN mp, OF p]
  obtain s' where s': "delete_room_handler env0 (r_id r1) (initial_store clock0) =
           (s', Responded 200
                  (JObject [(''success'', JBool True),
                            (''message'', JString ''Room deleted successfully'')]))"
     "delete_room_handler env0 (r_id r1) s' = (s', Responded 404 (failure ''Room not found''))"
    by (elim exE conjE)
  have "s' = fst (delete_room_handler env0 1 (initial_store clock0))"
    using s'(1) unfolding i by simp
  then have n: "map number (select_rooms s') = [''102'', ''201'', ''202'', ''301'']"
    by (simp add: delete_room_handler_def delete_room_def initial_store_rooms select_rooms_def)
  show ?thesis
  proof (intro conjI exI [of _ s'])
    show "put_room env0 999 room101 (initial_store clock0)
      = (initial_store clock0, Responded 404 (failure ''Room not found''))"
      by (rule absent [THEN conjunct1])
    show "delete_room_handler env0 999 (initial_store clock0)
      = (initial_store clock0, Responded 404 (failure ''Room not found''))"
      by (rule absent [THEN conjunct2])
    show "delete_room_handler env0 1 (initial_store clock0) =
           (s', Responded 200
                  (JObject [(''success'', JBool True),
                            (''message'', JString ''Room deleted successfully'')]))"
      using s'(1) unfolding i .
    show "map number (select_rooms s') = [''102'', ''201'', ''202'', ''301'']" by (rule n)
    show "delete_room_handler env0 1 s' = (s', Responded 404 (failure ''Room not found''))"
      using s'(2) unfolding i .
  qed
qed

subsection \<open>Listing rooms\<close>

text \<open>
  C6. The listing query returns all stored rooms, ordered by \<open>number\<close> ascending in the
  bytewise order of the text, and \<open>GET /api/rooms\<close> answers with the transformed rows in
  that order (the amenities of every row being NULL or JSON, which holds after
  start-up and is preserved by every request). After start-up the rooms listed are the five
  sample rooms 101, 102, 201, 202, 301, in this order.
\<close>

theorem list_rooms_ordered:
  "sorted (map number (select_rooms s)) \<and>
   mset (select_rooms s) = mset (rooms s) \<and>
   (amenities_ok s \<longrightarrow>
      (\<exists>js. get_rooms e s = (s, Responded 200 (JArray js)) \<and>
            map_throwing transform_room (select_rooms s) = Inr js \<and>
            map (\<lambda>j. get_prop j ''number'') js
              = map (\<lambda>r. Some (JString (number r))) (select_rooms s))) \<and>
   amenities_ok (initial_store clock) \<and>
   (amenities_ok s \<longrightarrow> amenities_ok (fst (handle e req s))) \<and>
   map number (select_rooms (initial_store clock)) = [''101'', ''102'', ''201'', ''202'', ''301''] \<and>
   get_rooms e (initial_store clock) =
     (initial_store clock,
      Responded 200
        (JArray
          [JObject
             [(''id'', JNumber 1), (''number'', JString ''101''), (''type'', JString ''Standard''),
              (''capacity'', JNumber 2), (''price'', JNumber 2500),
              (''amenities'', JArray [JString ''WiFi'', JString ''AC'', JString ''TV'']),
              (''status'', JString ''available''), (''createdAt'', JString (clock 0))],
           JObject
             [(''id'', JNumber 2), (''number'', JString ''102''), (''type'', JString ''Standard''),
              (''capacity'', JNumber 2), (''price'', JNumber 2500),
              (''amenities'', JArray [JString ''WiFi'', JString ''AC'', JString ''TV'']),
              (''status'', JString ''occupied''), (''createdAt'', JString (clock 1))],
           JObject
             [(''id'', JNumber 3), (''number'', JString ''201''), (''type'', JString ''Deluxe''),
              (''capacity'', JNumber 3), (''price'', JNumber 3500),
              (''amenities'',
               JArray [JString ''WiFi'', JString ''AC'', JString ''TV'', JString ''Mini Bar'']),
              (''status'', JString ''available''), (''createdAt'', JString (clock 2))],
           JObject
             [(''id'', JNumber 4), (''number'', JString ''202''), (''type'', JString ''Deluxe''),
              (''capacity'', JNumber 3), (''price'', JNumber 3500),
              (''amenities'',
               JArray [JString ''WiFi'', JString ''AC'', JString ''TV'', JString ''Mini Bar'']),
              (''status'', JString ''maintenance''), (''createdAt'', JString (clock 3))],
           JObject
             [(''id'', JNumber 5), (''number'', JString ''301''), (''type'', JString ''Suite''),
              (''capacity'', JNumber 4), (''price'', JNumber 5000),
              (''amenities'',
               JArray [JString ''WiFi'', JString ''AC'', JString ''TV'', JString ''Mini Bar'',
                       JString ''Balcony'']),
              (''status'', JString ''available''), (''createdAt'', JString (clock 4))]]))"
proof -
  have 1: "sorted (map number (select_rooms s))" by (rule sorted_select_rooms)
  have 2: "mset (select_rooms s) = mset (rooms s)" by (rule mset_select_rooms)
  have 3: "amenities_ok s \<longrightarrow>
      (\<exists>js. get_rooms e s = (s, Responded 200 (JArray js)) \<and>
            map_throwing transform_room (select_rooms s) = Inr js \<and>
            map (\<lambda>j. get_prop j ''number'') js
              = map (\<lambda>r. Some (JString (number r))) (select_rooms s))"
  proof
    assume ok: "amenities_ok s"
    have all: "list_all (\<lambda>r. \<not> isl (transform_room r)) (select_rooms s)"
      using amenities_ok_select [OF ok] by (auto simp: list_all_iff transform_room_ok)
    have n: "map (\<lambda>j. get_prop j ''number'') (map (\<lambda>r. projr (transform_room r)) (select_rooms s))
        = map (\<lambda>r. Some (JString (number r))) (select_rooms s)"
      using amenities_ok_select [OF ok] by (auto simp: list_all_iff transform_room_ok)
    show "\<exists>js. get_rooms e s = (s, Responded 200 (JArray js)) \<and>
            map_throwing transform_room (select_rooms s) = Inr js \<and>
            map (\<lambda>j. get_prop j ''number'') js
              = map (\<lambda>r. Some (JString (number r))) (select_rooms s)"
      using get_rooms_ok [OF ok] map_throwing_Inr [OF all] n
      by (intro exI [of _ "map (\<lambda>r. projr (transform_room r)) (select_rooms s)"]) simp
  qed
  have 4: "amenities_ok (initial_store clock)" by (rule amenities_ok_initial)
  have 5: "amenities_ok s \<longrightarrow> amenities_ok (fst (handle e req s))"
    by (simp add: amenities_ok_handle)
  have 6: "map number (select_rooms (initial_store clock))
      = [''101'', ''102'', ''201'', ''202'', ''301'']"
    unfolding select_rooms_initial by (simp add: initial_store_rooms)
  have 7: "get_rooms e (initial_store clock) =
     (initial_store clock,
      Responded 200
        (JArray
          [JObject
             [(''id'', JNumber 1), (''number'', JString ''101''), (''type'', JString ''Standard''),
              (''capacity'', JNumber 2), (''price'', JNumber 2500),
              (''amenities'', JArray [JString ''WiFi'', JString ''AC'', JString ''TV'']),
              (''status'', JString ''available''), (''createdAt'', JString (clock 0))],
           JObject
             [(''id'', JNumber 2), (''number'', JString ''102''), (''type'', JString ''Standard''),
              (''capacity'', JNumber 2), (''price'', JNumber 2500),
              (''amenities'', JArray [JString ''WiFi'', JString ''AC'', JString ''TV'']),
              (''status'', JString ''occupied''), (''createdAt'', JString (clock 1))],
           JObject
             [(''id'', JNumber 3), (''number'', JString ''201''), (''type'', JString ''Deluxe''),
              (''capacity'', JNumber 3), (''price'', JNumber 3500),
              (''amenities'',
               JArray [JString ''WiFi'', JString ''AC'', JString ''TV'', JString ''Mini Bar'']),
              (''status'', JString ''available''), (''createdAt'', JString (clock 2))],
           JObject
             [(''id'', JNumber 4), (''number'', JString ''202''), (''type'', JString ''Deluxe''),
              (''capacity'', JNumber 3), (''price'', JNumber 3500),
              (''amenities'',
               JArray [JString ''WiFi'', JString ''AC'', JString ''TV'', JString ''Mini Bar'']),
              (''status'', JString ''maintenance''), (''createdAt'', JString (clock 3))],
           JObject
             [(''id'', JNumber 5), (''number'', JString ''301''), (''type'', JString ''Suite''),
              (''capacity'', JNumber 4), (''price'', JNumber 5000),
              (''amenities'',
               JArray [JString ''WiFi'', JString ''AC'', JString ''TV'', JString ''Mini Bar'',
                       JString ''Balcony'']),
              (''status'', JString ''available''), (''createdAt'', JString (clock 4))]]))"
    unfolding get_rooms_ok [OF amenities_ok_initial] select_rooms_initial
    by (simp add: initial_store_rooms transform_room_def parse_amenities_stringified nullable_def)
  from 1 2 3 4 5 6 7 show ?thesis by blast
qed

theorem list_rooms_ordered_witness:
  "amenities_ok (initial_store clock0) \<and>
   (\<exists>js. get_rooms env0 (initial_store clock0) = (initial_store clock0, Responded 200 (JArray js)) \<and>
         map (\<lambda>j. get_prop j ''number'') js
           = [Some (JString ''101''), Some (JString ''102''), Some (JString ''201''),
              Some (JString ''202''), Some (JString ''301'')]) \<and>
   amenities_ok (fst (handle env0 (PostRoom room101) (initial_store clock0)))"
proof -
  note t = list_rooms_ordered [of "initial_store clock0" env0 clock0 "PostRoom room101"]
  from t have ok: "amenities_ok (initial_store clock0)" by blast
  from t ok obtain js where js: "get_rooms env0 (initial_store clock0) = (initial_store clock0, Responded 200 (JArray js))"
     "map (\<lambda>j. get_prop j ''number'') js
              = map (\<lambda>r. Some (JString (number r))) (select_rooms (initial_store clock0))"
    by blast
  from t have n: "map number (select_rooms (initial_store clock0)) = [''101'', ''102'', ''201'', ''202'', ''301'']"
    by blast
  have "map (\<lambda>r. Some (JString (number r))) (select_rooms (initial_store clock0))
      = map (\<lambda>x. Some (JString x)) (map number (select_rooms (initial_store clock0)))"
    by (simp add: comp_def)
  also have "\<dots> = [Some (JString ''101''), Some (JString ''102''), Some (JString ''201''),
              Some (JString ''202''), Some (JString ''301'')]"
    unfolding n by simp
  finally have m: "map (\<lambda>r. Some (JString (number r))) (select_rooms (initial_store clock0))
    = [Some (JString ''101''), Some (JString ''102''), Some (JString ''201''),
              Some (JString ''202''), Some (JString ''301'')]" .
  from t ok have "amenities_ok (fst (handle env0 (PostRoom room101) (initial_store clock0)))"
    by blast
  with ok js m show ?thesis by auto
qed

section \<open>Response envelopes\<close>

lemma has_success_failure: "has_success (failure msg) \<and> has_error_text (failure msg)"
  by (simp add: has_success_def has_error_text_def failure_def)

lemma post_submission_envelope:
  "post_submission e b s = (s', Responded code body) \<Longrightarrow>
   has_success body \<and> (400 \<le> code \<longrightarrow> has_error_text body)"
  by (auto simp: post_submission_def has_success_failure split: if_splits sum.splits)
    (simp_all add: has_success_def)

lemma post_room_envelope:
  "post_room e b s = (s', Responded code body) \<Longrightarrow>
   has_success body \<and> (400 \<le> code \<longrightarrow> has_error_text body)"
  by (auto simp: post_room_def has_success_failure split: if_splits sum.splits)
    (simp_all add: has_success_def)

lemma put_room_envelope:
  "put_room e i b s = (s', Responded code body) \<Longrightarrow>
   has_success body \<and> (400 \<le> code \<longrightarrow> has_error_text body)"
  by (auto simp: put_room_def has_success_failure split: if_splits sum.splits)
    (simp_all add: has_success_def)

lemma delete_room_handler_envelope:
  "delete_room_handler e i s = (s', Responded code body) \<Longrightarrow>
   has_success body \<and> (400 \<le> code \<longrightarrow> has_error_text body)"
  by (auto simp: delete_room_handler_def has_success_failure split: if_splits sum.splits)
    (simp_all add: has_success_def)

lemma get_submissions_array:
  "get_submissions e s = (s', Responded code body) \<Longrightarrow>
   code = 200 \<and> (\<exists>xs. body = JArray xs) \<and> \<not> has_success body"
  by (auto simp: get_submissions_def has_success_def split: sum.splits)

lemma get_rooms_array:
  "get_rooms e s = (s', Responded code body) \<Longrightarrow>
   code = 200 \<and> (\<exists>xs. body = JArray xs) \<and> \<not> has_success body"
  by (auto simp: get_rooms_def has_success_def split: sum.splits)

text \<open>
  C9, as the code has it. Every error response of every endpoint, and every response
  of \<open>POST /api/submissions\<close>, \<open>POST /api/rooms\<close>, \<open>PUT /api/rooms/:id\<close> and
  \<open>DELETE /api/rooms/:id\<close>, is an object with a boolean \<open>success\<close>, and every error
  response has a text \<open>error\<close> as well. The success responses of
  \<open>GET /api/submissions\<close> and \<open>GET /api/rooms\<close> are bare arrays, and those of \<open>GET /\<close>
  and \<open>GET /health\<close> are objects without \<open>success\<close>. The server with the detailed error
  reports wraps the list of submissions in an object with \<open>success\<close>, \<open>data\<close> and
  \<open>count\<close>.
\<close>

theorem response_envelopes:
  assumes "handle e req s = (s', Responded code body)"
  shows "(400 \<le> code \<longrightarrow> has_success body \<and> has_error_text body) \<and>
         (req \<notin> {GetRoot, GetHealth, GetSubmissions, GetRooms} \<longrightarrow> has_success body) \<and>
         (req \<in> {GetSubmissions, GetRooms} \<longrightarrow>
            code = 200 \<and> (\<exists>xs. body = JArray xs) \<and> \<not> has_success body) \<and>
         (req \<in> {GetRoot, GetHealth} \<longrightarrow> code = 200 \<and> \<not> has_success body) \<and>
         (\<exists>rows. get_submissions_v1 e s = (s, Responded 200 (JObject
              [(''success'', JBool True), (''data'', JArray rows),
               (''count'', JNumber (of_nat (length rows)))])))"
proof (cases req)
  case GetRoot
  with assms show ?thesis
    by (auto simp: get_root_def has_success_def get_submissions_v1_def)
next
  case GetHealth
  with assms show ?thesis
    by (auto simp: get_health_def has_success_def get_submissions_v1_def)
next
  case GetSubmissions
  with assms get_submissions_array [of e s s' code body] show ?thesis
    by (auto simp: get_submissions_v1_def)
next
  case (PostSubmission b)
  with assms post_submission_envelope [of e b s s' code body] show ?thesis
    by (auto simp: get_submissions_v1_def)
next
  case GetRooms
  with assms get_rooms_array [of e s s' code body] show ?thesis
    by (auto simp: get_submissions_v1_def)
next
  case (PostRoom b)
  with assms post_room_envelope [of e b s s' code body] show ?thesis
    by (auto simp: get_submissions_v1_def)
next
  case (PutRoom i b)
  with assms put_room_envelope [of e i b s s' code body] show ?thesis
    by (auto simp: get_submissions_v1_def)
next
  case (DeleteRoom i)
  with assms delete_room_handler_envelope [of e i s s' code body] show ?thesis
    by (auto simp: get_submissions_v1_def)
next
  case Malformed
  with assms show ?thesis
    by (auto simp: has_success_failure get_submissions_v1_def)
next
  case Unrouted
  with assms show ?thesis
    by (auto simp: has_success_failure get_submissions_v1_def)
qed

text \<open>\<open>GET /api/submissions\<close> on an empty table answers with the empty array.\<close>

theorem response_envelopes_counterexample:
  "handle env0 GetSubmissions empty_store = (empty_store, Responded 200 (JArray [])) \<and>
   \<not> has_success (JArray [])"
  by (simp add: get_submissions_def select_submissions_def empty_store_def has_success_def)

theorem response_envelopes_witness:
  "handle env0 (DeleteRoom 999) empty_store
     = (empty_store, Responded 404 (failure ''Room not found'')) \<and>
   has_success (failure ''Room not found'') \<and> has_error_text (failure ''Room not found'')"
proof -
  have h: "handle env0 (DeleteRoom 999) empty_store
     = (empty_store, Responded 404 (failure ''Room not found''))"
    by (simp add: delete_room_handler_def delete_room_def empty_store_def)
  show ?thesis
    using h response_envelopes [OF h] by simp
qed

end
